theory Spec2Isabelle
  imports Main "HOL-Library.Sublist" "HOL-Library.Char_ord" "HOL-Library.List_Lexorder"
begin

section \<open>Strings and decimal numbers\<close>

text \<open>
  The Go code builds directory names with \<^verbatim>\<open>fmt.Sprintf("%s-%d", ...)\<close>, takes them apart
  with \<^verbatim>\<open>strings.Split(name, "-")\<close> and reads the number back with
  \<^verbatim>\<open>fmt.Sscanf(s, "%d", &result)\<close>. Strings are byte lists.
\<close>

definition digit_char :: "nat \<Rightarrow> char" where
  "digit_char d = char_of (48 + d)"

definition is_digit :: "char \<Rightarrow> bool" where
  "is_digit c = (48 \<le> (of_char c :: nat) \<and> (of_char c :: nat) \<le> 57)"

definition digit_val :: "char \<Rightarrow> nat" where
  "digit_val c = (of_char c :: nat) - 48"

text \<open>\<^verbatim>\<open>%d\<close> of a non-negative number: decimal digits, no leading zero.\<close>

fun show_nat :: "nat \<Rightarrow> string" where
  "show_nat n = (if n < 10 then [digit_char n] else show_nat (n div 10) @ [digit_char (n mod 10)])"

declare show_nat.simps [simp del]

text \<open>\<^verbatim>\<open>%d\<close> of an \<^verbatim>\<open>int64\<close>.\<close>

definition show_int :: "int \<Rightarrow> string" where
  "show_int i = (if i < 0 then CHR ''-'' # show_nat (nat (- i)) else show_nat (nat i))"

text \<open>The value of a run of decimal digits, most significant first.\<close>

definition digits_value :: "string \<Rightarrow> nat" where
  "digits_value ds = foldl (\<lambda>acc c. 10 * acc + digit_val c) 0 ds"

text \<open>
  \<^verbatim>\<open>SkipSpace\<close> of the scanner behind \<^verbatim>\<open>Sscanf\<close>: blanks are skipped, a newline is
  an error (\<open>None\<close>). The scanner reads runes and its blanks are those of \<^verbatim>\<open>isSpace\<close>:
  the ASCII ones (\<open>is_space\<close>), and U+0085, U+00A0, U+1680, U+2000 to U+200A, U+2028,
  U+2029, U+202F, U+205F and U+3000, which a string holds as the bytes of their UTF-8
  encoding (\<open>blank_runes\<close>). \<open>blank_width s\<close> is the number of bytes of such a blank at the
  head of \<open>s\<close>, or 0.
\<close>

definition is_space :: "char \<Rightarrow> bool" where
  "is_space c = ((of_char c :: nat) \<in> {9, 11, 12, 13, 32})"

definition blank_runes :: "nat list list" where
  "blank_runes =
     [[0xC2, 0x85], [0xC2, 0xA0], [0xE1, 0x9A, 0x80],
      [0xE2, 0x80, 0x80], [0xE2, 0x80, 0x81], [0xE2, 0x80, 0x82], [0xE2, 0x80, 0x83],
      [0xE2, 0x80, 0x84], [0xE2, 0x80, 0x85], [0xE2, 0x80, 0x86], [0xE2, 0x80, 0x87],
      [0xE2, 0x80, 0x88], [0xE2, 0x80, 0x89], [0xE2, 0x80, 0x8A],
      [0xE2, 0x80, 0xA8], [0xE2, 0x80, 0xA9], [0xE2, 0x80, 0xAF], [0xE2, 0x81, 0x9F],
      [0xE3, 0x80, 0x80]]"

definition blank_width :: "string \<Rightarrow> nat" where
  "blank_width s =
     (case find (\<lambda>b. prefix b (map of_char s)) blank_runes of
        Some b \<Rightarrow> length b
      | None \<Rightarrow> 0)"

text \<open>\<open>skip_blanks k s\<close> drops \<open>k\<close> more bytes of a blank, then goes on skipping.\<close>

fun skip_blanks :: "nat \<Rightarrow> string \<Rightarrow> string option" where
  "skip_blanks k [] = Some []"
| "skip_blanks (Suc k) (c # cs) = skip_blanks k cs"
| "skip_blanks 0 (c # cs) =
     (if (of_char c :: nat) = 10 then None
      else if is_space c then skip_blanks 0 cs
      else (case blank_width (c # cs) of
              0 \<Rightarrow> Some (c # cs)
            | Suc k \<Rightarrow> skip_blanks k cs))"

definition skip_space :: "string \<Rightarrow> string option" where
  "skip_space s = skip_blanks 0 s"

text \<open>
  \<^verbatim>\<open>StringToInt64\<close>: \<^verbatim>\<open>Sscanf(s, "%d", &result)\<close>. After the blanks an optional sign, then
  at least one digit; the digits are read greedily and whatever follows them is ignored.
  A value outside the \<^verbatim>\<open>int64\<close> range is an error. \<open>None\<close> is \<^verbatim>\<open>err != nil\<close>.
\<close>

definition StringToInt64 :: "string \<Rightarrow> int option" where
  "StringToInt64 s =
     (case skip_space s of
        None \<Rightarrow> None
      | Some r \<Rightarrow>
          (let neg = (r \<noteq> [] \<and> hd r = CHR ''-'');
               r1 = (if r \<noteq> [] \<and> (hd r = CHR ''-'' \<or> hd r = CHR ''+'') then tl r else r);
               ds = takeWhile is_digit r1;
               v = (if neg then - int (digits_value ds) else int (digits_value ds))
           in if ds = [] then None
              else if - (2 ^ 63) \<le> v \<and> v < 2 ^ 63 then Some v
              else None))"

text \<open>\<^verbatim>\<open>strings.Split(s, sep)\<close> for a separator of one byte; never returns the empty list.\<close>

fun split_on :: "char \<Rightarrow> string \<Rightarrow> string list" where
  "split_on sep [] = [[]]"
| "split_on sep (c # cs) =
     (if c = sep then [] # split_on sep cs
      else (case split_on sep cs of
              [] \<Rightarrow> [[c]]
            | p # ps \<Rightarrow> (c # p) # ps))"

text \<open>\<^verbatim>\<open>strings.Join(args, " ")\<close>.\<close>

fun join_sp :: "string list \<Rightarrow> string" where
  "join_sp [] = []"
| "join_sp [a] = a"
| "join_sp (a # b # rest) = a @ '' '' @ join_sp (b # rest)"

text \<open>
  \<^verbatim>\<open>filepath.Join\<close> on a system whose separator is the slash: the elements from the first
  non-empty one on are joined with slashes and the result is cleaned. \<^verbatim>\<open>filepath.Clean\<close>
  drops empty elements and \<^verbatim>\<open>.\<close>, lets \<^verbatim>\<open>..\<close> remove the element before it (at the root
  it is dropped, at the start of a relative path it stays), and gives \<^verbatim>\<open>.\<close> for an empty
  result. \<open>clean_step\<close> keeps the elements read so far, last first.
\<close>

fun join_slash :: "string list \<Rightarrow> string" where
  "join_slash [] = []"
| "join_slash [a] = a"
| "join_slash (a # b # rest) = a @ ''/'' @ join_slash (b # rest)"

definition clean_step :: "bool \<Rightarrow> string list \<Rightarrow> string \<Rightarrow> string list" where
  "clean_step rooted st c =
     (if c = [] \<or> c = ''.'' then st
      else if c = ''..'' then
        (case st of
           [] \<Rightarrow> if rooted then [] else [''..'']
         | t # ts \<Rightarrow> if t = ''..'' then ''..'' # st else ts)
      else c # st)"

definition clean_path :: "string \<Rightarrow> string" where
  "clean_path p =
     (let rooted = (p \<noteq> [] \<and> hd p = CHR ''/'');
          body = join_slash (rev (foldl (clean_step rooted) [] (split_on CHR ''/'' p)))
      in if rooted then ''/'' @ body
         else if body = [] then ''.''
         else body)"

definition path_join :: "string list \<Rightarrow> string" where
  "path_join elems =
     (case dropWhile (\<lambda>e. e = []) elems of
        [] \<Rightarrow> []
      | es \<Rightarrow> clean_path (join_slash es))"

section \<open>The Terraform executor (api/terraform/executor.go)\<close>

text \<open>
  The executor works on the directory \<^verbatim>\<open>statePath\<close> of the host. A working directory
  holds files (name and content); the Terraform binary is an external program, given
  here as a parameter: it reads and writes the files of the directory it runs in.
\<close>

type_synonym files = "(string \<times> string) list"

datatype node = File string | Dir files

datatype os_call = MkdirAll string | WriteFile string string | ReadDir

record host =
  state_dir :: "(string \<times> node) list option"
  os_error :: "os_call \<Rightarrow> string option"
  stdlog :: "string list"

text \<open>
  \<open>state_dir\<close> is the content of \<^verbatim>\<open>statePath\<close> (\<open>None\<close>: the path does not exist yet),
  \<open>os_error\<close> says which system calls fail and with which message, \<open>stdlog\<close> collects
  the lines written with \<^verbatim>\<open>log.Printf\<close>.
\<close>

datatype jvalue = JNull | JBool bool | JNum int | JStr string
  | JArr "jvalue list" | JObj "(string \<times> jvalue) list"

record 'v terraform =
  marshalVars :: "'v \<Rightarrow> string + string"
  tf_run :: "string list \<Rightarrow> files \<Rightarrow> ((string \<times> string) + string) \<times> files"
  parseOutputs :: "string \<Rightarrow> string + (string \<times> jvalue) list"

text \<open>
  \<open>marshalVars\<close> is \<^verbatim>\<open>json.MarshalIndent\<close> of the variables, \<open>tf_run args dir\<close> runs the
  binary with these arguments in a directory and returns either the error of
  \<^verbatim>\<open>cmd.Run\<close> with the captured stderr or the captured stdout, and the files it leaves;
  \<open>parseOutputs\<close> is \<^verbatim>\<open>json.Unmarshal\<close> of the output listing into name and value
  (\<open>Inl\<close> is the error in each case).
\<close>

record Executor =
  basePath :: string
  statePath :: string
  tfBinary :: string

definition NewExecutor :: "string \<Rightarrow> Executor" where
  "NewExecutor bp = \<lparr> basePath = bp, statePath = ''/tmp/terraform-state'', tfBinary = ''terraform'' \<rparr>"

definition logf :: "string \<Rightarrow> host \<Rightarrow> host" where
  "logf line h = h \<lparr> stdlog := stdlog h @ [line] \<rparr>"

text \<open>
  \<^verbatim>\<open>ioutil.ReadDir\<close> of \<^verbatim>\<open>statePath\<close>: the entries sorted by file name; on a missing
  path the error of \<^verbatim>\<open>os.Open\<close>.
\<close>

definition readDir :: "Executor \<Rightarrow> host \<Rightarrow> string + (string \<times> node) list" where
  "readDir e h =
     (case os_error h ReadDir of
        Some err \<Rightarrow> Inl err
      | None \<Rightarrow> (case state_dir h of
                   None \<Rightarrow> Inl (''open '' @ statePath e @ '': no such file or directory'')
                 | Some es \<Rightarrow> Inr (sort_key fst es)))"

definition lookup_node :: "host \<Rightarrow> string \<Rightarrow> node option" where
  "lookup_node h name = (case state_dir h of None \<Rightarrow> None | Some es \<Rightarrow> map_of es name)"

definition put_node :: "string \<Rightarrow> node \<Rightarrow> host \<Rightarrow> host" where
  "put_node name n h =
     h \<lparr> state_dir := Some ((name, n) # filter (\<lambda>e. fst e \<noteq> name) (case state_dir h of None \<Rightarrow> [] | Some es \<Rightarrow> es)) \<rparr>"

text \<open>
  \<^verbatim>\<open>os.MkdirAll\<close> of the directory \<open>name\<close> directly under \<^verbatim>\<open>statePath\<close>: creates the
  missing path, succeeds on an existing directory, fails on a file of that name.
  \<open>workPath\<close> is the path \<^verbatim>\<open>filepath.Join(e.statePath, workDir)\<close> handed to the call.
  (The state directory is modelled one level deep: a module name holding a path
  separator, which would nest directories, is outside this model.)
\<close>

definition workPath :: "Executor \<Rightarrow> string \<Rightarrow> string" where
  "workPath e workDir = path_join [statePath e, workDir]"

definition mkdirAll :: "Executor \<Rightarrow> string \<Rightarrow> host \<Rightarrow> string option \<times> host" where
  "mkdirAll e name h =
     (case os_error h (MkdirAll name) of
        Some err \<Rightarrow> (Some err, h)
      | None \<Rightarrow> (case lookup_node h name of
                   Some (File _) \<Rightarrow> (Some (''mkdir '' @ workPath e name @ '': not a directory''), h)
                 | Some (Dir _) \<Rightarrow> (None, h)
                 | None \<Rightarrow> (None, put_node name (Dir []) h)))"

definition set_file :: "string \<Rightarrow> string \<Rightarrow> files \<Rightarrow> files" where
  "set_file fname content fs = (fname, content) # filter (\<lambda>e. fst e \<noteq> fname) fs"

definition dir_files :: "host \<Rightarrow> string \<Rightarrow> files" where
  "dir_files h name = (case lookup_node h name of Some (Dir fs) \<Rightarrow> fs | _ \<Rightarrow> [])"

text \<open>\<^verbatim>\<open>ioutil.WriteFile\<close> of the file \<open>fname\<close> in the directory \<open>dir\<close> under \<^verbatim>\<open>statePath\<close>.\<close>

definition writeFile :: "Executor \<Rightarrow> string \<Rightarrow> string \<Rightarrow> string \<Rightarrow> host \<Rightarrow> string option \<times> host" where
  "writeFile e dir fname content h =
     (case os_error h (WriteFile dir fname) of
        Some err \<Rightarrow> (Some err, h)
      | None \<Rightarrow> (case lookup_node h dir of
                   Some (Dir fs) \<Rightarrow> (None, put_node dir (Dir (set_file fname content fs)) h)
                 | Some (File _) \<Rightarrow>
                     (Some (''open '' @ path_join [workPath e dir, fname] @ '': not a directory''), h)
                 | None \<Rightarrow>
                     (Some (''open '' @ path_join [workPath e dir, fname] @ '': no such file or directory''), h)))"

text \<open>\<^verbatim>\<open>runCommand\<close>: runs the binary in a working directory and logs what happens.\<close>

definition runCommand :: "'v terraform \<Rightarrow> Executor \<Rightarrow> string \<Rightarrow> string list \<Rightarrow> host \<Rightarrow> string option \<times> host" where
  "runCommand tf e workDir args h =
     (let h1 = logf (''Running Terraform command: '' @ tfBinary e @ '' '' @ join_sp args) h;
          (res, fs') = tf_run tf args (dir_files h1 workDir);
          h2 = put_node workDir (Dir fs') h1
      in case res of
           Inl (err, stderr) \<Rightarrow>
             (Some (''terraform command failed: '' @ err @ '', stderr: '' @ stderr),
              logf (''Stderr: '' @ stderr) (logf (''Terraform command failed: '' @ err) h2))
         | Inr out \<Rightarrow> (None, logf ''Terraform command succeeded'' h2))"

text \<open>
  \<^verbatim>\<open>Apply\<close>. \<open>now\<close> is \<^verbatim>\<open>time.Now().Unix()\<close>. The result is the error (\<open>None\<close> for
  \<^verbatim>\<open>nil\<close>) and the host afterwards.
\<close>

definition workDirName :: "string \<Rightarrow> int \<Rightarrow> string" where
  "workDirName module now = module @ ''-'' @ show_int now"

definition Apply :: "'v terraform \<Rightarrow> Executor \<Rightarrow> int \<Rightarrow> string \<Rightarrow> 'v \<Rightarrow> host \<Rightarrow> string option \<times> host" where
  "Apply tf e now module vars h =
     (let workDir = workDirName module now in
      case mkdirAll e workDir h of
        (Some err, h1) \<Rightarrow> (Some (''failed to create work directory: '' @ err), h1)
      | (None, h1) \<Rightarrow>
          (case marshalVars tf vars of
             Inl err \<Rightarrow> (Some (''failed to marshal variables: '' @ err), h1)
           | Inr varsJSON \<Rightarrow>
               (case writeFile e workDir ''terraform.tfvars.json'' varsJSON h1 of
                  (Some err, h2) \<Rightarrow> (Some (''failed to write variables file: '' @ err), h2)
                | (None, h2) \<Rightarrow>
                    (let modulePath = path_join [basePath e, module] in
                     case runCommand tf e workDir [''init'', ''-no-color'', modulePath] h2 of
                       (Some err, h3) \<Rightarrow> (Some (''terraform init failed: '' @ err), h3)
                     | (None, h3) \<Rightarrow>
                         (case runCommand tf e workDir
                                 [''apply'', ''-no-color'', ''-auto-approve'', ''-var-file=terraform.tfvars.json''] h3 of
                            (Some err, h4) \<Rightarrow> (Some (''terraform apply failed: '' @ err), h4)
                          | (None, h4) \<Rightarrow> (None, h4))))))"

text \<open>
  The loop of \<^verbatim>\<open>GetOutputs\<close> over the directory listing: the state is
  \<^verbatim>\<open>(latestDir, latestTime)\<close>, starting at \<^verbatim>\<open>("", 0)\<close>.
\<close>

definition is_dir :: "node \<Rightarrow> bool" where
  "is_dir n = (case n of Dir _ \<Rightarrow> True | File _ \<Rightarrow> False)"

definition latest_step :: "string \<Rightarrow> string \<times> int \<Rightarrow> string \<times> node \<Rightarrow> string \<times> int" where
  "latest_step module acc entry =
     (if is_dir (snd entry) \<and> prefix (module @ ''-'') (fst entry) then
        (let parts = split_on CHR ''-'' (fst entry) in
         if length parts > 1 then
           (case StringToInt64 (parts ! 1) of
              Some timestamp \<Rightarrow> if timestamp > snd acc then (fst entry, timestamp) else acc
            | None \<Rightarrow> acc)
         else acc)
      else acc)"

definition findLatest :: "string \<Rightarrow> (string \<times> node) list \<Rightarrow> string \<times> int" where
  "findLatest module dirs = foldl (latest_step module) ([], 0) dirs"

datatype outputs_error =
    ReadStateDirFailed string
  | NoStateDir string
  | OutputFailed string string
  | ParseFailed string

text \<open>
  \<^verbatim>\<open>GetOutputs\<close>. The errors are the four \<^verbatim>\<open>fmt.Errorf\<close> of the function; \<open>error_text\<close>
  gives their message.
\<close>

fun error_text :: "outputs_error \<Rightarrow> string" where
  "error_text (ReadStateDirFailed e) = ''failed to read state directory: '' @ e"
| "error_text (NoStateDir module) = ''no state directory found for module '' @ module"
| "error_text (OutputFailed e stderr) = ''terraform output failed: '' @ e @ '', stderr: '' @ stderr"
| "error_text (ParseFailed e) = ''failed to parse outputs: '' @ e"

definition GetOutputs :: "'v terraform \<Rightarrow> Executor \<Rightarrow> string \<Rightarrow> host \<Rightarrow> outputs_error + (string \<times> jvalue) list" where
  "GetOutputs tf e module h =
     (case readDir e h of
        Inl err \<Rightarrow> Inl (ReadStateDirFailed err)
      | Inr dirs \<Rightarrow>
          (let latestDir = fst (findLatest module dirs) in
           if latestDir = [] then Inl (NoStateDir module)
           else (case fst (tf_run tf [''output'', ''-no-color'', ''-json''] (dir_files h latestDir)) of
                   Inl (err, stderr) \<Rightarrow> Inl (OutputFailed err stderr)
                 | Inr out \<Rightarrow> (case parseOutputs tf out of
                                 Inl err \<Rightarrow> Inl (ParseFailed err)
                               | Inr outputs \<Rightarrow> Inr outputs))))"


text \<open>
  What the loop reads off one entry: the number in the second dash-separated part of the
  name, for a directory whose name starts with the module name and a dash.
\<close>

definition stamp :: "string \<Rightarrow> string \<times> node \<Rightarrow> int option" where
  "stamp module entry =
     (if is_dir (snd entry) \<and> prefix (module @ ''-'') (fst entry)
         \<and> length (split_on CHR ''-'' (fst entry)) > 1
      then StringToInt64 (split_on CHR ''-'' (fst entry) ! 1) else None)"

definition dir_entries :: "host \<Rightarrow> (string \<times> node) list" where
  "dir_entries h = (case state_dir h of None \<Rightarrow> [] | Some es \<Rightarrow> es)"

text \<open>
  A stand-in for the Terraform binary, used to run the executor on concrete inputs:
  \<^verbatim>\<open>apply\<close> records the variables file as the state of the directory, \<^verbatim>\<open>output\<close>
  prints that state, and the listing parses to the single output \<^verbatim>\<open>cluster_name\<close>.
\<close>

definition echo_terraform :: "string terraform" where
  "echo_terraform =
     \<lparr> marshalVars = Inr,
       tf_run = (\<lambda>args fs.
          if args \<noteq> [] \<and> hd args = ''apply'' then
            (Inr [], set_file ''terraform.tfstate''
                       (case map_of fs ''terraform.tfvars.json'' of Some v \<Rightarrow> v | None \<Rightarrow> []) fs)
          else if args \<noteq> [] \<and> hd args = ''output'' then
            (Inr (case map_of fs ''terraform.tfstate'' of Some v \<Rightarrow> v | None \<Rightarrow> []), fs)
          else (Inr [], fs)),
       parseOutputs = (\<lambda>out. Inr [(''cluster_name'', JStr out)]) \<rparr>"

definition fresh_host :: host where
  "fresh_host = \<lparr> state_dir = None, os_error = (\<lambda>_. None), stdlog = [] \<rparr>"

text \<open>
  Two environments provisioned through the module \<^verbatim>\<open>aws\<close>: A at second 1700000000,
  then B one minute later.
\<close>

definition host_after_A :: host where
  "host_after_A =
     snd (Apply echo_terraform (NewExecutor ''../provisioning'') 1700000000 ''aws'' ''env-aaaaaaaa'' fresh_host)"

definition host_after_B :: host where
  "host_after_B =
     snd (Apply echo_terraform (NewExecutor ''../provisioning'') 1700000060 ''aws'' ''env-bbbbbbbb'' host_after_A)"

text \<open>
  After them a third environment is provisioned through the module \<^verbatim>\<open>gcp\<close>; and, on a
  fresh host, one environment through the module \<^verbatim>\<open>aws-eks\<close>.
\<close>

definition host_after_C :: host where
  "host_after_C =
     snd (Apply echo_terraform (NewExecutor ''../provisioning'') 1700000120 ''gcp'' ''env-cccccccc'' host_after_B)"

definition host_after_eks :: host where
  "host_after_eks =
     snd (Apply echo_terraform (NewExecutor ''../provisioning'') 1700000000 ''aws-eks'' ''env-aaaaaaaa'' fresh_host)"


section \<open>The environment records (package models)\<close>

text \<open>
  The Go structs as records; every field keeps its Go name behind a prefix for its
  struct. A pointer or a slice or map that may be \<^verbatim>\<open>nil\<close> is an option, a
  \<^verbatim>\<open>time.Time\<close> a number of seconds.
\<close>

record ResourceLimits =
  rl_CPU :: string
  rl_Memory :: string
  rl_Storage :: string
  rl_MaxNodeCount :: int
  rl_MaxNamespaces :: int
  rl_MaxLoadBalancers :: int

record NetworkPolicy =
  np_AllowIngressFromCIDR :: "string list"
  np_AllowEgressToCIDR :: "string list"
  np_DefaultDenyIngress :: bool
  np_DefaultDenyEgress :: bool
  np_AllowIntraNamespace :: bool
  np_AllowCrossNamespace :: bool
  np_AllowExternalServices :: "string list"

record ServiceMeshConfig =
  sm_Enabled :: bool
  sm_MTLSMode :: string
  sm_EnableTracing :: bool
  sm_EnableMetrics :: bool
  sm_EnableCircuitBreaker :: bool
  sm_EnableOutlierDetection :: bool
  sm_EnableFaultInjection :: bool
  sm_EnableRequestThrottling :: bool
  sm_EnableVirtualServiceRBAC :: bool

record MonitoringConfig =
  mon_EnablePrometheus :: bool
  mon_EnableGrafana :: bool
  mon_EnableAlertManager :: bool
  mon_ScrapeInterval :: string
  mon_RetentionPeriod :: string
  mon_DefaultAlertThreshold :: string

record GitOpsConfig =
  go_Enabled :: bool
  go_GitRepository :: string
  go_GitBranch :: string
  go_SyncInterval :: string
  go_AutomatedSync :: bool
  go_SyncTimeout :: string
  go_GitCredentialID :: string

record EnvironmentRequest =
  req_Name :: string
  req_Description :: string
  req_TemplateID :: string
  req_UserID :: string
  req_ResourceLimits :: ResourceLimits
  req_NetworkPolicy :: "NetworkPolicy option"
  req_ServiceMesh :: "ServiceMeshConfig option"
  req_Monitoring :: "MonitoringConfig option"
  req_GitOps :: "GitOpsConfig option"
  req_Addons :: "string list option"
  req_Tags :: "(string \<times> string) list option"

record Environment =
  env_ID :: string
  env_Name :: string
  env_Description :: string
  env_TemplateID :: string
  env_UserID :: string
  env_ResourceLimits :: ResourceLimits
  env_NetworkPolicy :: "NetworkPolicy option"
  env_ServiceMesh :: "ServiceMeshConfig option"
  env_Monitoring :: "MonitoringConfig option"
  env_GitOps :: "GitOpsConfig option"
  env_Addons :: "string list option"
  env_Tags :: "(string \<times> string) list option"
  env_Status :: string
  env_StatusMessage :: string
  env_ClusterName :: string
  env_KubeConfig :: string
  env_ConsoleURL :: string
  env_CreatedAt :: nat
  env_UpdatedAt :: nat
  env_DeletedAt :: "nat option"

record EnvironmentPatch =
  patch_Description :: "string option"
  patch_ResourceLimits :: "ResourceLimits option"
  patch_NetworkPolicy :: "NetworkPolicy option"
  patch_ServiceMesh :: "ServiceMeshConfig option"
  patch_Monitoring :: "MonitoringConfig option"
  patch_GitOps :: "GitOpsConfig option"
  patch_Addons :: "string list option"
  patch_Tags :: "(string \<times> string) list option"

text \<open>
  \<^verbatim>\<open>EnvironmentStatus\<close>: the status of the record and the constant strings of the mock;
  its floating-point metrics and its node and namespace tables are constants too and
  are left out.
\<close>

record EnvironmentStatus =
  st_Status :: string
  st_StatusMessage :: string
  st_ServiceMeshStatus :: string
  st_GitOpsStatus :: string
  st_HealthChecks :: "(string \<times> string) list"

section \<open>The environment handler (api/handlers/environment\_handler.go)\<close>

text \<open>
  The DynamoDB table holds items keyed by the \<^verbatim>\<open>ID\<close> attribute. An item is seen through
  its attributes as an \<open>Environment\<close>; \<open>decodes\<close> says whether
  \<^verbatim>\<open>attributevalue.UnmarshalMap\<close> accepts it. \<open>db_error\<close> says which calls of the client
  fail, \<open>marshal_error\<close> which records \<^verbatim>\<open>attributevalue.MarshalMap\<close> refuses.
\<close>

text \<open>
  An item of the table, as far as the handler can tell items apart: whether
  \<^verbatim>\<open>attributevalue.UnmarshalMap\<close> into an \<^verbatim>\<open>Environment\<close> succeeds, the record it yields,
  and whether the item holds \<^verbatim>\<open>DeletedAt\<close> as an attribute of type NULL. The fields of the
  struct carry no \<^verbatim>\<open>dynamodbav\<close> tag, so \<^verbatim>\<open>MarshalMap\<close> writes every field under its Go
  name and writes a \<^verbatim>\<open>nil\<close> pointer as NULL: an item written by the handler always has
  the attribute \<^verbatim>\<open>DeletedAt\<close>, as NULL or as a time.
\<close>

datatype item = Item (decodes: bool) (attrs: Environment) (null_DeletedAt: bool)

definition marshalMap :: "Environment \<Rightarrow> item" where
  "marshalMap e = Item True e (env_DeletedAt e = None)"

definition has_DeletedAt :: "item \<Rightarrow> bool" where
  "has_DeletedAt i = (case env_DeletedAt (attrs i) of Some _ \<Rightarrow> True | None \<Rightarrow> null_DeletedAt i)"

datatype db_call = Scan | GetItem string | PutItem string | UpdateItem string

record world =
  hst :: host
  items :: "item list"
  db_error :: "db_call \<Rightarrow> string option"
  marshal_error :: "Environment \<Rightarrow> string option"

datatype body =
    EnvBody Environment
  | EnvListBody "Environment list"
  | StatusBody EnvironmentStatus
  | ErrorBody string
  | NoBody

datatype response = Response nat body

text \<open>A goroutine started with \<^verbatim>\<open>go\<close>: the workflow and the record it was given.\<close>

datatype job = ProvisionJob Environment | UpdateJob Environment | DeleteJob Environment

record EnvironmentHandler =
  terraformExecutor :: Executor
  validateRequest :: "EnvironmentRequest \<Rightarrow> string option"
  validatePatch :: "EnvironmentPatch \<Rightarrow> string option"
  tableName :: string

definition NewEnvironmentHandler ::
  "Executor \<Rightarrow> (EnvironmentRequest \<Rightarrow> string option) \<Rightarrow> (EnvironmentPatch \<Rightarrow> string option) \<Rightarrow> EnvironmentHandler" where
  "NewEnvironmentHandler ex vr vp =
     \<lparr> terraformExecutor = ex, validateRequest = vr, validatePatch = vp, tableName = ''environments'' \<rparr>"

definition wlog :: "string \<Rightarrow> world \<Rightarrow> world" where
  "wlog line w = w \<lparr> hst := logf line (hst w) \<rparr>"

definition item_key :: "item \<Rightarrow> string" where
  "item_key i = env_ID (attrs i)"

text \<open>The client calls. \<open>getItem\<close>: the error, or the item under the key if there is one.\<close>

definition stored_item :: "world \<Rightarrow> string \<Rightarrow> item option" where
  "stored_item w k = find (\<lambda>i. item_key i = k) (items w)"

definition getItem :: "string \<Rightarrow> world \<Rightarrow> string + item option" where
  "getItem k w =
     (case db_error w (GetItem k) of
        Some e \<Rightarrow> Inl e
      | None \<Rightarrow> Inr (stored_item w k))"

text \<open>\<open>putItem e\<close> is \<^verbatim>\<open>PutItem\<close> of \<^verbatim>\<open>MarshalMap(e)\<close>: it replaces the item under the key.\<close>

definition putItem :: "Environment \<Rightarrow> world \<Rightarrow> string option \<times> world" where
  "putItem e w =
     (case db_error w (PutItem (env_ID e)) of
        Some err \<Rightarrow> (Some err, w)
      | None \<Rightarrow> (None, w \<lparr> items := marshalMap e # filter (\<lambda>i. item_key i \<noteq> env_ID e) (items w) \<rparr>))"

text \<open>
  Attribute names in an expression. A name is written as it is (\<open>Raw\<close>) or through a
  placeholder \<^verbatim>\<open>#name\<close> (\<open>Alias\<close>) that \<^verbatim>\<open>ExpressionAttributeNames\<close> maps to the name.
  DynamoDB refuses an expression that writes one of its reserved words as it is; the
  words are compared without regard to case. The whole list has several hundred words;
  \<open>reserved_words\<close> holds the two that the names of this table meet, \<^verbatim>\<open>NAME\<close> and
  \<^verbatim>\<open>STATUS\<close>. Of the names that the handler writes in an expression, \<^verbatim>\<open>Status\<close> is the
  only reserved one.
\<close>

datatype name_token = Raw string | Alias string

definition upper :: "char \<Rightarrow> char" where
  "upper c =
     (case map_of (zip ''abcdefghijklmnopqrstuvwxyz'' ''ABCDEFGHIJKLMNOPQRSTUVWXYZ'') c of
        Some u \<Rightarrow> u
      | None \<Rightarrow> c)"

definition reserved_words :: "string list" where
  "reserved_words = [''NAME'', ''STATUS'']"

definition is_reserved :: "string \<Rightarrow> bool" where
  "is_reserved n = (map upper n \<in> set reserved_words)"

text \<open>
  The attribute that a token names (\<open>Inr\<close>), or why the expression is refused (\<open>Inl\<close>, the
  text of the \<^verbatim>\<open>ValidationException\<close> after the kind of expression). \<open>first_refusal\<close> is
  the check of all tokens of an expression.
\<close>

definition resolve :: "(string \<times> string) list \<Rightarrow> name_token \<Rightarrow> string + string" where
  "resolve names t =
     (case t of
        Raw n \<Rightarrow>
          if is_reserved n
          then Inl (''Attribute name is a reserved keyword; reserved keyword: '' @ n)
          else Inr n
      | Alias a \<Rightarrow>
          (case map_of names a of
             Some n \<Rightarrow> Inr n
           | None \<Rightarrow>
               Inl (''An expression attribute name used in the document path is not defined; attribute name: '' @ a)))"

fun first_refusal :: "(string \<times> string) list \<Rightarrow> name_token list \<Rightarrow> string option" where
  "first_refusal names [] = None"
| "first_refusal names (t # ts) =
     (case resolve names t of
        Inl err \<Rightarrow> Some err
      | Inr _ \<Rightarrow> first_refusal names ts)"

text \<open>
  \<^verbatim>\<open>UpdateItem\<close> with an expression \<^verbatim>\<open>SET name = :value, ...\<close>, given as the list of its
  assignments, each with the value that \<^verbatim>\<open>ExpressionAttributeValues\<close> has for the
  placeholder. The values that the handler sends are all strings (type S): \<open>AString\<close> is
  a text, \<open>ATime t\<close> the text of the time \<open>t\<close> in the layout RFC 3339, which decodes into a
  \<^verbatim>\<open>time.Time\<close> field. \<open>set_attribute\<close> covers the assignments that the handler sends, a
  text for \<^verbatim>\<open>KubeConfig\<close>, \<^verbatim>\<open>ConsoleURL\<close>, \<^verbatim>\<open>Status\<close> or \<^verbatim>\<open>StatusMessage\<close> and a time for
  \<^verbatim>\<open>UpdatedAt\<close>; it gives no effect to any other assignment. The request is refused,
  and nothing is written, when the call fails or when the expression is not valid (the
  error is then the message of the service; the client library puts the operation and
  the request in front of it). On a key that is not in the table DynamoDB creates an
  item with the key and the attributes set.
\<close>

datatype avalue = AString string | ATime nat

definition set_attribute :: "string \<Rightarrow> avalue \<Rightarrow> Environment \<Rightarrow> Environment" where
  "set_attribute n v e =
     (case v of
        AString s \<Rightarrow>
          (if n = ''KubeConfig'' then e \<lparr> env_KubeConfig := s \<rparr>
           else if n = ''ConsoleURL'' then e \<lparr> env_ConsoleURL := s \<rparr>
           else if n = ''Status'' then e \<lparr> env_Status := s \<rparr>
           else if n = ''StatusMessage'' then e \<lparr> env_StatusMessage := s \<rparr>
           else e)
      | ATime t \<Rightarrow>
          (if n = ''UpdatedAt'' then e \<lparr> env_UpdatedAt := t \<rparr> else e))"

definition apply_sets :: "(string \<times> string) list \<Rightarrow> (name_token \<times> avalue) list \<Rightarrow> Environment \<Rightarrow> Environment" where
  "apply_sets names sets e =
     foldl (\<lambda>acc (t, v). case resolve names t of Inr n \<Rightarrow> set_attribute n v acc | Inl _ \<Rightarrow> acc) e sets"

definition blank_environment :: "string \<Rightarrow> Environment" where
  "blank_environment k =
     \<lparr> env_ID = k, env_Name = [], env_Description = [], env_TemplateID = [], env_UserID = [],
       env_ResourceLimits = \<lparr> rl_CPU = [], rl_Memory = [], rl_Storage = [], rl_MaxNodeCount = 0,
                               rl_MaxNamespaces = 0, rl_MaxLoadBalancers = 0 \<rparr>,
       env_NetworkPolicy = None, env_ServiceMesh = None, env_Monitoring = None, env_GitOps = None,
       env_Addons = None, env_Tags = None, env_Status = [], env_StatusMessage = [],
       env_ClusterName = [], env_KubeConfig = [], env_ConsoleURL = [], env_CreatedAt = 0,
       env_UpdatedAt = 0, env_DeletedAt = None \<rparr>"

definition updateItem ::
  "string \<Rightarrow> (name_token \<times> avalue) list \<Rightarrow> (string \<times> string) list \<Rightarrow> world \<Rightarrow> string option \<times> world" where
  "updateItem k sets names w =
     (case db_error w (UpdateItem k) of
        Some err \<Rightarrow> (Some err, w)
      | None \<Rightarrow>
          (case first_refusal names (map fst sets) of
             Some err \<Rightarrow> (Some (''ValidationException: Invalid UpdateExpression: '' @ err), w)
           | None \<Rightarrow>
               (None, w \<lparr> items :=
                  (if list_ex (\<lambda>i. item_key i = k) (items w)
                   then map (\<lambda>i. if item_key i = k
                                  then Item (decodes i) (apply_sets names sets (attrs i)) (null_DeletedAt i)
                                  else i) (items w)
                   else items w @ [Item True (apply_sets names sets (blank_environment k)) False]) \<rparr>)))"

text \<open>
  The filter of a scan: the conditions joined with \<^verbatim>\<open>AND\<close>. \<open>AttrEq\<close> is
  \<^verbatim>\<open>name = :value\<close>, with the value of the placeholder, on the attributes \<^verbatim>\<open>UserID\<close> and
  \<^verbatim>\<open>Status\<close>; \<open>AttrNotExists\<close> is \<^verbatim>\<open>attribute_not_exists(name)\<close> on \<^verbatim>\<open>DeletedAt\<close>, which
  holds of an item that has no such attribute, not even as NULL. A filter that is not
  valid is refused.
\<close>

datatype cond = AttrEq name_token string | AttrNotExists name_token

fun cond_token :: "cond \<Rightarrow> name_token" where
  "cond_token (AttrEq t v) = t"
| "cond_token (AttrNotExists t) = t"

fun cond_holds :: "(string \<times> string) list \<Rightarrow> cond \<Rightarrow> item \<Rightarrow> bool" where
  "cond_holds names (AttrEq t v) i =
     (case resolve names t of
        Inr n \<Rightarrow>
          (if n = ''UserID'' then env_UserID (attrs i) = v
           else if n = ''Status'' then env_Status (attrs i) = v
           else False)
      | Inl _ \<Rightarrow> False)"
| "cond_holds names (AttrNotExists t) i =
     (case resolve names t of
        Inr n \<Rightarrow> (if n = ''DeletedAt'' then \<not> has_DeletedAt i else False)
      | Inl _ \<Rightarrow> False)"

definition scan :: "cond list \<Rightarrow> (string \<times> string) list \<Rightarrow> world \<Rightarrow> string + item list" where
  "scan conds names w =
     (case db_error w Scan of
        Some err \<Rightarrow> Inl err
      | None \<Rightarrow>
          (case first_refusal names (map cond_token conds) of
             Some err \<Rightarrow> Inl (''ValidationException: Invalid FilterExpression: '' @ err)
           | None \<Rightarrow> Inr (filter (\<lambda>i. list_all (\<lambda>c. cond_holds names c i) conds) (items w))))"

text \<open>\<^verbatim>\<open>ListEnvironments\<close>; \<open>userID\<close> and \<open>status\<close> are the query parameters.\<close>

definition ListEnvironments :: "EnvironmentHandler \<Rightarrow> string \<Rightarrow> string \<Rightarrow> world \<Rightarrow> response \<times> world" where
  "ListEnvironments h userID status w =
     (let filterExpressions =
            (if userID \<noteq> [] then [AttrEq (Alias ''#userId'') userID] else [])
            @ (if status \<noteq> [] then [AttrEq (Alias ''#status'') status] else [])
            @ [AttrNotExists (Raw ''DeletedAt'')];
          expressionAttributeNames =
            (if userID \<noteq> [] then [(''#userId'', ''UserID'')] else [])
            @ (if status \<noteq> [] then [(''#status'', ''Status'')] else [])
      in case scan filterExpressions expressionAttributeNames w of
           Inl err \<Rightarrow>
             (Response 500 (ErrorBody ''Failed to retrieve environments''),
              wlog (''Failed to scan environments: '' @ err) w)
         | Inr result \<Rightarrow>
             (if list_ex (\<lambda>i. \<not> decodes i) result then
                (Response 500 (ErrorBody ''Failed to process environments''),
                 wlog ''Failed to unmarshal environments'' w)
              else (Response 200 (EnvListBody (map attrs result)), w)))"

text \<open>
  The record that \<^verbatim>\<open>CreateEnvironment\<close> builds from the request: \<open>envID\<close> is the string
  of \<^verbatim>\<open>uuid.New()\<close>, the cluster name is \<^verbatim>\<open>"env-" + envID[:8]\<close>, \<open>now\<close> is the time.
\<close>

definition new_environment :: "EnvironmentRequest \<Rightarrow> string \<Rightarrow> nat \<Rightarrow> Environment" where
  "new_environment envRequest envID now =
     (let clusterName = ''env-'' @ take 8 envID in
      \<lparr> env_ID = envID,
        env_Name = req_Name envRequest,
        env_Description = req_Description envRequest,
        env_TemplateID = req_TemplateID envRequest,
        env_UserID = req_UserID envRequest,
        env_ResourceLimits = req_ResourceLimits envRequest,
        env_NetworkPolicy = req_NetworkPolicy envRequest,
        env_ServiceMesh = req_ServiceMesh envRequest,
        env_Monitoring = req_Monitoring envRequest,
        env_GitOps = req_GitOps envRequest,
        env_Addons = req_Addons envRequest,
        env_Tags = req_Tags envRequest,
        env_Status = ''CREATING'',
        env_StatusMessage = ''Environment creation initiated'',
        env_ClusterName = clusterName,
        env_KubeConfig = [],
        env_ConsoleURL = [],
        env_CreatedAt = now,
        env_UpdatedAt = now,
        env_DeletedAt = None \<rparr>)"

text \<open>
  \<^verbatim>\<open>CreateEnvironment\<close>. \<open>decoded\<close> is the request body after \<^verbatim>\<open>json.Decode\<close> (\<open>None\<close>: the
  decoding failed). The slice \<^verbatim>\<open>envID[:8]\<close> panics on a string shorter than 8, which
  the server answers by closing the connection (\<open>None\<close> as response); the string of a
  UUID has 36 characters. The third component is the goroutine started.
\<close>

definition CreateEnvironment ::
  "EnvironmentHandler \<Rightarrow> EnvironmentRequest option \<Rightarrow> string \<Rightarrow> nat \<Rightarrow> world \<Rightarrow> response option \<times> world \<times> job option" where
  "CreateEnvironment h decoded envID now w =
     (case decoded of
        None \<Rightarrow> (Some (Response 400 (ErrorBody ''Invalid request payload'')), w, None)
      | Some envRequest \<Rightarrow>
          (case validateRequest h envRequest of
             Some err \<Rightarrow> (Some (Response 400 (ErrorBody (''Validation error: '' @ err))), w, None)
           | None \<Rightarrow>
               (if length envID < 8 then (None, w, None)
                else
                  (let environment = new_environment envRequest envID now
                   in case marshal_error w environment of
                        Some err \<Rightarrow>
                          (Some (Response 500 (ErrorBody ''Failed to create environment'')),
                           wlog (''Failed to marshal environment: '' @ err) w, None)
                      | None \<Rightarrow>
                          (case putItem environment w of
                             (Some err, w1) \<Rightarrow>
                               (Some (Response 500 (ErrorBody ''Failed to save environment'')),
                                wlog (''Failed to save environment: '' @ err) w1, None)
                           | (None, w1) \<Rightarrow>
                               (Some (Response 201 (EnvBody environment)), w1,
                                Some (ProvisionJob environment)))))))"

text \<open>\<^verbatim>\<open>GetEnvironment\<close>.\<close>

definition GetEnvironment :: "EnvironmentHandler \<Rightarrow> string \<Rightarrow> world \<Rightarrow> response \<times> world" where
  "GetEnvironment h envID w =
     (case getItem envID w of
        Inl err \<Rightarrow>
          (Response 500 (ErrorBody ''Failed to retrieve environment''),
           wlog (''Failed to get environment: '' @ err) w)
      | Inr None \<Rightarrow> (Response 404 (ErrorBody ''Environment not found''), w)
      | Inr (Some i) \<Rightarrow>
          (if \<not> decodes i then
             (Response 500 (ErrorBody ''Failed to process environment''),
              wlog ''Failed to unmarshal environment'' w)
           else if env_DeletedAt (attrs i) \<noteq> None then
             (Response 404 (ErrorBody ''Environment not found''), w)
           else (Response 200 (EnvBody (attrs i)), w)))"

text \<open>
  \<^verbatim>\<open>UpdateEnvironment\<close>. \<open>decoded\<close> is the patch after \<^verbatim>\<open>json.Decode\<close>; a field of the
  patch that is \<^verbatim>\<open>nil\<close> is \<open>None\<close>.
\<close>

definition apply_patch :: "EnvironmentPatch \<Rightarrow> Environment \<Rightarrow> Environment" where
  "apply_patch envPatch environment =
     (let e1 = (case patch_Description envPatch of
                  Some d \<Rightarrow> environment \<lparr> env_Description := d \<rparr> | None \<Rightarrow> environment);
          e2 = (case patch_ResourceLimits envPatch of
                  Some r \<Rightarrow> e1 \<lparr> env_ResourceLimits := r \<rparr> | None \<Rightarrow> e1);
          e3 = (case patch_NetworkPolicy envPatch of
                  Some p \<Rightarrow> e2 \<lparr> env_NetworkPolicy := Some p \<rparr> | None \<Rightarrow> e2);
          e4 = (case patch_ServiceMesh envPatch of
                  Some m \<Rightarrow> e3 \<lparr> env_ServiceMesh := Some m \<rparr> | None \<Rightarrow> e3);
          e5 = (case patch_Monitoring envPatch of
                  Some m \<Rightarrow> e4 \<lparr> env_Monitoring := Some m \<rparr> | None \<Rightarrow> e4);
          e6 = (case patch_GitOps envPatch of
                  Some g \<Rightarrow> e5 \<lparr> env_GitOps := Some g \<rparr> | None \<Rightarrow> e5);
          e7 = (case patch_Addons envPatch of
                  Some a \<Rightarrow> e6 \<lparr> env_Addons := Some a \<rparr> | None \<Rightarrow> e6);
          e8 = (case patch_Tags envPatch of
                  Some t \<Rightarrow> e7 \<lparr> env_Tags := Some t \<rparr> | None \<Rightarrow> e7)
      in e8)"

definition UpdateEnvironment ::
  "EnvironmentHandler \<Rightarrow> string \<Rightarrow> EnvironmentPatch option \<Rightarrow> nat \<Rightarrow> world \<Rightarrow> response \<times> world \<times> job option" where
  "UpdateEnvironment h envID decoded now w =
     (case decoded of
        None \<Rightarrow> (Response 400 (ErrorBody ''Invalid request payload''), w, None)
      | Some envPatch \<Rightarrow>
          (case validatePatch h envPatch of
             Some err \<Rightarrow> (Response 400 (ErrorBody (''Validation error: '' @ err)), w, None)
           | None \<Rightarrow>
               (case getItem envID w of
                  Inl err \<Rightarrow>
                    (Response 500 (ErrorBody ''Failed to retrieve environment''),
                     wlog (''Failed to get environment: '' @ err) w, None)
                | Inr None \<Rightarrow> (Response 404 (ErrorBody ''Environment not found''), w, None)
                | Inr (Some i) \<Rightarrow>
                    (if \<not> decodes i then
                       (Response 500 (ErrorBody ''Failed to process environment''),
                        wlog ''Failed to unmarshal environment'' w, None)
                     else if env_DeletedAt (attrs i) \<noteq> None then
                       (Response 404 (ErrorBody ''Environment not found''), w, None)
                     else
                       (let environment =
                              (apply_patch envPatch (attrs i))
                                \<lparr> env_UpdatedAt := now,
                                  env_Status := ''UPDATING'',
                                  env_StatusMessage := ''Environment update initiated'' \<rparr>
                        in case marshal_error w environment of
                             Some err \<Rightarrow>
                               (Response 500 (ErrorBody ''Failed to update environment''),
                                wlog (''Failed to marshal environment: '' @ err) w, None)
                           | None \<Rightarrow>
                               (case putItem environment w of
                                  (Some err, w1) \<Rightarrow>
                                    (Response 500 (ErrorBody ''Failed to save environment''),
                                     wlog (''Failed to save environment: '' @ err) w1, None)
                                | (None, w1) \<Rightarrow>
                                    (Response 200 (EnvBody environment), w1,
                                     Some (UpdateJob environment))))))))"

text \<open>\<^verbatim>\<open>DeleteEnvironment\<close>.\<close>

definition DeleteEnvironment ::
  "EnvironmentHandler \<Rightarrow> string \<Rightarrow> nat \<Rightarrow> world \<Rightarrow> response \<times> world \<times> job option" where
  "DeleteEnvironment h envID now w =
     (case getItem envID w of
        Inl err \<Rightarrow>
          (Response 500 (ErrorBody ''Failed to retrieve environment''),
           wlog (''Failed to get environment: '' @ err) w, None)
      | Inr None \<Rightarrow> (Response 404 (ErrorBody ''Environment not found''), w, None)
      | Inr (Some i) \<Rightarrow>
          (if \<not> decodes i then
             (Response 500 (ErrorBody ''Failed to process environment''),
              wlog ''Failed to unmarshal environment'' w, None)
           else if env_DeletedAt (attrs i) \<noteq> None then
             (Response 404 (ErrorBody ''Environment not found''), w, None)
           else
             (let environment =
                    (attrs i) \<lparr> env_Status := ''DELETING'',
                                env_StatusMessage := ''Environment deletion initiated'',
                                env_UpdatedAt := now,
                                env_DeletedAt := Some now \<rparr>
              in case marshal_error w environment of
                   Some err \<Rightarrow>
                     (Response 500 (ErrorBody ''Failed to delete environment''),
                      wlog (''Failed to marshal environment: '' @ err) w, None)
                 | None \<Rightarrow>
                     (case putItem environment w of
                        (Some err, w1) \<Rightarrow>
                          (Response 500 (ErrorBody ''Failed to delete environment''),
                           wlog (''Failed to save environment: '' @ err) w1, None)
                      | (None, w1) \<Rightarrow>
                          (Response 204 NoBody, w1, Some (DeleteJob environment))))))"

text \<open>\<^verbatim>\<open>getEnvironmentDetailedStatus\<close>: mock data around the status of the record; never fails.\<close>

definition getEnvironmentDetailedStatus :: "Environment \<Rightarrow> string + EnvironmentStatus" where
  "getEnvironmentDetailedStatus env =
     Inr \<lparr> st_Status = env_Status env,
           st_StatusMessage = env_StatusMessage env,
           st_ServiceMeshStatus = ''Healthy'',
           st_GitOpsStatus = ''Synced'',
           st_HealthChecks = [(''api-server'', ''Healthy''), (''etcd'', ''Healthy''),
                              (''scheduler'', ''Healthy''), (''controller'', ''Healthy''),
                              (''service-mesh'', ''Healthy'')] \<rparr>"

text \<open>\<^verbatim>\<open>GetEnvironmentStatus\<close>.\<close>

definition GetEnvironmentStatus :: "EnvironmentHandler \<Rightarrow> string \<Rightarrow> world \<Rightarrow> response \<times> world" where
  "GetEnvironmentStatus h envID w =
     (case getItem envID w of
        Inl err \<Rightarrow>
          (Response 500 (ErrorBody ''Failed to retrieve environment''),
           wlog (''Failed to get environment: '' @ err) w)
      | Inr None \<Rightarrow> (Response 404 (ErrorBody ''Environment not found''), w)
      | Inr (Some i) \<Rightarrow>
          (if \<not> decodes i then
             (Response 500 (ErrorBody ''Failed to process environment''),
              wlog ''Failed to unmarshal environment'' w)
           else if env_DeletedAt (attrs i) \<noteq> None then
             (Response 404 (ErrorBody ''Environment not found''), w)
           else (case getEnvironmentDetailedStatus (attrs i) of
                   Inl err \<Rightarrow>
                     (Response 500 (ErrorBody ''Failed to retrieve environment status''),
                      wlog (''Failed to get detailed status: '' @ err) w)
                 | Inr status \<Rightarrow> (Response 200 (StatusBody status), w))))"


text \<open>
  The variables handed to Terraform by \<^verbatim>\<open>provisionEnvironment\<close>: the map literal, one
  field for each key.
\<close>

record tfvars =
  var_cluster_name :: string
  var_region :: string
  var_environment :: string
  var_instance_types :: "string list"
  var_min_nodes :: int
  var_max_nodes :: int
  var_desired_nodes :: int
  var_kubernetes_version :: string
  var_vpc_cidr :: string
  var_resource_limits :: ResourceLimits
  var_network_policy :: "NetworkPolicy option"
  var_service_mesh :: "ServiceMeshConfig option"
  var_monitoring :: "MonitoringConfig option"
  var_gitops :: "GitOpsConfig option"
  var_addons :: "string list option"
  var_tags :: "(string \<times> string) list option"

text \<open>
  \<^verbatim>\<open>updateEnvironmentStatus\<close>: the expression is
  \<^verbatim>\<open>SET Status = :status, StatusMessage = :message, UpdatedAt = :updated\<close> and the call
  has no \<^verbatim>\<open>ExpressionAttributeNames\<close>. A failed write is logged and nothing else happens.
\<close>

definition updateEnvironmentStatus :: "string \<Rightarrow> string \<Rightarrow> string \<Rightarrow> nat \<Rightarrow> world \<Rightarrow> world" where
  "updateEnvironmentStatus envID status message now w =
     (case updateItem envID
             [(Raw ''Status'', AString status),
              (Raw ''StatusMessage'', AString message),
              (Raw ''UpdatedAt'', ATime now)] [] w of
        (Some err, w1) \<Rightarrow> wlog (''Failed to update environment status: '' @ err) w1
      | (None, w1) \<Rightarrow> w1)"

text \<open>\<^verbatim>\<open>configureKubernetesResources\<close>: the body is left out in the source and returns \<^verbatim>\<open>nil\<close>.\<close>

definition configureKubernetesResources :: "Environment \<Rightarrow> string \<Rightarrow> string option" where
  "configureKubernetesResources env kubeconfig = None"

text \<open>The type assertion \<^verbatim>\<open>outputs[key].(string)\<close>.\<close>

definition output_string :: "(string \<times> jvalue) list \<Rightarrow> string \<Rightarrow> string option" where
  "output_string outputs key = (case map_of outputs key of Some (JStr v) \<Rightarrow> Some v | _ \<Rightarrow> None)"

definition provision_vars :: "Environment \<Rightarrow> tfvars" where
  "provision_vars env =
     \<lparr> var_cluster_name = env_ClusterName env,
       var_region = ''us-west-2'',
       var_environment = ''dev'',
       var_instance_types = [''m5.large''],
       var_min_nodes = 2,
       var_max_nodes = 5,
       var_desired_nodes = 2,
       var_kubernetes_version = ''1.26'',
       var_vpc_cidr = ''10.0.0.0/16'',
       var_resource_limits = env_ResourceLimits env,
       var_network_policy = env_NetworkPolicy env,
       var_service_mesh = env_ServiceMesh env,
       var_monitoring = env_Monitoring env,
       var_gitops = env_GitOps env,
       var_addons = env_Addons env,
       var_tags = env_Tags env \<rparr>"

text \<open>
  \<^verbatim>\<open>provisionEnvironment\<close>, the goroutine started by \<^verbatim>\<open>CreateEnvironment\<close>. It returns
  nothing; its effect is the world it leaves. \<open>now\<close> is the clock reading used for the
  working directory and for the \<^verbatim>\<open>UpdatedAt\<close> stamps of this run. The expression of the
  last write is \<^verbatim>\<open>SET KubeConfig = :kubeconfig, ConsoleURL = :consoleurl, Status = :status,
  StatusMessage = :message, UpdatedAt = :updated\<close>, again with no
  \<^verbatim>\<open>ExpressionAttributeNames\<close>.
\<close>

definition provisionEnvironment :: "tfvars terraform \<Rightarrow> EnvironmentHandler \<Rightarrow> nat \<Rightarrow> Environment \<Rightarrow> world \<Rightarrow> world" where
  "provisionEnvironment tf h now env w =
     (let w0 = wlog (''Provisioning environment: '' @ env_Name env @ '' ('' @ env_ID env @ '')'') w;
          w1 = updateEnvironmentStatus (env_ID env) ''PROVISIONING'' ''Provisioning resources'' now w0;
          vars = provision_vars env
      in case Apply tf (terraformExecutor h) (int now) ''aws'' vars (hst w1) of
           (Some err, h2) \<Rightarrow>
             updateEnvironmentStatus (env_ID env) ''ERROR'' (''Failed to provision resources: '' @ err) now
               (wlog (''Failed to provision environment: '' @ err) (w1 \<lparr> hst := h2 \<rparr>))
         | (None, h2) \<Rightarrow>
             (let w2 = w1 \<lparr> hst := h2 \<rparr> in
              case GetOutputs tf (terraformExecutor h) ''aws'' h2 of
                Inl err \<Rightarrow>
                  updateEnvironmentStatus (env_ID env) ''ERROR''
                    (''Failed to get provisioning outputs: '' @ error_text err) now
                    (wlog (''Failed to get Terraform outputs: '' @ error_text err) w2)
              | Inr outputs \<Rightarrow>
                  (case output_string outputs ''kubeconfig'' of
                     None \<Rightarrow>
                       updateEnvironmentStatus (env_ID env) ''ERROR'' ''Failed to get kubeconfig'' now
                         (wlog ''Failed to get kubeconfig from outputs'' w2)
                   | Some kubeconfig \<Rightarrow>
                       (let consoleURL = (case output_string outputs ''console_url'' of
                                            Some u \<Rightarrow> u | None \<Rightarrow> [])
                        in case configureKubernetesResources env kubeconfig of
                             Some err \<Rightarrow>
                               updateEnvironmentStatus (env_ID env) ''ERROR''
                                 (''Failed to configure Kubernetes resources: '' @ err) now
                                 (wlog (''Failed to configure Kubernetes resources: '' @ err) w2)
                           | None \<Rightarrow>
                               (case updateItem (env_ID env)
                                       [(Raw ''KubeConfig'', AString kubeconfig),
                                        (Raw ''ConsoleURL'', AString consoleURL),
                                        (Raw ''Status'', AString ''ACTIVE''),
                                        (Raw ''StatusMessage'', AString ''Environment provisioned successfully''),
                                        (Raw ''UpdatedAt'', ATime now)] [] w2 of
                                  (Some err, w3) \<Rightarrow> wlog (''Failed to update environment: '' @ err) w3
                                | (None, w3) \<Rightarrow>
                                    wlog (''Environment provisioned successfully: '' @ env_Name env
                                          @ '' ('' @ env_ID env @ '')'') w3)))))"

text \<open>
  \<^verbatim>\<open>updateEnvironment\<close> and \<^verbatim>\<open>deleteEnvironment\<close>, the goroutines of the other two
  operations: their Terraform part is left out in the source, they only set the status.
\<close>

definition updateEnvironment :: "nat \<Rightarrow> Environment \<Rightarrow> world \<Rightarrow> world" where
  "updateEnvironment now env w =
     updateEnvironmentStatus (env_ID env) ''ACTIVE'' ''Environment updated successfully'' now
       (wlog (''Updating environment: '' @ env_Name env @ '' ('' @ env_ID env @ '')'') w)"

definition deleteEnvironment :: "nat \<Rightarrow> Environment \<Rightarrow> world \<Rightarrow> world" where
  "deleteEnvironment now env w =
     updateEnvironmentStatus (env_ID env) ''DELETED'' ''Environment deleted successfully'' now
       (wlog (''Deleting environment: '' @ env_Name env @ '' ('' @ env_ID env @ '')'') w)"

fun run_job :: "tfvars terraform \<Rightarrow> EnvironmentHandler \<Rightarrow> nat \<Rightarrow> job \<Rightarrow> world \<Rightarrow> world" where
  "run_job tf h now (ProvisionJob env) w = provisionEnvironment tf h now env w"
| "run_job tf h now (UpdateJob env) w = updateEnvironment now env w"
| "run_job tf h now (DeleteJob env) w = deleteEnvironment now env w"

text \<open>The record stored under a key, as a later read would see it.\<close>

definition stored :: "world \<Rightarrow> string \<Rightarrow> Environment option" where
  "stored w k = map_option attrs (stored_item w k)"

text \<open>How many times \<^verbatim>\<open>runCommand\<close> has started \<^verbatim>\<open>terraform apply\<close>, by the log.\<close>

definition apply_runs :: "Executor \<Rightarrow> host \<Rightarrow> nat" where
  "apply_runs e h =
     length (filter (prefix (''Running Terraform command: '' @ tfBinary e @ '' apply'')) (stdlog h))"

text \<open>
  Concrete inputs for the handler: a handler whose validator accepts everything, the
  request of the scenario "dev-env", a UUID, an empty table on a host where nothing
  fails, and a stand-in for Terraform that succeeds and lists the outputs \<open>outs\<close>.
\<close>

definition demo_handler :: EnvironmentHandler where
  "demo_handler = NewEnvironmentHandler (NewExecutor ''../provisioning'') (\<lambda>_. None) (\<lambda>_. None)"

definition demo_request :: EnvironmentRequest where
  "demo_request =
     \<lparr> req_Name = ''dev-env'', req_Description = [], req_TemplateID = ''small'', req_UserID = ''user-1'',
       req_ResourceLimits = \<lparr> rl_CPU = ''2'', rl_Memory = ''4Gi'', rl_Storage = ''20Gi'',
                               rl_MaxNodeCount = 3, rl_MaxNamespaces = 5, rl_MaxLoadBalancers = 1 \<rparr>,
       req_NetworkPolicy = None, req_ServiceMesh = None, req_Monitoring = None, req_GitOps = None,
       req_Addons = None, req_Tags = None \<rparr>"

definition demo_uuid :: string where
  "demo_uuid = ''3f2b8c1e-7a4d-4e9b-9c1a-5d6e7f8091a2''"

definition demo_env :: Environment where
  "demo_env = new_environment demo_request demo_uuid 1700000000"

definition empty_world :: world where
  "empty_world = \<lparr> hst = fresh_host, items = [], db_error = (\<lambda>_. None), marshal_error = (\<lambda>_. None) \<rparr>"

definition world_created :: world where
  "world_created = fst (snd (CreateEnvironment demo_handler (Some demo_request) demo_uuid 1700000000 empty_world))"

definition world_deleted :: world where
  "world_deleted = fst (snd (DeleteEnvironment demo_handler demo_uuid 1700000100 world_created))"

definition demo_patch :: EnvironmentPatch where
  "demo_patch =
     \<lparr> patch_Description = Some ''development cluster'', patch_ResourceLimits = None,
       patch_NetworkPolicy = None, patch_ServiceMesh = None, patch_Monitoring = None,
       patch_GitOps = None, patch_Addons = None, patch_Tags = Some [(''team'', ''alpha'')] \<rparr>"

definition stub_terraform :: "(string \<times> jvalue) list \<Rightarrow> tfvars terraform" where
  "stub_terraform outs =
     \<lparr> marshalVars = (\<lambda>v. Inr (var_cluster_name v)),
       tf_run = (\<lambda>args fs. (Inr [], fs)),
       parseOutputs = (\<lambda>out. Inr outs) \<rparr>"

definition garbled_terraform :: "tfvars terraform" where
  "garbled_terraform =
     \<lparr> marshalVars = (\<lambda>v. Inr (var_cluster_name v)),
       tf_run = (\<lambda>args fs. (Inr [], fs)),
       parseOutputs = (\<lambda>out. Inl ''unexpected end of JSON input'') \<rparr>"

definition failing_terraform :: "tfvars terraform" where
  "failing_terraform =
     \<lparr> marshalVars = (\<lambda>v. Inr (var_cluster_name v)),
       tf_run = (\<lambda>args fs. (Inl (''exit status 1'', ''Error: no credentials''), fs)),
       parseOutputs = (\<lambda>out. Inl ''unexpected end of JSON input'') \<rparr>"

text \<open>
  The two runs of the provisioning workflow that the claims are tried on, both started
  by the creation above, in the same second: one where Terraform succeeds and lists a
  kubeconfig and a console URL, and one where every Terraform command fails.
  \<open>status_refusal\<close> is the message with which the store refuses an update expression that
  writes \<^verbatim>\<open>Status\<close> as it is.
\<close>

definition good_outputs :: "(string \<times> jvalue) list" where
  "good_outputs = [(''kubeconfig'', JStr ''apiVersion: v1''), (''console_url'', JStr ''https://console.example'')]"

definition world_provisioned :: world where
  "world_provisioned =
     run_job (stub_terraform good_outputs) demo_handler 1700000000 (ProvisionJob demo_env) world_created"

definition world_failed :: world where
  "world_failed = run_job failing_terraform demo_handler 1700000000 (ProvisionJob demo_env) world_created"

definition status_refusal :: string where
  "status_refusal =
     ''ValidationException: Invalid UpdateExpression: Attribute name is a reserved keyword; reserved keyword: Status''"


section \<open>The tenant controller (multi-tenancy/controller/main.go)\<close>

record TenantResourceLimits =
  tl_CPU :: string
  tl_Memory :: string
  tl_Storage :: string
  tl_Pods :: int
  tl_Services :: int
  tl_Endpoints :: int

record TenantNetworkPolicy =
  tnp_AllowIngressFromCIDR :: "string list"
  tnp_AllowEgressToCIDR :: "string list"
  tnp_DefaultDenyIngress :: bool
  tnp_DefaultDenyEgress :: bool
  tnp_AllowIntraNamespace :: bool
  tnp_AllowCrossNamespace :: bool
  tnp_AllowExternalServices :: "string list"

record Tenant =
  tenant_ID :: string
  tenant_Name :: string
  tenant_OwnerID :: string
  tenant_Namespaces :: "string list"
  tenant_ResourceLimits :: TenantResourceLimits
  tenant_NetworkPolicy :: TenantNetworkPolicy
  tenant_ServiceMeshEnable :: bool

text \<open>
  The cluster behind \<^verbatim>\<open>kubeClient\<close>: objects under kind, namespace and name (a
  namespace object has the empty namespace). An object carries its labels and what the
  controller puts into its spec. A quantity is whatever \<^verbatim>\<open>resource.MustParse\<close> makes
  of a string; the parser is a parameter of the controller.
\<close>

datatype kind = NamespaceKind | ResourceQuotaKind | NetworkPolicyKind | RoleBindingKind

type_synonym objkey = "kind \<times> string \<times> string"

datatype resource_name =
    ResourceCPU | ResourceMemory | ResourceEphemeralStorage | ResourcePods | ResourceServices
  | ResourceRequestsCPU | ResourceRequestsMemory | ResourceLimitsCPU | ResourceLimitsMemory

datatype policy_type = PolicyTypeIngress | PolicyTypeEgress

datatype peer = PodSelectorPeer | IPBlockPeer string

datatype 'q kspec =
    NamespaceSpec
  | QuotaSpec "(resource_name \<times> 'q) list"
  | NetworkPolicySpec "policy_type list" "peer list list"
  | RoleBindingSpec "(string \<times> string \<times> string) list" "string \<times> string \<times> string"

text \<open>
  \<open>QuotaSpec\<close> holds \<^verbatim>\<open>Spec.Hard\<close>; \<open>NetworkPolicySpec\<close> the policy types and, for each
  ingress rule, its \<^verbatim>\<open>From\<close> peers (the pod selector of the policy is always empty);
  \<open>RoleBindingSpec\<close> the subjects and the role reference, each as kind, API group, name.
\<close>

record 'q kobject =
  labels :: "string \<Rightarrow> string option"
  spec :: "'q kspec"

datatype verb = Get | Create | Update

datatype api_error = NotFound | AlreadyExists | Failure string

datatype logline = Info string | Error string

record 'q cluster =
  objects :: "objkey \<Rightarrow> 'q kobject option"
  api_fault :: "verb \<times> objkey \<Rightarrow> string option"
  calls :: "(verb \<times> objkey) list"
  klog :: "logline list"

text \<open>
  \<open>api_fault\<close> says which calls the API server fails for reasons of its own, \<open>calls\<close>
  records every call made, \<open>klog\<close> the lines written with \<^verbatim>\<open>klog\<close>.
\<close>

fun api_error_text :: "api_error \<Rightarrow> string" where
  "api_error_text NotFound = ''not found''"
| "api_error_text AlreadyExists = ''already exists''"
| "api_error_text (Failure m) = m"

definition kube_get :: "objkey \<Rightarrow> 'q cluster \<Rightarrow> (api_error + 'q kobject) \<times> 'q cluster" where
  "kube_get k cl =
     (let cl1 = cl \<lparr> calls := calls cl @ [(Get, k)] \<rparr> in
      case api_fault cl (Get, k) of
        Some m \<Rightarrow> (Inl (Failure m), cl1)
      | None \<Rightarrow> (case objects cl k of
                   None \<Rightarrow> (Inl NotFound, cl1)
                 | Some ob \<Rightarrow> (Inr ob, cl1)))"

definition kube_create :: "objkey \<Rightarrow> 'q kobject \<Rightarrow> 'q cluster \<Rightarrow> api_error option \<times> 'q cluster" where
  "kube_create k ob cl =
     (let cl1 = cl \<lparr> calls := calls cl @ [(Create, k)] \<rparr> in
      case api_fault cl (Create, k) of
        Some m \<Rightarrow> (Some (Failure m), cl1)
      | None \<Rightarrow> (case objects cl k of
                   Some _ \<Rightarrow> (Some AlreadyExists, cl1)
                 | None \<Rightarrow> (None, cl1 \<lparr> objects := (objects cl)(k \<mapsto> ob) \<rparr>)))"

definition kube_update :: "objkey \<Rightarrow> 'q kobject \<Rightarrow> 'q cluster \<Rightarrow> api_error option \<times> 'q cluster" where
  "kube_update k ob cl =
     (let cl1 = cl \<lparr> calls := calls cl @ [(Update, k)] \<rparr> in
      case api_fault cl (Update, k) of
        Some m \<Rightarrow> (Some (Failure m), cl1)
      | None \<Rightarrow> (case objects cl k of
                   None \<Rightarrow> (Some NotFound, cl1)
                 | Some _ \<Rightarrow> (None, cl1 \<lparr> objects := (objects cl)(k \<mapsto> ob) \<rparr>)))"

definition klogf :: "logline \<Rightarrow> 'q cluster \<Rightarrow> 'q cluster" where
  "klogf line cl = cl \<lparr> klog := klog cl @ [line] \<rparr>"

text \<open>
  A function of the controller returns an error or panics (only \<^verbatim>\<open>resource.MustParse\<close>
  does). \<^verbatim>\<open>fmt.Errorf("...: %w", err)\<close> puts a prefix before an error; a panic passes
  through.
\<close>

datatype failure = Err string | Panic string

fun wrap :: "string \<Rightarrow> failure \<Rightarrow> failure" where
  "wrap p (Err e) = Err (p @ e)"
| "wrap p (Panic m) = Panic m"

record 'q TenantController =
  clusterName :: string
  mustParse :: "string \<Rightarrow> 'q option"
  getTenants :: "string + Tenant list"

text \<open>
  \<open>mustParse\<close> is \<^verbatim>\<open>resource.MustParse\<close> (\<open>None\<close>: it panics); \<open>getTenants\<close> is the result
  of the method of that name, whose body the source replaces by mock data
  (\<open>mock_tenants\<close> below).
\<close>

definition mock_tenants :: "Tenant list" where
  "mock_tenants =
     [\<lparr> tenant_ID = ''tenant-1'',
        tenant_Name = ''team-alpha'',
        tenant_OwnerID = ''user-1'',
        tenant_Namespaces = [''team-alpha-dev'', ''team-alpha-staging'', ''team-alpha-prod''],
        tenant_ResourceLimits =
          \<lparr> tl_CPU = ''8'', tl_Memory = ''16Gi'', tl_Storage = ''100Gi'',
            tl_Pods = 20, tl_Services = 10, tl_Endpoints = 100 \<rparr>,
        tenant_NetworkPolicy =
          \<lparr> tnp_AllowIngressFromCIDR = [''10.0.0.0/8''],
            tnp_AllowEgressToCIDR = [''0.0.0.0/0''],
            tnp_DefaultDenyIngress = True,
            tnp_DefaultDenyEgress = False,
            tnp_AllowIntraNamespace = True,
            tnp_AllowCrossNamespace = False,
            tnp_AllowExternalServices = [] \<rparr>,
        tenant_ServiceMeshEnable = True \<rparr>]"

text \<open>\<^verbatim>\<open>ensureNamespace\<close>.\<close>

definition ensureNamespace :: "'q TenantController \<Rightarrow> string \<Rightarrow> Tenant \<Rightarrow> 'q cluster \<Rightarrow> failure option \<times> 'q cluster" where
  "ensureNamespace c name tenant cl =
     (case kube_get (NamespaceKind, [], name) cl of
        (Inr _, cl1) \<Rightarrow> (None, cl1)
      | (Inl err, cl1) \<Rightarrow>
          (if err \<noteq> NotFound then
             (Some (Err (''failed to check namespace '' @ name @ '': '' @ api_error_text err)), cl1)
           else
             (let namespace =
                    \<lparr> labels = [''tenant'' \<mapsto> tenant_Name tenant,
                                 ''tenant-id'' \<mapsto> tenant_ID tenant,
                                 ''owner-id'' \<mapsto> tenant_OwnerID tenant,
                                 ''managed-by'' \<mapsto> ''tenant-controller'',
                                 ''cluster-name'' \<mapsto> clusterName c],
                      spec = NamespaceSpec \<rparr>
              in case kube_create (NamespaceKind, [], name) namespace cl1 of
                   (Some e, cl2) \<Rightarrow>
                     (Some (Err (''failed to create namespace '' @ name @ '': '' @ api_error_text e)), cl2)
                 | (None, cl2) \<Rightarrow>
                     (None, klogf (Info (''Created namespace '' @ name @ '' for tenant '' @ tenant_Name tenant)) cl2))))"

text \<open>
  The hard limits of the quota, in the order of the map literal; \<open>Inl s\<close> when
  \<^verbatim>\<open>resource.MustParse\<close> panics on the string \<open>s\<close>.
\<close>

definition quota_hard :: "'q TenantController \<Rightarrow> TenantResourceLimits \<Rightarrow> string + (resource_name \<times> 'q) list" where
  "quota_hard c limits =
     (case mustParse c (tl_CPU limits) of
        None \<Rightarrow> Inl (tl_CPU limits)
      | Some cpu \<Rightarrow>
     (case mustParse c (tl_Memory limits) of
        None \<Rightarrow> Inl (tl_Memory limits)
      | Some memory \<Rightarrow>
     (case mustParse c (tl_Storage limits) of
        None \<Rightarrow> Inl (tl_Storage limits)
      | Some storage \<Rightarrow>
     (case mustParse c (show_int (tl_Pods limits)) of
        None \<Rightarrow> Inl (show_int (tl_Pods limits))
      | Some pods \<Rightarrow>
     (case mustParse c (show_int (tl_Services limits)) of
        None \<Rightarrow> Inl (show_int (tl_Services limits))
      | Some services \<Rightarrow>
          Inr [(ResourceCPU, cpu),
               (ResourceMemory, memory),
               (ResourceEphemeralStorage, storage),
               (ResourcePods, pods),
               (ResourceServices, services),
               (ResourceRequestsCPU, cpu),
               (ResourceRequestsMemory, memory),
               (ResourceLimitsCPU, cpu),
               (ResourceLimitsMemory, memory)])))))"

text \<open>\<^verbatim>\<open>ensureResourceQuota\<close>: the quota is built first, then created or updated.\<close>

definition ensureResourceQuota :: "'q TenantController \<Rightarrow> string \<Rightarrow> TenantResourceLimits \<Rightarrow> 'q cluster \<Rightarrow> failure option \<times> 'q cluster" where
  "ensureResourceQuota c namespace limits cl =
     (case quota_hard c limits of
        Inl s \<Rightarrow> (Some (Panic (''cannot parse '' @ s)), cl)
      | Inr hard \<Rightarrow>
          (let quota = \<lparr> labels = [''managed-by'' \<mapsto> ''tenant-controller''], spec = QuotaSpec hard \<rparr> in
           case kube_get (ResourceQuotaKind, namespace, ''tenant-quota'') cl of
             (Inl err, cl1) \<Rightarrow>
               (if err = NotFound then
                  (case kube_create (ResourceQuotaKind, namespace, ''tenant-quota'') quota cl1 of
                     (Some e, cl2) \<Rightarrow>
                       (Some (Err (''failed to create resource quota: '' @ api_error_text e)), cl2)
                   | (None, cl2) \<Rightarrow>
                       (None, klogf (Info (''Created resource quota for namespace '' @ namespace)) cl2))
                else (Some (Err (''failed to check resource quota: '' @ api_error_text err)), cl1))
           | (Inr _, cl1) \<Rightarrow>
               (case kube_update (ResourceQuotaKind, namespace, ''tenant-quota'') quota cl1 of
                  (Some e, cl2) \<Rightarrow>
                    (Some (Err (''failed to update resource quota: '' @ api_error_text e)), cl2)
                | (None, cl2) \<Rightarrow>
                    (None, klogf (Info (''Updated resource quota for namespace '' @ namespace)) cl2))))"

text \<open>
  The block that \<^verbatim>\<open>ensureNetworkPolicies\<close> and \<^verbatim>\<open>ensureRBAC\<close> repeat for each object:
  get it; when it is not found create it and log \<open>created\<close>; an object that exists is
  left as it is. \<open>what\<close> names the object in the two error messages.
\<close>

definition ensureObject :: "objkey \<Rightarrow> 'q kobject \<Rightarrow> string \<Rightarrow> string \<Rightarrow> 'q cluster \<Rightarrow> failure option \<times> 'q cluster" where
  "ensureObject key ob what created cl =
     (case kube_get key cl of
        (Inl err, cl1) \<Rightarrow>
          (if err = NotFound then
             (case kube_create key ob cl1 of
                (Some e, cl2) \<Rightarrow>
                  (Some (Err (''failed to create '' @ what @ '': '' @ api_error_text e)), cl2)
              | (None, cl2) \<Rightarrow> (None, klogf (Info created) cl2))
           else (Some (Err (''failed to check '' @ what @ '': '' @ api_error_text err)), cl1))
      | (Inr _, cl1) \<Rightarrow> (None, cl1))"

text \<open>The loop over \<^verbatim>\<open>AllowIngressFromCIDR\<close>, from index \<open>i\<close> on.\<close>

fun ensureCIDRPolicies :: "string \<Rightarrow> nat \<Rightarrow> string list \<Rightarrow> 'q cluster \<Rightarrow> failure option \<times> 'q cluster" where
  "ensureCIDRPolicies namespace i [] cl = (None, cl)"
| "ensureCIDRPolicies namespace i (cidr # rest) cl =
     (case ensureObject (NetworkPolicyKind, namespace, ''allow-ingress-cidr-'' @ show_nat i)
             \<lparr> labels = [''managed-by'' \<mapsto> ''tenant-controller'', ''cidr'' \<mapsto> cidr],
               spec = NetworkPolicySpec [] [[IPBlockPeer cidr]] \<rparr>
             ''allow ingress CIDR policy''
             (''Created allow ingress CIDR policy for namespace '' @ namespace @ '': '' @ cidr) cl of
        (Some f, cl1) \<Rightarrow> (Some f, cl1)
      | (None, cl1) \<Rightarrow> ensureCIDRPolicies namespace (Suc i) rest cl1)"

text \<open>\<^verbatim>\<open>ensureNetworkPolicies\<close>.\<close>

definition ensureNetworkPolicies :: "string \<Rightarrow> TenantNetworkPolicy \<Rightarrow> 'q cluster \<Rightarrow> failure option \<times> 'q cluster" where
  "ensureNetworkPolicies namespace policy cl =
     (case (if tnp_DefaultDenyIngress policy then
              ensureObject (NetworkPolicyKind, namespace, ''default-deny-ingress'')
                \<lparr> labels = [''managed-by'' \<mapsto> ''tenant-controller''],
                  spec = NetworkPolicySpec [PolicyTypeIngress] [] \<rparr>
                ''default deny ingress policy''
                (''Created default deny ingress policy for namespace '' @ namespace) cl
            else (None, cl)) of
        (Some f, cl1) \<Rightarrow> (Some f, cl1)
      | (None, cl1) \<Rightarrow>
     (case (if tnp_DefaultDenyEgress policy then
              ensureObject (NetworkPolicyKind, namespace, ''default-deny-egress'')
                \<lparr> labels = [''managed-by'' \<mapsto> ''tenant-controller''],
                  spec = NetworkPolicySpec [PolicyTypeEgress] [] \<rparr>
                ''default deny egress policy''
                (''Created default deny egress policy for namespace '' @ namespace) cl1
            else (None, cl1)) of
        (Some f, cl2) \<Rightarrow> (Some f, cl2)
      | (None, cl2) \<Rightarrow>
     (case (if tnp_AllowIntraNamespace policy then
              ensureObject (NetworkPolicyKind, namespace, ''allow-intra-namespace'')
                \<lparr> labels = [''managed-by'' \<mapsto> ''tenant-controller''],
                  spec = NetworkPolicySpec [] [[PodSelectorPeer]] \<rparr>
                ''allow intra-namespace policy''
                (''Created allow intra-namespace policy for namespace '' @ namespace) cl2
            else (None, cl2)) of
        (Some f, cl3) \<Rightarrow> (Some f, cl3)
      | (None, cl3) \<Rightarrow>
          ensureCIDRPolicies namespace 0 (tnp_AllowIngressFromCIDR policy) cl3)))"

text \<open>\<^verbatim>\<open>ensureRBAC\<close>.\<close>

definition ensureRBAC :: "string \<Rightarrow> string \<Rightarrow> 'q cluster \<Rightarrow> failure option \<times> 'q cluster" where
  "ensureRBAC namespace ownerID cl =
     ensureObject (RoleBindingKind, namespace, ''tenant-owner'')
       \<lparr> labels = [''managed-by'' \<mapsto> ''tenant-controller''],
         spec = RoleBindingSpec [(''User'', ''rbac.authorization.k8s.io'', ownerID)]
                  (''ClusterRole'', ''rbac.authorization.k8s.io'', ''admin'') \<rparr>
       ''tenant owner role binding''
       (''Created tenant owner role binding for namespace '' @ namespace @ '': '' @ ownerID) cl"

text \<open>\<^verbatim>\<open>ensureServiceMesh\<close>: reads the namespace, sets the label, writes it back.\<close>

definition ensureServiceMesh :: "string \<Rightarrow> 'q cluster \<Rightarrow> failure option \<times> 'q cluster" where
  "ensureServiceMesh namespace cl =
     (case kube_get (NamespaceKind, [], namespace) cl of
        (Inl err, cl1) \<Rightarrow>
          (Some (Err (''failed to get namespace '' @ namespace @ '': '' @ api_error_text err)), cl1)
      | (Inr ns, cl1) \<Rightarrow>
          (case kube_update (NamespaceKind, [], namespace)
                  (ns \<lparr> labels := (labels ns)(''istio-injection'' \<mapsto> ''enabled'') \<rparr>) cl1 of
             (Some e, cl2) \<Rightarrow>
               (Some (Err (''failed to update namespace for service mesh: '' @ api_error_text e)), cl2)
           | (None, cl2) \<Rightarrow>
               (None, klogf (Info (''Enabled service mesh for namespace '' @ namespace)) cl2)))"

text \<open>The body of the loop of \<^verbatim>\<open>processTenant\<close>, for one namespace.\<close>

definition processNamespace :: "'q TenantController \<Rightarrow> Tenant \<Rightarrow> string \<Rightarrow> 'q cluster \<Rightarrow> failure option \<times> 'q cluster" where
  "processNamespace c tenant namespace cl =
     (case ensureNamespace c namespace tenant cl of
        (Some f, cl1) \<Rightarrow> (Some (wrap (''failed to ensure namespace '' @ namespace @ '': '') f), cl1)
      | (None, cl1) \<Rightarrow>
     (case ensureResourceQuota c namespace (tenant_ResourceLimits tenant) cl1 of
        (Some f, cl2) \<Rightarrow>
          (Some (wrap (''failed to ensure resource quota for namespace '' @ namespace @ '': '') f), cl2)
      | (None, cl2) \<Rightarrow>
     (case ensureNetworkPolicies namespace (tenant_NetworkPolicy tenant) cl2 of
        (Some f, cl3) \<Rightarrow>
          (Some (wrap (''failed to ensure network policies for namespace '' @ namespace @ '': '') f), cl3)
      | (None, cl3) \<Rightarrow>
     (case ensureRBAC namespace (tenant_OwnerID tenant) cl3 of
        (Some f, cl4) \<Rightarrow>
          (Some (wrap (''failed to ensure RBAC for namespace '' @ namespace @ '': '') f), cl4)
      | (None, cl4) \<Rightarrow>
          (if tenant_ServiceMeshEnable tenant then
             (case ensureServiceMesh namespace cl4 of
                (Some f, cl5) \<Rightarrow>
                  (Some (wrap (''failed to ensure service mesh for namespace '' @ namespace @ '': '') f), cl5)
              | (None, cl5) \<Rightarrow> (None, cl5))
           else (None, cl4))))))"

fun processNamespaces :: "'q TenantController \<Rightarrow> Tenant \<Rightarrow> string list \<Rightarrow> 'q cluster \<Rightarrow> failure option \<times> 'q cluster" where
  "processNamespaces c tenant [] cl = (None, cl)"
| "processNamespaces c tenant (namespace # rest) cl =
     (case processNamespace c tenant namespace cl of
        (Some f, cl1) \<Rightarrow> (Some f, cl1)
      | (None, cl1) \<Rightarrow> processNamespaces c tenant rest cl1)"

text \<open>\<^verbatim>\<open>processTenant\<close>: the first error ends the loop and is returned.\<close>

definition processTenant :: "'q TenantController \<Rightarrow> Tenant \<Rightarrow> 'q cluster \<Rightarrow> failure option \<times> 'q cluster" where
  "processTenant c tenant cl = processNamespaces c tenant (tenant_Namespaces tenant) cl"

text \<open>
  The loop of \<^verbatim>\<open>reconcile\<close> over the tenants: an error is logged and the loop goes on;
  a panic ends the tick (the result is then its message).
\<close>

fun reconcileTenants :: "'q TenantController \<Rightarrow> Tenant list \<Rightarrow> 'q cluster \<Rightarrow> string option \<times> 'q cluster" where
  "reconcileTenants c [] cl = (None, cl)"
| "reconcileTenants c (tenant # rest) cl =
     (case processTenant c tenant cl of
        (Some (Panic m), cl1) \<Rightarrow> (Some m, cl1)
      | (Some (Err e), cl1) \<Rightarrow>
          reconcileTenants c rest
            (klogf (Error (''Failed to process tenant '' @ tenant_ID tenant @ '': '' @ e)) cl1)
      | (None, cl1) \<Rightarrow> reconcileTenants c rest cl1)"


text \<open>
  What one tenant contributes to a tick: \<^verbatim>\<open>processTenant\<close>, and the error line when it
  fails.
\<close>

definition tenant_step :: "'q TenantController \<Rightarrow> 'q cluster \<Rightarrow> Tenant \<Rightarrow> 'q cluster" where
  "tenant_step c cl tenant =
     (case processTenant c tenant cl of
        (Some (Err e), cl1) \<Rightarrow> klogf (Error (''Failed to process tenant '' @ tenant_ID tenant @ '': '' @ e)) cl1
      | (_, cl1) \<Rightarrow> cl1)"

text \<open>The calls made between two states, and the \<^verbatim>\<open>Create\<close> calls among all calls.\<close>

definition new_calls :: "'q cluster \<Rightarrow> 'q cluster \<Rightarrow> (verb \<times> objkey) list" where
  "new_calls cl cl' = drop (length (calls cl)) (calls cl')"

definition creates :: "'q cluster \<Rightarrow> (verb \<times> objkey) list" where
  "creates cl = filter (\<lambda>call. fst call = Create) (calls cl)"

text \<open>
  How the controller moves the cluster: the faults stay, calls are only added, no object
  disappears, and an object outside the keys \<open>T\<close> keeps its content.
\<close>

definition evolves :: "objkey set \<Rightarrow> 'q cluster \<Rightarrow> 'q cluster \<Rightarrow> bool" where
  "evolves T cl cl' =
     (api_fault cl' = api_fault cl
      \<and> prefix (calls cl) (calls cl')
      \<and> (\<forall>k. objects cl k \<noteq> None \<longrightarrow> objects cl' k \<noteq> None)
      \<and> (\<forall>k ob. k \<notin> T \<longrightarrow> objects cl k = Some ob \<longrightarrow> objects cl' k = Some ob))"

text \<open>The keys that the pass over a namespace may overwrite: its quota and itself.\<close>

definition written_keys :: "string \<Rightarrow> objkey set" where
  "written_keys namespace = {(ResourceQuotaKind, namespace, ''tenant-quota''), (NamespaceKind, [], namespace)}"

text \<open>
  A pass over a tenant overwrites nothing but quotas and namespaces: the keys of the
  kinds \<^verbatim>\<open>ResourceQuota\<close> and \<^verbatim>\<open>Namespace\<close>.
\<close>

definition rewritable :: "objkey set" where
  "rewritable = {k. fst k = ResourceQuotaKind \<or> fst k = NamespaceKind}"

text \<open>
  A namespace of a tenant is settled when every object that the pass ensures for it is
  there: the namespace (with the injection label when the mesh is enabled), the quota
  with the hard limits of the tenant, the policies that the tenant's network policy
  asks for, and the owner's role binding.
\<close>

definition settled :: "'q TenantController \<Rightarrow> Tenant \<Rightarrow> string \<Rightarrow> 'q cluster \<Rightarrow> bool" where
  "settled c tenant namespace cl =
     ((\<exists>ns. objects cl (NamespaceKind, [], namespace) = Some ns
            \<and> (tenant_ServiceMeshEnable tenant \<longrightarrow> labels ns ''istio-injection'' = Some ''enabled''))
      \<and> (\<exists>hard. quota_hard c (tenant_ResourceLimits tenant) = Inr hard
            \<and> objects cl (ResourceQuotaKind, namespace, ''tenant-quota'')
                = Some \<lparr> labels = [''managed-by'' \<mapsto> ''tenant-controller''], spec = QuotaSpec hard \<rparr>)
      \<and> (tnp_DefaultDenyIngress (tenant_NetworkPolicy tenant) \<longrightarrow>
            objects cl (NetworkPolicyKind, namespace, ''default-deny-ingress'') \<noteq> None)
      \<and> (tnp_DefaultDenyEgress (tenant_NetworkPolicy tenant) \<longrightarrow>
            objects cl (NetworkPolicyKind, namespace, ''default-deny-egress'') \<noteq> None)
      \<and> (tnp_AllowIntraNamespace (tenant_NetworkPolicy tenant) \<longrightarrow>
            objects cl (NetworkPolicyKind, namespace, ''allow-intra-namespace'') \<noteq> None)
      \<and> (\<forall>i < length (tnp_AllowIngressFromCIDR (tenant_NetworkPolicy tenant)).
            objects cl (NetworkPolicyKind, namespace, ''allow-ingress-cidr-'' @ show_nat i) \<noteq> None)
      \<and> objects cl (RoleBindingKind, namespace, ''tenant-owner'') \<noteq> None)"

text \<open>
  Concrete inputs for the controller: a controller whose quantities are the strings
  themselves, a cluster with no object where no call fails, the first mock tenant
  reduced to one namespace, the same tenant after its CIDR entry has been removed, and
  a cluster whose API fails the read of the first mock namespace.
\<close>

definition demo_controller :: "string TenantController" where
  "demo_controller = \<lparr> clusterName = ''shared'', mustParse = Some, getTenants = Inr mock_tenants \<rparr>"

definition empty_cluster :: "string cluster" where
  "empty_cluster = \<lparr> objects = (\<lambda>_. None), api_fault = (\<lambda>_. None), calls = [], klog = [] \<rparr>"

definition small_tenant :: Tenant where
  "small_tenant = (hd mock_tenants) \<lparr> tenant_Namespaces := [''team-alpha-dev''] \<rparr>"


definition faulty_cluster :: "string cluster" where
  "faulty_cluster =
     empty_cluster \<lparr> api_fault := (\<lambda>call. if call = (Get, (NamespaceKind, [], ''team-alpha-dev''))
                                            then Some ''connection refused'' else None) \<rparr>"

definition first_pass :: "string cluster" where
  "first_pass = snd (processTenant demo_controller small_tenant empty_cluster)"

text \<open>The limits of a tenant parse when \<^verbatim>\<open>resource.MustParse\<close> accepts each of them.\<close>

definition parses :: "'q TenantController \<Rightarrow> TenantResourceLimits \<Rightarrow> bool" where
  "parses c limits = (case quota_hard c limits of Inr _ \<Rightarrow> True | Inl _ \<Rightarrow> False)"

definition second_tenant :: Tenant where
  "second_tenant =
     small_tenant \<lparr> tenant_ID := ''tenant-2'', tenant_Name := ''team-beta'',
                    tenant_Namespaces := [''team-beta-dev''] \<rparr>"

text \<open>A step is quiet when it changes no object and makes no \<^verbatim>\<open>Create\<close> call.\<close>

definition quiet :: "'q cluster \<Rightarrow> 'q cluster \<Rightarrow> bool" where
  "quiet cl cl' = (objects cl' = objects cl \<and> creates cl' = creates cl)"

section \<open>Facts about decimal numbers and directory names\<close>

lemma of_char_digit_char: "d < 10 \<Longrightarrow> (of_char (digit_char d) :: nat) = 48 + d"
  by (simp add: digit_char_def)

lemma is_digit_digit_char: "d < 10 \<Longrightarrow> is_digit (digit_char d)"
  by (simp add: is_digit_def of_char_digit_char)

lemma digit_val_digit_char: "d < 10 \<Longrightarrow> digit_val (digit_char d) = d"
  by (simp add: digit_val_def of_char_digit_char)

lemma show_nat_digits: "\<forall>c \<in> set (show_nat n). is_digit c"
proof (induction n rule: show_nat.induct)
  case (1 n)
  show ?case
  proof (cases "n < 10")
    case True
    then show ?thesis by (simp add: show_nat.simps [of n] is_digit_digit_char)
  next
    case False
    with 1 show ?thesis by (simp add: show_nat.simps [of n] is_digit_digit_char)
  qed
qed

lemma show_nat_nonempty: "show_nat n \<noteq> []"
  by (simp add: show_nat.simps [of n])

lemma digits_value_snoc: "digits_value (ds @ [c]) = 10 * digits_value ds + digit_val c"
  by (simp add: digits_value_def)

lemma digits_value_show_nat: "digits_value (show_nat n) = n"
proof (induction n rule: show_nat.induct)
  case (1 n)
  show ?case
  proof (cases "n < 10")
    case True
    then show ?thesis by (simp add: show_nat.simps [of n] digits_value_def digit_val_digit_char)
  next
    case False
    with 1 show ?thesis
      by (simp add: show_nat.simps [of n] digits_value_snoc digit_val_digit_char)
  qed
qed

lemma is_digit_plain:
  "is_digit c \<Longrightarrow> \<not> is_space c \<and> (of_char c :: nat) \<noteq> 10 \<and> c \<noteq> CHR ''-'' \<and> c \<noteq> CHR ''+''"
  by (auto simp: is_digit_def is_space_def)

text \<open>A blank outside ASCII starts with a byte above the digits.\<close>

lemma blank_width_digit: "is_digit c \<Longrightarrow> blank_width (c # cs) = 0"
  by (simp add: blank_width_def blank_runes_def is_digit_def)

lemma skip_space_digit: "is_digit c \<Longrightarrow> skip_space (c # cs) = Some (c # cs)"
  using is_digit_plain [of c] by (simp add: skip_space_def blank_width_digit)

text \<open>Reading back what \<^verbatim>\<open>%d\<close> printed gives the number, within the \<^verbatim>\<open>int64\<close> range.\<close>

lemma StringToInt64_show_nat:
  assumes "int n < 2 ^ 63"
  shows "StringToInt64 (show_nat n) = Some (int n)"
proof -
  obtain c cs where s: "show_nat n = c # cs"
    using show_nat_nonempty [of n] by (cases "show_nat n") auto
  have dig: "\<forall>x \<in> set (c # cs). is_digit x"
    using show_nat_digits [of n] s by simp
  then have c: "is_digit c" by simp
  have sk: "skip_space (c # cs) = Some (c # cs)"
    using c by (rule skip_space_digit)
  have tw: "takeWhile is_digit (c # cs) = c # cs"
    using dig by (simp add: takeWhile_eq_all_conv)
  have dv: "digits_value (c # cs) = n"
    using digits_value_show_nat [of n] s by simp
  show ?thesis
    unfolding StringToInt64_def s sk
    using is_digit_plain [OF c] assms tw dv
    by (simp add: Let_def)
qed

lemma split_on_no_sep: "sep \<notin> set s \<Longrightarrow> split_on sep s = [s]"
  by (induction s) auto

lemma split_on_append:
  "sep \<notin> set a \<Longrightarrow> split_on sep (a @ sep # rest) = a # split_on sep rest"
  by (induction a) auto

lemma show_nat_no_dash: "CHR ''-'' \<notin> set (show_nat n)"
  using show_nat_digits [of n] is_digit_plain by blast

lemma split_workDirName:
  assumes "CHR ''-'' \<notin> set module" "0 \<le> t"
  shows "split_on CHR ''-'' (workDirName module t) = [module, show_nat (nat t)]"
  using assms
  by (simp add: workDirName_def show_int_def split_on_append split_on_no_sep show_nat_no_dash)

lemma stamp_workDirName:
  assumes "CHR ''-'' \<notin> set module" "0 \<le> t" "t < 2 ^ 63"
  shows "stamp module (workDirName module t, Dir fs) = Some t"
proof -
  have "prefix (module @ ''-'') (workDirName module t)"
    by (simp add: workDirName_def)
  moreover have "StringToInt64 (show_nat (nat t)) = Some t"
    using StringToInt64_show_nat [of "nat t"] assms by simp
  ultimately show ?thesis
    using assms by (simp add: stamp_def is_dir_def split_workDirName)
qed

lemma stamp_same_name:
  assumes "CHR ''-'' \<notin> set module" "0 \<le> t" "t < 2 ^ 63"
      and "fst entry = workDirName module t" and "stamp module entry = Some u"
  shows "u = t"
proof -
  have "StringToInt64 (show_nat (nat t)) = Some t"
    using StringToInt64_show_nat [of "nat t"] assms by simp
  then show ?thesis
    using assms by (simp add: stamp_def split_workDirName split: if_splits)
qed

section \<open>Facts about the executor\<close>

lemma latest_step_stamp:
  "latest_step module acc entry =
     (case stamp module entry of
        Some t \<Rightarrow> if t > snd acc then (fst entry, t) else acc
      | None \<Rightarrow> acc)"
  by (simp add: latest_step_def stamp_def Let_def)

lemma foldl_latest_no_match:
  assumes "\<forall>entry \<in> set dirs. \<not> (is_dir (snd entry) \<and> prefix (module @ ''-'') (fst entry))"
  shows "foldl (latest_step module) acc dirs = acc"
  using assms by (induction dirs arbitrary: acc) (auto simp: latest_step_def)

lemma foldl_latest_fixed:
  assumes "\<forall>entry \<in> set dirs. \<forall>t. stamp module entry = Some t \<longrightarrow> t \<le> tA \<and> (t = tA \<longrightarrow> fst entry = nA)"
  shows "foldl (latest_step module) (nA, tA) dirs = (nA, tA)"
  using assms by (induction dirs) (auto simp: latest_step_stamp split: option.splits)

text \<open>
  The loop ends on the name that carries the largest number, when one name carries it
  and it is above the starting value.
\<close>

lemma foldl_latest_max:
  assumes "\<forall>entry \<in> set dirs. \<forall>t. stamp module entry = Some t \<longrightarrow> t \<le> tA \<and> (t = tA \<longrightarrow> fst entry = nA)"
      and "\<exists>entry \<in> set dirs. stamp module entry = Some tA"
      and "snd acc < tA"
  shows "foldl (latest_step module) acc dirs = (nA, tA)"
  using assms
proof (induction dirs arbitrary: acc)
  case Nil
  then show ?case by simp
next
  case (Cons d dirs)
  have rest: "\<forall>entry \<in> set dirs. \<forall>t. stamp module entry = Some t \<longrightarrow> t \<le> tA \<and> (t = tA \<longrightarrow> fst entry = nA)"
    using Cons.prems(1) by simp
  show ?case
  proof (cases "stamp module d")
    case None
    then have "latest_step module acc d = acc" by (simp add: latest_step_stamp)
    moreover have "\<exists>entry \<in> set dirs. stamp module entry = Some tA"
      using Cons.prems(2) None by auto
    ultimately show ?thesis using Cons.IH [OF rest _ Cons.prems(3)] by simp
  next
    case (Some t)
    then have le: "t \<le> tA" and eq: "t = tA \<longrightarrow> fst d = nA" using Cons.prems(1) by auto
    show ?thesis
    proof (cases "t = tA")
      case True
      then have "latest_step module acc d = (nA, tA)"
        using Some eq Cons.prems(3) by (simp add: latest_step_stamp)
      then show ?thesis using foldl_latest_fixed [OF rest] by simp
    next
      case False
      then have lt: "t < tA" using le by simp
      have ex: "\<exists>entry \<in> set dirs. stamp module entry = Some tA"
        using Cons.prems(2) Some False by auto
      have "snd (latest_step module acc d) < tA"
        using Some lt Cons.prems(3) by (simp add: latest_step_stamp)
      then show ?thesis using Cons.IH [OF rest ex] by simp
    qed
  qed
qed

lemma readDir_entries:
  "readDir e h = Inr dirs \<Longrightarrow> set dirs = set (dir_entries h)"
  by (auto simp: readDir_def dir_entries_def split: option.splits)

lemma put_node_entry: "(name, n) \<in> set (dir_entries (put_node name n h))"
  by (simp add: put_node_def dir_entries_def)

lemma logf_entries [simp]: "dir_entries (logf line h) = dir_entries h"
  by (simp add: logf_def dir_entries_def)

lemma runCommand_entry:
  assumes "runCommand tf e workDir args h = (r, h')"
  shows "\<exists>fs. (workDir, Dir fs) \<in> set (dir_entries h')"
proof -
  define h1 where "h1 = logf (''Running Terraform command: '' @ tfBinary e @ '' '' @ join_sp args) h"
  obtain res fs' where t: "tf_run tf args (dir_files h1 workDir) = (res, fs')"
    by (cases "tf_run tf args (dir_files h1 workDir)") auto
  have "(workDir, Dir fs') \<in> set (dir_entries h')"
    using assms t unfolding runCommand_def h1_def [symmetric]
    by (auto simp: Let_def put_node_entry split: sum.splits)
  then show ?thesis by blast
qed

text \<open>After a successful \<^verbatim>\<open>Apply\<close> the working directory of this call is there.\<close>

lemma Apply_creates_workDir:
  assumes "Apply tf e now module vars h0 = (None, h)"
  shows "\<exists>fs. (workDirName module now, Dir fs) \<in> set (dir_entries h)"
  using assms
  by (auto simp: Apply_def Let_def split: prod.splits option.splits sum.splits
           dest: runCommand_entry)


text \<open>What a call leaves under a name of the state directory.\<close>

lemma lookup_node_logf [simp]: "lookup_node (logf line h) name = lookup_node h name"
  by (simp add: lookup_node_def logf_def)

lemma map_of_filter_other:
  "map_of (filter (\<lambda>e. fst e \<noteq> n) es) name = (if name = n then None else map_of es name)"
  by (induction es) auto

lemma lookup_node_put_node:
  "lookup_node (put_node n x h) name = (if name = n then Some x else lookup_node h name)"
  by (simp add: lookup_node_def put_node_def map_of_filter_other split: option.splits)

lemma lookup_node_entry: "lookup_node h name = Some x \<Longrightarrow> (name, x) \<in> set (dir_entries h)"
  by (auto simp: lookup_node_def dir_entries_def split: option.splits dest: map_of_SomeD)

lemma lookup_node_mkdirAll:
  "name \<noteq> n \<Longrightarrow> lookup_node (snd (mkdirAll e n h)) name = lookup_node h name"
  by (simp add: mkdirAll_def lookup_node_put_node split: option.splits node.splits)

lemma lookup_node_writeFile:
  "name \<noteq> n \<Longrightarrow> lookup_node (snd (writeFile e n fname content h)) name = lookup_node h name"
  by (simp add: writeFile_def lookup_node_put_node split: option.splits node.splits)

lemma lookup_node_runCommand:
  "lookup_node (snd (runCommand tf e workDir args h)) name =
     (if name = workDir
      then Some (Dir (snd (tf_run tf args (dir_files h workDir))))
      else lookup_node h name)"
proof -
  define h1 where "h1 = logf (''Running Terraform command: '' @ tfBinary e @ '' '' @ join_sp args) h"
  have d: "dir_files h1 workDir = dir_files h workDir"
    by (simp add: h1_def dir_files_def)
  obtain res fs' where t: "tf_run tf args (dir_files h workDir) = (res, fs')"
    by (cases "tf_run tf args (dir_files h workDir)") auto
  have l: "lookup_node h1 name = lookup_node h name" by (simp add: h1_def)
  show ?thesis
    unfolding runCommand_def h1_def [symmetric]
    by (cases res) (simp_all add: d t l Let_def lookup_node_put_node split: prod.splits)
qed

text \<open>
  After a successful \<^verbatim>\<open>Apply\<close> the name of its working directory leads to a directory,
  and a call of \<^verbatim>\<open>Apply\<close> changes nothing under any other name.
\<close>

lemma Apply_workDir_lookup:
  assumes "Apply tf e now module vars h0 = (None, h)"
  shows "\<exists>fs. lookup_node h (workDirName module now) = Some (Dir fs)"
proof -
  let ?args = "[''apply'', ''-no-color'', ''-auto-approve'', ''-var-file=terraform.tfvars.json'']"
  from assms obtain h3 where "runCommand tf e (workDirName module now) ?args h3 = (None, h)"
    by (auto simp: Apply_def Let_def split: prod.splits option.splits sum.splits)
  then have "h = snd (runCommand tf e (workDirName module now) ?args h3)" by simp
  then show ?thesis by (simp add: lookup_node_runCommand)
qed

lemma Apply_keeps_other_names:
  assumes "name \<noteq> workDirName module now"
  shows "lookup_node (snd (Apply tf e now module vars h)) name = lookup_node h name"
proof -
  let ?n = "workDirName module now"
  have m: "\<And>x. lookup_node (snd (mkdirAll e ?n x)) name = lookup_node x name"
    using assms by (simp add: lookup_node_mkdirAll)
  have w: "\<And>c x. lookup_node (snd (writeFile e ?n ''terraform.tfvars.json'' c x)) name = lookup_node x name"
    using assms by (simp add: lookup_node_writeFile)
  have r: "\<And>args x. lookup_node (snd (runCommand tf e ?n args x)) name = lookup_node x name"
    using assms by (simp add: lookup_node_runCommand)
  show ?thesis
    unfolding Apply_def Let_def
    by (auto split: prod.splits option.splits sum.splits
             dest!: arg_cong [where f = "\<lambda>p. lookup_node (snd p) name"]
             simp: m w r)
qed
section \<open>The executor on concrete inputs\<close>

lemma digit_char_eval:
  "digit_char 0 = CHR ''0''" "digit_char (Suc 0) = CHR ''1''" "digit_char 2 = CHR ''2''"
  "digit_char 3 = CHR ''3''" "digit_char 4 = CHR ''4''" "digit_char 5 = CHR ''5''"
  "digit_char 6 = CHR ''6''" "digit_char 7 = CHR ''7''" "digit_char 8 = CHR ''8''"
  "digit_char 9 = CHR ''9''"
  by code_simp+

lemmas show_eval = show_int_def show_nat.simps digit_char_eval

lemmas parse_eval = StringToInt64_def skip_space_def blank_width_def blank_runes_def
  is_digit_def is_space_def digits_value_def digit_val_def

lemmas exec_eval = Apply_def mkdirAll_def writeFile_def runCommand_def lookup_node_def
  put_node_def dir_files_def set_file_def logf_def echo_terraform_def NewExecutor_def Let_def

lemma workDir_A: "workDirName ''aws'' 1700000000 = ''aws-1700000000''"
  by (simp add: workDirName_def show_eval)

lemma workDir_B: "workDirName ''aws'' 1700000060 = ''aws-1700000060''"
  by (simp add: workDirName_def show_eval)

lemma host_after_A_eval:
  "state_dir host_after_A =
     Some [(''aws-1700000000'', Dir [(''terraform.tfstate'', ''env-aaaaaaaa''),
                                     (''terraform.tfvars.json'', ''env-aaaaaaaa'')])]"
  "os_error host_after_A = (\<lambda>_. None)"
  "fst (Apply echo_terraform (NewExecutor ''../provisioning'') 1700000000 ''aws'' ''env-aaaaaaaa'' fresh_host) = None"
  unfolding host_after_A_def by (simp_all add: exec_eval fresh_host_def workDir_A)

lemma host_after_B_eval:
  "state_dir host_after_B =
     Some [(''aws-1700000060'', Dir [(''terraform.tfstate'', ''env-bbbbbbbb''),
                                     (''terraform.tfvars.json'', ''env-bbbbbbbb'')]),
           (''aws-1700000000'', Dir [(''terraform.tfstate'', ''env-aaaaaaaa''),
                                     (''terraform.tfvars.json'', ''env-aaaaaaaa'')])]"
  "os_error host_after_B = (\<lambda>_. None)"
  "fst (Apply echo_terraform (NewExecutor ''../provisioning'') 1700000060 ''aws'' ''env-bbbbbbbb'' host_after_A) = None"
  unfolding host_after_B_def by (simp_all add: exec_eval workDir_B host_after_A_eval)

lemma host_after_C_eval:
  "state_dir host_after_C =
     Some [(''gcp-1700000120'', Dir [(''terraform.tfstate'', ''env-cccccccc''),
                                     (''terraform.tfvars.json'', ''env-cccccccc'')]),
           (''aws-1700000060'', Dir [(''terraform.tfstate'', ''env-bbbbbbbb''),
                                     (''terraform.tfvars.json'', ''env-bbbbbbbb'')]),
           (''aws-1700000000'', Dir [(''terraform.tfstate'', ''env-aaaaaaaa''),
                                     (''terraform.tfvars.json'', ''env-aaaaaaaa'')])]"
  "os_error host_after_C = (\<lambda>_. None)"
  "fst (Apply echo_terraform (NewExecutor ''../provisioning'') 1700000120 ''gcp'' ''env-cccccccc'' host_after_B) = None"
  unfolding host_after_C_def
  by (simp_all add: exec_eval workDirName_def show_eval host_after_B_eval)

lemma host_after_eks_eval:
  "state_dir host_after_eks =
     Some [(''aws-eks-1700000000'', Dir [(''terraform.tfstate'', ''env-aaaaaaaa''),
                                         (''terraform.tfvars.json'', ''env-aaaaaaaa'')])]"
  "os_error host_after_eks = (\<lambda>_. None)"
  "fst (Apply echo_terraform (NewExecutor ''../provisioning'') 1700000000 ''aws-eks'' ''env-aaaaaaaa'' fresh_host) = None"
  unfolding host_after_eks_def
  by (simp_all add: exec_eval workDirName_def show_eval fresh_host_def)

lemma sort_two_dirs:
  "sort_key fst [(''aws-1700000060'', x), (''aws-1700000000'', y)] =
     [(''aws-1700000000'', y), (''aws-1700000060'', x)]"
  by (simp add: list_le_def list_less_def less_char_def less_eq_char_def)

lemma stamp_eval:
  "stamp ''aws'' (''aws-1700000000'', Dir fs) = Some 1700000000"
  "stamp ''aws'' (''aws-1700000060'', Dir fs) = Some 1700000060"
  "stamp ''aws'' (''gcp-1700000120'', Dir fs) = None"
  "stamp ''aws-eks'' (''aws-eks-1700000000'', Dir fs) = None"
  by (simp_all add: stamp_def is_dir_def parse_eval)

lemma findLatest_after_B:
  "findLatest ''aws'' (sort_key fst (dir_entries host_after_B)) = (''aws-1700000060'', 1700000060)"
  by (simp add: dir_entries_def host_after_B_eval sort_two_dirs findLatest_def latest_step_stamp stamp_eval)

lemma readDir_after_B: "readDir e host_after_B = Inr (sort_key fst (dir_entries host_after_B))"
  by (simp add: readDir_def dir_entries_def host_after_B_eval)

lemma GetOutputs_after_eks:
  "GetOutputs echo_terraform (NewExecutor ''../provisioning'') ''aws-eks'' host_after_eks
     = Inl (NoStateDir ''aws-eks'')"
  by (simp add: GetOutputs_def readDir_def host_after_eks_eval findLatest_def latest_step_stamp stamp_eval)

lemma output_after_B:
  "tf_run echo_terraform [''output'', ''-no-color'', ''-json''] (dir_files host_after_B ''aws-1700000060'')
     = (Inr ''env-bbbbbbbb'', [(''terraform.tfstate'', ''env-bbbbbbbb''), (''terraform.tfvars.json'', ''env-bbbbbbbb'')])"
  by (simp add: dir_files_def lookup_node_def host_after_B_eval echo_terraform_def)

lemma GetOutputs_after_B:
  "GetOutputs echo_terraform (NewExecutor ''../provisioning'') ''aws'' host_after_B
     = Inr [(''cluster_name'', JStr ''env-bbbbbbbb'')]"
  unfolding GetOutputs_def readDir_after_B
  by (simp add: findLatest_after_B output_after_B) (simp add: echo_terraform_def)

lemma GetOutputs_read_ok:
  "readDir e h = Inr dirs \<Longrightarrow> GetOutputs tf e module h \<noteq> Inl (ReadStateDirFailed msg)"
  by (simp add: GetOutputs_def Let_def split: sum.splits prod.splits)

section \<open>Claims about the executor\<close>

text \<open>
  C10. When the state directory holds no directory whose name begins with the module
  name and a dash, \<^verbatim>\<open>GetOutputs\<close> returns an error and no output map: the error "no
  state directory found for module ...", or the error of reading the state directory.
  It does not run the tool in the directory of another module.
\<close>

theorem GetOutputs_without_workspace:
  assumes "\<forall>entry \<in> set (dir_entries h). \<not> (is_dir (snd entry) \<and> prefix (module @ ''-'') (fst entry))"
  shows "GetOutputs tf e module h = Inl (NoStateDir module)
         \<or> (\<exists>msg. GetOutputs tf e module h = Inl (ReadStateDirFailed msg))"
proof (cases "readDir e h")
  case (Inl msg)
  then show ?thesis by (simp add: GetOutputs_def)
next
  case (Inr dirs)
  then have "set dirs = set (dir_entries h)" by (rule readDir_entries)
  with assms have "foldl (latest_step module) ([], 0) dirs = ([], 0)"
    by (intro foldl_latest_no_match) simp
  with Inr show ?thesis by (simp add: GetOutputs_def findLatest_def)
qed

theorem GetOutputs_without_workspace_witness:
  "GetOutputs echo_terraform (NewExecutor ''../provisioning'') ''gcp'' host_after_B = Inl (NoStateDir ''gcp'')"
proof -
  have "\<forall>entry \<in> set (dir_entries host_after_B). \<not> (is_dir (snd entry) \<and> prefix (''gcp'' @ ''-'') (fst entry))"
    by (simp add: dir_entries_def host_after_B_eval)
  from GetOutputs_without_workspace [OF this, of echo_terraform "NewExecutor ''../provisioning''"]
  show ?thesis
    using GetOutputs_read_ok [OF readDir_after_B] by blast
qed

text \<open>
  C1 as stated fails, in two ways. Environment A applies the module \<^verbatim>\<open>aws\<close>, then
  environment B does, a minute later; both calls succeed. \<^verbatim>\<open>GetOutputs("aws")\<close>, which is
  all that A's workflow can ask, now resolves to B's directory and returns what B's
  apply produced. And a single environment applies the module \<^verbatim>\<open>aws-eks\<close>, with
  success: \<^verbatim>\<open>GetOutputs("aws-eks")\<close> then finds no directory at all, because the loop
  reads the number from the second dash-separated part of the name, here \<^verbatim>\<open>eks\<close>.
\<close>

theorem GetOutputs_other_environment_counterexample:
  "fst (Apply echo_terraform (NewExecutor ''../provisioning'') 1700000000 ''aws'' ''env-aaaaaaaa'' fresh_host) = None
   \<and> fst (Apply echo_terraform (NewExecutor ''../provisioning'') 1700000060 ''aws'' ''env-bbbbbbbb'' host_after_A) = None
   \<and> fst (findLatest ''aws'' (sort_key fst (dir_entries host_after_B))) \<noteq> workDirName ''aws'' 1700000000
   \<and> GetOutputs echo_terraform (NewExecutor ''../provisioning'') ''aws'' host_after_B
       = Inr [(''cluster_name'', JStr ''env-bbbbbbbb'')]
   \<and> fst (Apply echo_terraform (NewExecutor ''../provisioning'') 1700000000 ''aws-eks'' ''env-aaaaaaaa'' fresh_host) = None
   \<and> GetOutputs echo_terraform (NewExecutor ''../provisioning'') ''aws-eks'' host_after_eks
       = Inl (NoStateDir ''aws-eks'')"
  by (simp add: host_after_A_eval(3) host_after_B_eval(3) findLatest_after_B workDir_A GetOutputs_after_B
        host_after_eks_eval(3) GetOutputs_after_eks)

text \<open>
  C1 as amended. \<^verbatim>\<open>GetOutputs\<close> takes only the module name. Let the module name be
  one path component without a dash, and let environment A's \<^verbatim>\<open>Apply\<close> have succeeded
  in second \<open>tA\<close> (positive, within \<^verbatim>\<open>int64\<close>), leaving the host \<open>hA\<close>. A call of
  \<^verbatim>\<open>GetOutputs\<close> for the module in a later state \<open>h\<close> resolves to the directory that A's
  \<^verbatim>\<open>Apply\<close> created, and returns what the output step gives on the files that A's
  \<^verbatim>\<open>Apply\<close> left there, provided that in \<open>h\<close> this directory is as A's \<^verbatim>\<open>Apply\<close> left it
  (no later run has written into it, as an \<^verbatim>\<open>Apply\<close> of the same module in the same
  second would, which uses the same directory), the state directory can be read, and
  every other directory of the module that carries a number carries a smaller one than
  \<open>tA\<close> (no \<^verbatim>\<open>Apply\<close> of the module in a later second).
\<close>

theorem GetOutputs_resolves_own_apply:
  assumes "CHR ''-'' \<notin> set module" and "CHR ''/'' \<notin> set module"
      and "0 < tA" and "tA < 2 ^ 63"
      and "Apply tf e tA module vars h0 = (None, hA)"
      and "lookup_node h (workDirName module tA) = lookup_node hA (workDirName module tA)"
      and "os_error h ReadDir = None"
      and "\<forall>entry \<in> set (dir_entries h). fst entry \<noteq> workDirName module tA \<longrightarrow>
             (\<forall>t. stamp module entry = Some t \<longrightarrow> t < tA)"
  shows "fst (findLatest module (sort_key fst (dir_entries h))) = workDirName module tA
         \<and> GetOutputs tf e module h =
             (case fst (tf_run tf [''output'', ''-no-color'', ''-json''] (dir_files hA (workDirName module tA))) of
                Inl (err, stderr) \<Rightarrow> Inl (OutputFailed err stderr)
              | Inr out \<Rightarrow> (case parseOutputs tf out of
                              Inl err \<Rightarrow> Inl (ParseFailed err)
                            | Inr outputs \<Rightarrow> Inr outputs))"
proof -
  let ?nA = "workDirName module tA"
  let ?dirs = "sort_key fst (dir_entries h)"
  obtain fs where left: "lookup_node hA ?nA = Some (Dir fs)"
    using Apply_workDir_lookup [OF assms(5)] by blast
  then have here: "lookup_node h ?nA = Some (Dir fs)" using assms(6) by simp
  then have own: "(?nA, Dir fs) \<in> set (dir_entries h)" by (rule lookup_node_entry)
  have files: "dir_files h ?nA = dir_files hA ?nA"
    using assms(6) by (simp add: dir_files_def)
  have tA: "0 \<le> tA" using assms(3) by simp
  have bound: "\<forall>entry \<in> set ?dirs. \<forall>t. stamp module entry = Some t \<longrightarrow> t \<le> tA \<and> (t = tA \<longrightarrow> fst entry = ?nA)"
  proof (intro ballI allI impI)
    fix entry t
    assume mem: "entry \<in> set ?dirs" and st: "stamp module entry = Some t"
    show "t \<le> tA \<and> (t = tA \<longrightarrow> fst entry = ?nA)"
    proof (cases "fst entry = ?nA")
      case True
      then have "t = tA" using stamp_same_name [OF assms(1) tA assms(4) _ st] by simp
      with True show ?thesis by simp
    next
      case False
      with mem st assms(8) have "t < tA" by auto
      then show ?thesis by simp
    qed
  qed
  have ex: "\<exists>entry \<in> set ?dirs. stamp module entry = Some tA"
    using own stamp_workDirName [OF assms(1) tA assms(4), of fs] by (auto intro: bexI [of _ "(?nA, Dir fs)"])
  have latest: "findLatest module ?dirs = (?nA, tA)"
    unfolding findLatest_def using foldl_latest_max [OF bound ex, of "([], 0)"] assms(3) by simp
  have nonempty: "?nA \<noteq> []" by (simp add: workDirName_def)
  have rd: "readDir e h = Inr ?dirs"
  proof (cases "state_dir h")
    case None
    with own show ?thesis by (simp add: dir_entries_def)
  next
    case (Some es)
    with assms(7) show ?thesis by (simp add: readDir_def dir_entries_def)
  qed
  show ?thesis
    using latest nonempty rd files by (simp add: GetOutputs_def)
qed

theorem GetOutputs_resolves_own_apply_witness:
  "fst (findLatest ''aws'' (sort_key fst (dir_entries host_after_C))) = workDirName ''aws'' 1700000060
   \<and> GetOutputs echo_terraform (NewExecutor ''../provisioning'') ''aws'' host_after_C
       = Inr [(''cluster_name'', JStr ''env-bbbbbbbb'')]"
proof -
  have ap: "Apply echo_terraform (NewExecutor ''../provisioning'') 1700000060 ''aws'' ''env-bbbbbbbb'' host_after_A
              = (None, host_after_B)"
    using host_after_B_eval(3) by (simp add: host_after_B_def prod_eq_iff)
  have same: "lookup_node host_after_C (workDirName ''aws'' 1700000060)
                = lookup_node host_after_B (workDirName ''aws'' 1700000060)"
    by (simp add: lookup_node_def host_after_C_eval host_after_B_eval workDir_B)
  have others: "\<forall>entry \<in> set (dir_entries host_after_C). fst entry \<noteq> workDirName ''aws'' 1700000060 \<longrightarrow>
                  (\<forall>t. stamp ''aws'' entry = Some t \<longrightarrow> t < 1700000060)"
    by (simp add: dir_entries_def host_after_C_eval workDir_B stamp_eval)
  have "CHR ''-'' \<notin> set ''aws''" "CHR ''/'' \<notin> set ''aws''" "(0::int) < 1700000060" "(1700000060::int) < 2 ^ 63"
    by simp_all
  from GetOutputs_resolves_own_apply [OF this ap same _ others]
  show ?thesis
    by (simp add: host_after_C_eval(2) workDir_B output_after_B) (simp add: echo_terraform_def)
qed

section \<open>Facts about the record store\<close>

lemma wlog_fields [simp]:
  "items (wlog line w) = items w" "db_error (wlog line w) = db_error w"
  "marshal_error (wlog line w) = marshal_error w" "hst (wlog line w) = logf line (hst w)"
  by (simp_all add: wlog_def)

lemma stored_item_wlog [simp]: "stored_item (wlog line w) k = stored_item w k"
  by (simp add: stored_item_def)

lemma stored_item_hst [simp]: "stored_item (w \<lparr> hst := x \<rparr>) k = stored_item w k"
  by (simp add: stored_item_def)

lemma marshalMap_fields [simp]:
  "decodes (marshalMap e)" "attrs (marshalMap e) = e" "item_key (marshalMap e) = env_ID e"
  "null_DeletedAt (marshalMap e) = (env_DeletedAt e = None)"
  by (simp_all add: marshalMap_def item_key_def)

text \<open>An item written by the handler has the attribute \<^verbatim>\<open>DeletedAt\<close>.\<close>

lemma has_DeletedAt_marshalMap: "has_DeletedAt (marshalMap e)"
  by (simp add: has_DeletedAt_def split: option.splits)

lemma find_filter_other:
  "k \<noteq> k' \<Longrightarrow> find (\<lambda>i. item_key i = k) (filter (\<lambda>i. item_key i \<noteq> k') xs) = find (\<lambda>i. item_key i = k) xs"
  by (induction xs) auto

lemma putItem_ok:
  assumes "db_error w (PutItem (env_ID e)) = None"
  shows "putItem e w = (None, w \<lparr> items := marshalMap e # filter (\<lambda>i. item_key i \<noteq> env_ID e) (items w) \<rparr>)"
  using assms by (simp add: putItem_def)

lemma stored_item_put:
  "stored_item (w \<lparr> items := marshalMap e # filter (\<lambda>i. item_key i \<noteq> env_ID e) (items w) \<rparr>) k
     = (if k = env_ID e then Some (marshalMap e) else stored_item w k)"
  by (auto simp: stored_item_def find_filter_other)

lemma put_single:
  "length (filter (\<lambda>i. item_key i = env_ID e) (marshalMap e # filter (\<lambda>i. item_key i \<noteq> env_ID e) xs)) = 1"
proof -
  have "filter (\<lambda>i. item_key i = env_ID e) (filter (\<lambda>i. item_key i \<noteq> env_ID e) xs) = []"
    by (induction xs) auto
  then show ?thesis by simp
qed

lemma find_map_same_key:
  assumes "\<And>x. key (g x) = key x"
  shows "find (\<lambda>i. key i = k) (map g xs) = map_option g (find (\<lambda>i. key i = k) xs)"
  using assms by (induction xs) auto

lemma find_none_list_ex: "find P xs = None \<longleftrightarrow> \<not> list_ex P xs"
  by (induction xs) auto

text \<open>
  The word \<^verbatim>\<open>Status\<close> is reserved, so an expression that writes it as it is gets
  refused, whatever else it holds before it; behind a placeholder it is accepted.
\<close>

lemma upper_Status: "map upper ''Status'' = ''STATUS''"
  by code_simp

lemma is_reserved_Status: "is_reserved ''Status''"
  by code_simp

lemma not_reserved_eval:
  "\<not> is_reserved ''KubeConfig''" "\<not> is_reserved ''ConsoleURL''" "\<not> is_reserved ''StatusMessage''"
  "\<not> is_reserved ''UpdatedAt''" "\<not> is_reserved ''DeletedAt''"
  by code_simp+

lemma resolve_eval:
  "resolve names (Raw ''Status'') = Inl ''Attribute name is a reserved keyword; reserved keyword: Status''"
  "resolve names (Raw ''KubeConfig'') = Inr ''KubeConfig''"
  "resolve names (Raw ''ConsoleURL'') = Inr ''ConsoleURL''"
  "resolve names (Raw ''StatusMessage'') = Inr ''StatusMessage''"
  "resolve names (Raw ''UpdatedAt'') = Inr ''UpdatedAt''"
  "resolve names (Raw ''DeletedAt'') = Inr ''DeletedAt''"
  "resolve [(''#status'', ''Status'')] (Alias ''#status'') = Inr ''Status''"
  by (simp_all add: resolve_def is_reserved_Status not_reserved_eval)

lemma first_refusal_status:
  "first_refusal [] [Raw ''Status'', Raw ''StatusMessage'', Raw ''UpdatedAt'']
     = Some ''Attribute name is a reserved keyword; reserved keyword: Status''"
  "first_refusal [] [Raw ''KubeConfig'', Raw ''ConsoleURL'', Raw ''Status'', Raw ''StatusMessage'', Raw ''UpdatedAt'']
     = Some ''Attribute name is a reserved keyword; reserved keyword: Status''"
  "first_refusal [(''#status'', ''Status'')] [Alias ''#status'', Raw ''StatusMessage'', Raw ''UpdatedAt''] = None"
  by (simp_all add: resolve_eval)

text \<open>A refused \<^verbatim>\<open>UpdateItem\<close> leaves the world as it is.\<close>

lemma updateItem_unchanged:
  assumes "fst (updateItem k sets names w) \<noteq> None"
  shows "snd (updateItem k sets names w) = w"
  using assms by (simp add: updateItem_def split: option.splits)

text \<open>
  Both writes of the handler that go through \<^verbatim>\<open>UpdateItem\<close> are refused, in every
  world: when the call itself does not fail, the expression is not valid.
\<close>

lemma updateEnvironmentStatus_refused:
  "updateEnvironmentStatus k status message now w =
     wlog (''Failed to update environment status: ''
           @ (case db_error w (UpdateItem k) of Some err \<Rightarrow> err | None \<Rightarrow> status_refusal)) w"
  by (simp add: updateEnvironmentStatus_def updateItem_def resolve_eval status_refusal_def
           split: option.splits)

lemma final_write_refused:
  "updateItem k [(Raw ''KubeConfig'', AString kubeconfig), (Raw ''ConsoleURL'', AString consoleURL),
                 (Raw ''Status'', AString status), (Raw ''StatusMessage'', AString message),
                 (Raw ''UpdatedAt'', ATime now)] [] w
     = (Some (case db_error w (UpdateItem k) of Some err \<Rightarrow> err | None \<Rightarrow> status_refusal), w)"
  by (simp add: updateItem_def resolve_eval status_refusal_def split: option.splits)

lemma updateEnvironmentStatus_fields [simp]:
  "items (updateEnvironmentStatus k status message now w) = items w"
  "db_error (updateEnvironmentStatus k status message now w) = db_error w"
  "marshal_error (updateEnvironmentStatus k status message now w) = marshal_error w"
  "stored_item (updateEnvironmentStatus k status message now w) k' = stored_item w k'"
  by (simp_all add: updateEnvironmentStatus_refused)

text \<open>
  The same write with the name behind a placeholder, as \<^verbatim>\<open>ListEnvironments\<close> writes it
  in its filter, is accepted and sets the status.
\<close>

lemma aliased_status_write_accepted:
  assumes "db_error w (UpdateItem k) = None" and "stored_item w k = Some i"
  shows "fst (updateItem k [(Alias ''#status'', AString status), (Raw ''StatusMessage'', AString message),
                            (Raw ''UpdatedAt'', ATime now)] [(''#status'', ''Status'')] w) = None"
    and "map_option (env_Status \<circ> attrs)
           (stored_item (snd (updateItem k [(Alias ''#status'', AString status),
                                            (Raw ''StatusMessage'', AString message),
                                            (Raw ''UpdatedAt'', ATime now)] [(''#status'', ''Status'')] w)) k)
         = Some status"
proof -
  let ?sets = "[(Alias ''#status'', AString status), (Raw ''StatusMessage'', AString message),
                (Raw ''UpdatedAt'', ATime now)]"
  let ?names = "[(''#status'', ''Status'')]"
  let ?g = "\<lambda>i. if item_key i = k
                 then Item (decodes i) (apply_sets ?names ?sets (attrs i)) (null_DeletedAt i) else i"
  have ex: "list_ex (\<lambda>i. item_key i = k) (items w)"
    using assms(2) find_none_list_ex [of "\<lambda>i. item_key i = k" "items w"] by (auto simp: stored_item_def)
  have ki: "item_key i = k"
    using assms(2) by (auto simp: stored_item_def dest: find_Some_iff [THEN iffD1])
  have sets: "\<And>e. apply_sets ?names ?sets e
                    = e \<lparr> env_Status := status, env_StatusMessage := message, env_UpdatedAt := now \<rparr>"
    by (simp add: apply_sets_def resolve_eval set_attribute_def)
  have g: "\<And>x. item_key (?g x) = item_key x"
    by (simp add: item_key_def sets)
  have fnd: "find (\<lambda>i. item_key i = k) (map ?g (items w)) = map_option ?g (find (\<lambda>i. item_key i = k) (items w))"
    by (rule find_map_same_key) (rule g)
  show "fst (updateItem k ?sets ?names w) = None"
    using assms(1) by (simp add: updateItem_def resolve_eval)
  show "map_option (env_Status \<circ> attrs) (stored_item (snd (updateItem k ?sets ?names w)) k) = Some status"
    using assms ex fnd ki
    by (simp add: updateItem_def resolve_eval stored_item_def sets)
qed

section \<open>Facts about the log\<close>

lemma stdlog_put_node [simp]: "stdlog (put_node name n h) = stdlog h"
  by (simp add: put_node_def)

lemma stdlog_mkdirAll: "stdlog (snd (mkdirAll e name h)) = stdlog h"
  by (simp add: mkdirAll_def split: option.splits node.splits)

lemma stdlog_writeFile: "stdlog (snd (writeFile e dir fname content h)) = stdlog h"
  by (simp add: writeFile_def split: option.splits node.splits)

lemma apply_runs_logf:
  "apply_runs e (logf line h) =
     apply_runs e h + (if prefix (''Running Terraform command: '' @ tfBinary e @ '' apply'') line then 1 else 0)"
  by (simp add: apply_runs_def logf_def)

lemma apply_runs_same_log: "stdlog h' = stdlog h \<Longrightarrow> apply_runs e h' = apply_runs e h"
  by (simp add: apply_runs_def)

lemma apply_runs_runCommand:
  "apply_runs e (snd (runCommand tf e workDir args h)) =
     apply_runs e h + (if prefix '' apply'' ('' '' @ join_sp args) then 1 else 0)"
proof -
  define h1 where "h1 = logf (''Running Terraform command: '' @ tfBinary e @ '' '' @ join_sp args) h"
  obtain res fs' where t: "tf_run tf args (dir_files h1 workDir) = (res, fs')"
    by (cases "tf_run tf args (dir_files h1 workDir)") auto
  have a: "apply_runs e (put_node workDir (Dir fs') h1) = apply_runs e h1"
    by (rule apply_runs_same_log) simp
  have b: "apply_runs e h1 = apply_runs e h + (if prefix '' apply'' ('' '' @ join_sp args) then 1 else 0)"
    unfolding h1_def by (simp add: apply_runs_logf)
  show ?thesis
    unfolding runCommand_def h1_def [symmetric] using t a b
    by (auto simp: Let_def apply_runs_logf split: sum.splits)
qed

text \<open>One call of \<^verbatim>\<open>Apply\<close> starts \<^verbatim>\<open>terraform apply\<close> at most once.\<close>

lemma apply_runs_Apply:
  "apply_runs e (snd (Apply tf e now module vars h)) \<le> apply_runs e h + 1"
proof -
  have m: "apply_runs e (snd (mkdirAll e (workDirName module now) h)) = apply_runs e h"
    by (rule apply_runs_same_log) (rule stdlog_mkdirAll)
  have w: "\<And>c h1. apply_runs e (snd (writeFile e (workDirName module now) ''terraform.tfvars.json'' c h1)) = apply_runs e h1"
    by (rule apply_runs_same_log) (rule stdlog_writeFile)
  show ?thesis
    unfolding Apply_def Let_def
    by (auto split: prod.splits option.splits sum.splits
             dest!: arg_cong [where f = "\<lambda>p. apply_runs e (snd p)"]
             simp: m w apply_runs_runCommand)
qed


section \<open>The handler on concrete inputs\<close>

lemma demo_env_eval:
  "demo_env =
     \<lparr> env_ID = ''3f2b8c1e-7a4d-4e9b-9c1a-5d6e7f8091a2'', env_Name = ''dev-env'', env_Description = [],
       env_TemplateID = ''small'', env_UserID = ''user-1'',
       env_ResourceLimits = \<lparr> rl_CPU = ''2'', rl_Memory = ''4Gi'', rl_Storage = ''20Gi'',
                               rl_MaxNodeCount = 3, rl_MaxNamespaces = 5, rl_MaxLoadBalancers = 1 \<rparr>,
       env_NetworkPolicy = None, env_ServiceMesh = None, env_Monitoring = None, env_GitOps = None,
       env_Addons = None, env_Tags = None, env_Status = ''CREATING'',
       env_StatusMessage = ''Environment creation initiated'', env_ClusterName = ''env-3f2b8c1e'',
       env_KubeConfig = [], env_ConsoleURL = [], env_CreatedAt = 1700000000, env_UpdatedAt = 1700000000,
       env_DeletedAt = None \<rparr>"
  by (simp add: demo_env_def new_environment_def demo_request_def demo_uuid_def)

lemma demo_env_fields:
  "env_ID demo_env = demo_uuid" "env_Name demo_env = ''dev-env''" "env_Status demo_env = ''CREATING''"
  "env_ClusterName demo_env = ''env-3f2b8c1e''" "env_DeletedAt demo_env = None"
  by (simp_all add: demo_env_eval demo_uuid_def)

lemma demo_handler_fields:
  "validateRequest demo_handler = (\<lambda>_. None)" "validatePatch demo_handler = (\<lambda>_. None)"
  "terraformExecutor demo_handler = NewExecutor ''../provisioning''"
  by (simp_all add: demo_handler_def NewEnvironmentHandler_def)

lemma empty_world_fields:
  "items empty_world = []" "db_error empty_world = (\<lambda>_. None)"
  "marshal_error empty_world = (\<lambda>_. None)" "hst empty_world = fresh_host"
  by (simp_all add: empty_world_def)

lemma create_eval:
  "CreateEnvironment demo_handler (Some demo_request) demo_uuid 1700000000 empty_world
     = (Some (Response 201 (EnvBody demo_env)), empty_world \<lparr> items := [marshalMap demo_env] \<rparr>,
        Some (ProvisionJob demo_env))"
  by (simp add: CreateEnvironment_def demo_handler_fields empty_world_fields putItem_def
        demo_env_def [symmetric] demo_env_fields) (simp add: demo_uuid_def)

lemma world_created_eval: "world_created = empty_world \<lparr> items := [marshalMap demo_env] \<rparr>"
  by (simp add: world_created_def create_eval)

lemma world_created_fields:
  "items world_created = [marshalMap demo_env]" "db_error world_created = (\<lambda>_. None)"
  "marshal_error world_created = (\<lambda>_. None)" "hst world_created = fresh_host"
  "stored_item world_created demo_uuid = Some (marshalMap demo_env)"
  by (simp_all add: world_created_eval empty_world_fields stored_item_def demo_env_fields)

lemma world_deleted_fields:
  "items world_deleted =
     [marshalMap (demo_env \<lparr> env_Status := ''DELETING'', env_StatusMessage := ''Environment deletion initiated'',
                             env_UpdatedAt := 1700000100, env_DeletedAt := Some 1700000100 \<rparr>)]"
  "db_error world_deleted = (\<lambda>_. None)"
  by (simp_all add: world_deleted_def DeleteEnvironment_def getItem_def world_created_fields
        putItem_def demo_env_fields Let_def)

section \<open>Claims about the read operations and the update\<close>

lemma scan_members:
  assumes "scan conds names w = Inr result" and "i \<in> set result"
  shows "i \<in> set (items w)" and "list_all (\<lambda>c. cond_holds names c i) conds"
  using assms by (auto simp: scan_def split: option.splits)

lemma ListEnvironments_live:
  assumes "fst (ListEnvironments h userID status w) = Response 200 (EnvListBody envs)"
      and "e \<in> set envs"
  shows "env_DeletedAt e = None"
proof -
  let ?conds = "(if userID \<noteq> [] then [AttrEq (Alias ''#userId'') userID] else [])
                @ (if status \<noteq> [] then [AttrEq (Alias ''#status'') status] else [])
                @ [AttrNotExists (Raw ''DeletedAt'')]"
  let ?names = "(if userID \<noteq> [] then [(''#userId'', ''UserID'')] else [])
                @ (if status \<noteq> [] then [(''#status'', ''Status'')] else [])"
  from assms(1) obtain result where sc: "scan ?conds ?names w = Inr result" and envs: "envs = map attrs result"
    by (auto simp: ListEnvironments_def Let_def split: sum.splits if_splits)
  from assms(2) envs obtain i where i: "i \<in> set result" "e = attrs i" by auto
  from sc i(1) have "list_all (\<lambda>c. cond_holds ?names c i) ?conds"
    by (rule scan_members)
  moreover have "AttrNotExists (Raw ''DeletedAt'') \<in> set ?conds" by simp
  ultimately have "cond_holds ?names (AttrNotExists (Raw ''DeletedAt'')) i"
    unfolding list_all_iff by blast
  then have "\<not> has_DeletedAt i" by (simp add: resolve_eval)
  with i(2) show ?thesis by (simp add: has_DeletedAt_def split: option.splits)
qed

text \<open>
  The filter asks that the attribute is not there at all, and the handler writes it
  with every record, so a listing shows no record that the handler has written, deleted
  or not.
\<close>

lemma ListEnvironments_written_records:
  assumes "fst (ListEnvironments h userID status w) = Response 200 (EnvListBody envs)"
      and "\<forall>i \<in> set (items w). \<exists>e. i = marshalMap e"
  shows "envs = []"
proof -
  let ?conds = "(if userID \<noteq> [] then [AttrEq (Alias ''#userId'') userID] else [])
                @ (if status \<noteq> [] then [AttrEq (Alias ''#status'') status] else [])
                @ [AttrNotExists (Raw ''DeletedAt'')]"
  let ?names = "(if userID \<noteq> [] then [(''#userId'', ''UserID'')] else [])
                @ (if status \<noteq> [] then [(''#status'', ''Status'')] else [])"
  from assms(1) obtain result where sc: "scan ?conds ?names w = Inr result" and envs: "envs = map attrs result"
    by (auto simp: ListEnvironments_def Let_def split: sum.splits if_splits)
  have "result = []"
  proof (rule ccontr)
    assume "result \<noteq> []"
    then obtain i where i: "i \<in> set result" by (cases result) auto
    have mem: "i \<in> set (items w)" using sc i by (rule scan_members)
    have "list_all (\<lambda>c. cond_holds ?names c i) ?conds" using sc i by (rule scan_members)
    moreover have "AttrNotExists (Raw ''DeletedAt'') \<in> set ?conds" by simp
    ultimately have "cond_holds ?names (AttrNotExists (Raw ''DeletedAt'')) i"
      unfolding list_all_iff by blast
    then have "\<not> has_DeletedAt i" by (simp add: resolve_eval)
    moreover obtain e where "i = marshalMap e" using assms(2) mem by blast
    ultimately show False by (simp add: has_DeletedAt_marshalMap)
  qed
  with envs show ?thesis by simp
qed

text \<open>
  C3. A record whose \<^verbatim>\<open>DeletedAt\<close> is set is in no listing of \<^verbatim>\<open>ListEnvironments\<close>, and
  neither \<^verbatim>\<open>GetEnvironment\<close> nor \<^verbatim>\<open>GetEnvironmentStatus\<close> ever answers 200 for its ID:
  when the read of the table succeeds both answer 404 "Environment not found" (a
  failed read is answered with 500).
\<close>

theorem soft_deleted_is_absent:
  assumes "stored_item w envID = Some i" and "env_DeletedAt (attrs i) \<noteq> None"
  shows "(\<forall>userID status envs.
            fst (ListEnvironments h userID status w) = Response 200 (EnvListBody envs)
            \<longrightarrow> attrs i \<notin> set envs \<and> (\<forall>e \<in> set envs. env_DeletedAt e = None))
         \<and> (\<forall>b. fst (GetEnvironment h envID w) \<noteq> Response 200 b)
         \<and> (\<forall>b. fst (GetEnvironmentStatus h envID w) \<noteq> Response 200 b)
         \<and> (db_error w (GetItem envID) = None \<and> decodes i \<longrightarrow>
              fst (GetEnvironment h envID w) = Response 404 (ErrorBody ''Environment not found'')
              \<and> fst (GetEnvironmentStatus h envID w) = Response 404 (ErrorBody ''Environment not found''))"
proof (intro conjI allI impI)
  fix userID status envs
  assume l: "fst (ListEnvironments h userID status w) = Response 200 (EnvListBody envs)"
  show "attrs i \<notin> set envs" using ListEnvironments_live [OF l, of "attrs i"] assms(2) by auto
  show "\<forall>e \<in> set envs. env_DeletedAt e = None" using ListEnvironments_live [OF l] by auto
next
  fix b
  show "fst (GetEnvironment h envID w) \<noteq> Response 200 b"
    using assms by (auto simp: GetEnvironment_def getItem_def split: option.splits)
  show "fst (GetEnvironmentStatus h envID w) \<noteq> Response 200 b"
    using assms by (auto simp: GetEnvironmentStatus_def getItem_def split: option.splits)
next
  assume "db_error w (GetItem envID) = None \<and> decodes i"
  then show "fst (GetEnvironment h envID w) = Response 404 (ErrorBody ''Environment not found'')"
    using assms by (auto simp: GetEnvironment_def getItem_def)
next
  assume "db_error w (GetItem envID) = None \<and> decodes i"
  then show "fst (GetEnvironmentStatus h envID w) = Response 404 (ErrorBody ''Environment not found'')"
    using assms by (auto simp: GetEnvironmentStatus_def getItem_def)
qed

theorem soft_deleted_is_absent_witness:
  "fst (ListEnvironments demo_handler [] [] world_deleted) = Response 200 (EnvListBody [])
   \<and> fst (GetEnvironment demo_handler demo_uuid world_deleted) = Response 404 (ErrorBody ''Environment not found'')
   \<and> fst (GetEnvironmentStatus demo_handler demo_uuid world_deleted) = Response 404 (ErrorBody ''Environment not found'')"
proof -
  let ?i = "marshalMap (demo_env \<lparr> env_Status := ''DELETING'', env_StatusMessage := ''Environment deletion initiated'',
                                    env_UpdatedAt := 1700000100, env_DeletedAt := Some 1700000100 \<rparr>)"
  have s: "stored_item world_deleted demo_uuid = Some ?i"
    by (simp add: stored_item_def world_deleted_fields demo_env_fields)
  have d: "env_DeletedAt (attrs ?i) \<noteq> None" by simp
  have l: "fst (ListEnvironments demo_handler [] [] world_deleted) = Response 200 (EnvListBody [])"
    by (simp add: ListEnvironments_def scan_def world_deleted_fields resolve_eval has_DeletedAt_marshalMap)
  from soft_deleted_is_absent [OF s d, of demo_handler] l show ?thesis
    by (simp add: world_deleted_fields)
qed

lemma apply_patch_frame:
  "env_ID (apply_patch p e) = env_ID e" "env_Name (apply_patch p e) = env_Name e"
  "env_TemplateID (apply_patch p e) = env_TemplateID e" "env_UserID (apply_patch p e) = env_UserID e"
  "env_ClusterName (apply_patch p e) = env_ClusterName e" "env_CreatedAt (apply_patch p e) = env_CreatedAt e"
  "env_KubeConfig (apply_patch p e) = env_KubeConfig e" "env_ConsoleURL (apply_patch p e) = env_ConsoleURL e"
  "env_DeletedAt (apply_patch p e) = env_DeletedAt e"
  by (simp_all add: apply_patch_def Let_def split: option.splits)

lemma apply_patch_fields:
  "env_Description (apply_patch p e) = (case patch_Description p of Some d \<Rightarrow> d | None \<Rightarrow> env_Description e)"
  "env_ResourceLimits (apply_patch p e) = (case patch_ResourceLimits p of Some r \<Rightarrow> r | None \<Rightarrow> env_ResourceLimits e)"
  "env_NetworkPolicy (apply_patch p e) = (case patch_NetworkPolicy p of Some x \<Rightarrow> Some x | None \<Rightarrow> env_NetworkPolicy e)"
  "env_ServiceMesh (apply_patch p e) = (case patch_ServiceMesh p of Some x \<Rightarrow> Some x | None \<Rightarrow> env_ServiceMesh e)"
  "env_Monitoring (apply_patch p e) = (case patch_Monitoring p of Some x \<Rightarrow> Some x | None \<Rightarrow> env_Monitoring e)"
  "env_GitOps (apply_patch p e) = (case patch_GitOps p of Some x \<Rightarrow> Some x | None \<Rightarrow> env_GitOps e)"
  "env_Addons (apply_patch p e) = (case patch_Addons p of Some x \<Rightarrow> Some x | None \<Rightarrow> env_Addons e)"
  "env_Tags (apply_patch p e) = (case patch_Tags p of Some x \<Rightarrow> Some x | None \<Rightarrow> env_Tags e)"
  by (simp_all add: apply_patch_def Let_def split: option.splits)


lemma stored_item_key: "stored_item w k = Some i \<Longrightarrow> env_ID (attrs i) = k"
  by (auto simp: stored_item_def item_key_def dest: find_Some_iff [THEN iffD1])

text \<open>
  C7 as stated fails: \<^verbatim>\<open>Status\<close> is not the only field outside the patch that
  \<^verbatim>\<open>UpdateEnvironment\<close> rewrites. The record created above is patched with a description
  and tags, fifty seconds after its creation: the merged record, returned and stored,
  also has a new \<^verbatim>\<open>StatusMessage\<close> and a new \<^verbatim>\<open>UpdatedAt\<close>, two fields that no patch can
  hold.
\<close>

theorem UpdateEnvironment_rewrites_message_counterexample:
  "stored world_created demo_uuid = Some demo_env
   \<and> env_StatusMessage demo_env = ''Environment creation initiated''
   \<and> env_UpdatedAt demo_env = 1700000000
   \<and> fst (UpdateEnvironment demo_handler demo_uuid (Some demo_patch) 1700000050 world_created)
       = Response 200 (EnvBody (demo_env \<lparr> env_Description := ''development cluster'',
                                            env_Tags := Some [(''team'', ''alpha'')],
                                            env_Status := ''UPDATING'',
                                            env_StatusMessage := ''Environment update initiated'',
                                            env_UpdatedAt := 1700000050 \<rparr>))
   \<and> map_option env_StatusMessage
        (stored (fst (snd (UpdateEnvironment demo_handler demo_uuid (Some demo_patch) 1700000050 world_created)))
           demo_uuid)
       = Some ''Environment update initiated''
   \<and> map_option env_UpdatedAt
        (stored (fst (snd (UpdateEnvironment demo_handler demo_uuid (Some demo_patch) 1700000050 world_created)))
           demo_uuid)
       = Some 1700000050"
  by (simp add: UpdateEnvironment_def demo_handler_fields getItem_def world_created_fields putItem_def
        stored_def stored_item_def Let_def demo_env_fields)
     (simp add: apply_patch_def demo_patch_def demo_env_eval demo_uuid_def)

text \<open>
  C7 as amended. On a stored record that is not soft-deleted, \<^verbatim>\<open>UpdateEnvironment\<close> takes
  each of the eight fields of the patch that is present and keeps the record's value
  for each that is absent, leaves ID, Name, TemplateID, UserID, ClusterName, CreatedAt,
  KubeConfig, ConsoleURL and DeletedAt as they were, and sets three fields whatever the
  patch holds: Status to "UPDATING", StatusMessage to "Environment update initiated"
  and UpdatedAt to the time of the call. It writes the merged record under the ID,
  touching no other item, starts the update workflow and answers 200 with the merged
  record. On a soft-deleted record it answers 404 and leaves the world as it was.
\<close>

theorem UpdateEnvironment_partial_merge:
  assumes "validatePatch h patch = None"
      and "db_error w (GetItem envID) = None"
      and "stored_item w envID = Some i" and "decodes i"
      and "m = (apply_patch patch (attrs i))
                 \<lparr> env_UpdatedAt := now, env_Status := ''UPDATING'',
                   env_StatusMessage := ''Environment update initiated'' \<rparr>"
  shows "(env_DeletedAt (attrs i) \<noteq> None \<longrightarrow>
            UpdateEnvironment h envID (Some patch) now w
              = (Response 404 (ErrorBody ''Environment not found''), w, None))
         \<and> (env_DeletedAt (attrs i) = None \<and> marshal_error w m = None \<and> db_error w (PutItem envID) = None \<longrightarrow>
              fst (UpdateEnvironment h envID (Some patch) now w) = Response 200 (EnvBody m)
              \<and> snd (snd (UpdateEnvironment h envID (Some patch) now w)) = Some (UpdateJob m)
              \<and> stored (fst (snd (UpdateEnvironment h envID (Some patch) now w))) envID = Some m
              \<and> (\<forall>k. k \<noteq> envID \<longrightarrow>
                    stored_item (fst (snd (UpdateEnvironment h envID (Some patch) now w))) k = stored_item w k)
              \<and> env_Status m = ''UPDATING''
              \<and> env_StatusMessage m = ''Environment update initiated''
              \<and> env_UpdatedAt m = now
              \<and> env_Description m = (case patch_Description patch of Some d \<Rightarrow> d | None \<Rightarrow> env_Description (attrs i))
              \<and> env_ResourceLimits m = (case patch_ResourceLimits patch of Some r \<Rightarrow> r | None \<Rightarrow> env_ResourceLimits (attrs i))
              \<and> env_NetworkPolicy m = (case patch_NetworkPolicy patch of Some x \<Rightarrow> Some x | None \<Rightarrow> env_NetworkPolicy (attrs i))
              \<and> env_ServiceMesh m = (case patch_ServiceMesh patch of Some x \<Rightarrow> Some x | None \<Rightarrow> env_ServiceMesh (attrs i))
              \<and> env_Monitoring m = (case patch_Monitoring patch of Some x \<Rightarrow> Some x | None \<Rightarrow> env_Monitoring (attrs i))
              \<and> env_GitOps m = (case patch_GitOps patch of Some x \<Rightarrow> Some x | None \<Rightarrow> env_GitOps (attrs i))
              \<and> env_Addons m = (case patch_Addons patch of Some x \<Rightarrow> Some x | None \<Rightarrow> env_Addons (attrs i))
              \<and> env_Tags m = (case patch_Tags patch of Some x \<Rightarrow> Some x | None \<Rightarrow> env_Tags (attrs i))
              \<and> env_ID m = env_ID (attrs i) \<and> env_Name m = env_Name (attrs i)
              \<and> env_TemplateID m = env_TemplateID (attrs i) \<and> env_UserID m = env_UserID (attrs i)
              \<and> env_ClusterName m = env_ClusterName (attrs i) \<and> env_CreatedAt m = env_CreatedAt (attrs i)
              \<and> env_KubeConfig m = env_KubeConfig (attrs i) \<and> env_ConsoleURL m = env_ConsoleURL (attrs i)
              \<and> env_DeletedAt m = env_DeletedAt (attrs i))"
proof (intro conjI impI)
  assume "env_DeletedAt (attrs i) \<noteq> None"
  then show "UpdateEnvironment h envID (Some patch) now w
               = (Response 404 (ErrorBody ''Environment not found''), w, None)"
    using assms(1-4) by (auto simp: UpdateEnvironment_def getItem_def)
next
  assume live: "env_DeletedAt (attrs i) = None \<and> marshal_error w m = None \<and> db_error w (PutItem envID) = None"
  have key: "env_ID m = envID"
    using stored_item_key [OF assms(3)] by (simp add: assms(5) apply_patch_frame)
  have put: "putItem m w = (None, w \<lparr> items := marshalMap m # filter (\<lambda>i. item_key i \<noteq> env_ID m) (items w) \<rparr>)"
    using live key by (simp add: putItem_ok)
  have run: "UpdateEnvironment h envID (Some patch) now w
               = (Response 200 (EnvBody m),
                  w \<lparr> items := marshalMap m # filter (\<lambda>i. item_key i \<noteq> env_ID m) (items w) \<rparr>,
                  Some (UpdateJob m))"
    using assms(1-4) live put
    by (simp add: UpdateEnvironment_def getItem_def assms(5) [symmetric] Let_def)
  have sp: "\<And>k. stored_item (w \<lparr> items := marshalMap m # filter (\<lambda>i. item_key i \<noteq> envID) (items w) \<rparr>) k
                 = (if k = envID then Some (marshalMap m) else stored_item w k)"
    using stored_item_put [where w = w and e = m] key by simp
  show "fst (UpdateEnvironment h envID (Some patch) now w) = Response 200 (EnvBody m)"
    by (simp add: run)
  show "snd (snd (UpdateEnvironment h envID (Some patch) now w)) = Some (UpdateJob m)"
    by (simp add: run)
  show "stored (fst (snd (UpdateEnvironment h envID (Some patch) now w))) envID = Some m"
    by (simp add: run stored_def sp key)
  show "\<forall>k. k \<noteq> envID \<longrightarrow>
          stored_item (fst (snd (UpdateEnvironment h envID (Some patch) now w))) k = stored_item w k"
    by (simp add: run sp key)
qed (simp_all add: assms(5) apply_patch_frame apply_patch_fields)

theorem UpdateEnvironment_partial_merge_witness:
  "fst (UpdateEnvironment demo_handler demo_uuid (Some demo_patch) 1700000050 world_created)
     = Response 200 (EnvBody (demo_env \<lparr> env_Description := ''development cluster'',
                                          env_Tags := Some [(''team'', ''alpha'')],
                                          env_Status := ''UPDATING'',
                                          env_StatusMessage := ''Environment update initiated'',
                                          env_UpdatedAt := 1700000050 \<rparr>))
   \<and> UpdateEnvironment demo_handler demo_uuid (Some demo_patch) 1700000200 world_deleted
       = (Response 404 (ErrorBody ''Environment not found''), world_deleted, None)"
proof -
  let ?d = "demo_env \<lparr> env_Status := ''DELETING'', env_StatusMessage := ''Environment deletion initiated'',
                        env_UpdatedAt := 1700000100, env_DeletedAt := Some 1700000100 \<rparr>"
  have v: "validatePatch demo_handler demo_patch = None" by (simp add: demo_handler_fields)
  have m1: "(apply_patch demo_patch (attrs (marshalMap demo_env)))
               \<lparr> env_UpdatedAt := 1700000050, env_Status := ''UPDATING'',
                 env_StatusMessage := ''Environment update initiated'' \<rparr>
            = demo_env \<lparr> env_Description := ''development cluster'',
                         env_Tags := Some [(''team'', ''alpha'')],
                         env_Status := ''UPDATING'',
                         env_StatusMessage := ''Environment update initiated'',
                         env_UpdatedAt := 1700000050 \<rparr>"
    by (simp add: apply_patch_def demo_patch_def demo_env_eval)
  have live: "fst (UpdateEnvironment demo_handler demo_uuid (Some demo_patch) 1700000050 world_created)
     = Response 200 (EnvBody (demo_env \<lparr> env_Description := ''development cluster'',
                                          env_Tags := Some [(''team'', ''alpha'')],
                                          env_Status := ''UPDATING'',
                                          env_StatusMessage := ''Environment update initiated'',
                                          env_UpdatedAt := 1700000050 \<rparr>))"
    using UpdateEnvironment_partial_merge [OF v _ world_created_fields(5) _ m1 [symmetric]]
    by (simp add: world_created_fields demo_env_fields)
  have s: "stored_item world_deleted demo_uuid = Some (marshalMap ?d)"
    by (simp add: stored_item_def world_deleted_fields demo_env_fields)
  have gone: "UpdateEnvironment demo_handler demo_uuid (Some demo_patch) 1700000200 world_deleted
       = (Response 404 (ErrorBody ''Environment not found''), world_deleted, None)"
    using UpdateEnvironment_partial_merge [OF v _ s _ refl, of 1700000200]
    by (simp add: world_deleted_fields)
  from live gone show ?thesis by simp
qed


section \<open>Facts about the lifecycle workflows\<close>

lemma stored_wlog [simp]: "stored (wlog line w) k = stored w k"
  by (simp add: stored_def)

lemma stored_hst [simp]: "stored (w \<lparr> hst := x \<rparr>) k = stored w k"
  by (simp add: stored_def)

text \<open>
  No workflow changes the table: every write that a workflow makes goes through
  \<^verbatim>\<open>UpdateItem\<close> with an expression that the store refuses.
\<close>

lemma provision_writes_nothing:
  "items (provisionEnvironment tf h now env w) = items w"
  "db_error (provisionEnvironment tf h now env w) = db_error w"
  by (simp_all add: provisionEnvironment_def Let_def final_write_refused configureKubernetesResources_def
        split: prod.splits option.splits sum.splits)

lemma run_job_writes_nothing: "items (run_job tf h now job w) = items w"
  by (cases job) (simp_all add: provision_writes_nothing updateEnvironment_def deleteEnvironment_def)

lemma apply_runs_updateEnvironmentStatus:
  "apply_runs e (hst (updateEnvironmentStatus k status message now w)) = apply_runs e (hst w)"
  by (simp add: updateEnvironmentStatus_refused apply_runs_logf)

text \<open>One run of the provisioning workflow starts \<^verbatim>\<open>terraform apply\<close> at most once.\<close>

lemma provision_apply_once:
  "apply_runs (terraformExecutor h) (hst (provisionEnvironment tf h now env w))
     \<le> apply_runs (terraformExecutor h) (hst w) + 1"
proof -
  let ?e = "terraformExecutor h"
  define w1 where "w1 = updateEnvironmentStatus (env_ID env) ''PROVISIONING'' ''Provisioning resources'' now
                  (wlog (''Provisioning environment: '' @ env_Name env @ '' ('' @ env_ID env @ '')'') w)"
  have s: "apply_runs ?e (hst w1) = apply_runs ?e (hst w)"
    unfolding w1_def by (simp add: apply_runs_updateEnvironmentStatus apply_runs_logf)
  obtain r h2 where ap: "Apply tf ?e (int now) ''aws'' (provision_vars env) (hst w1) = (r, h2)"
    by (cases "Apply tf ?e (int now) ''aws'' (provision_vars env) (hst w1)") auto
  have a: "apply_runs ?e h2 \<le> apply_runs ?e (hst w) + 1"
    using apply_runs_Apply [of ?e tf "int now" "''aws''" "provision_vars env" "hst w1"] ap s by simp
  show ?thesis
    unfolding provisionEnvironment_def Let_def w1_def [symmetric] ap
    using a
    by (simp add: apply_runs_updateEnvironmentStatus apply_runs_logf configureKubernetesResources_def
          final_write_refused split: option.splits sum.splits)
qed

section \<open>The workflow on concrete inputs\<close>

lemma provision_vars_demo: "var_cluster_name (provision_vars demo_env) = ''env-3f2b8c1e''"
  by (simp add: provision_vars_def demo_env_fields)

lemma workDir_now: "workDirName ''aws'' (int 1700000000) = ''aws-1700000000''"
  using workDir_A by simp

lemma module_path_eval: "path_join [''../provisioning'', ''aws''] = ''../provisioning/aws''"
  by code_simp

lemma stub_Apply:
  "Apply (stub_terraform outs) (NewExecutor ''../provisioning'') 1700000000 ''aws'' (provision_vars demo_env)
     (fresh_host \<lparr> stdlog := lines \<rparr>)
   = (None, \<lparr> state_dir = Some [(''aws-1700000000'', Dir [(''terraform.tfvars.json'', ''env-3f2b8c1e'')])],
              os_error = (\<lambda>_. None),
              stdlog = lines @
                       [''Running Terraform command: terraform init -no-color ../provisioning/aws'',
                        ''Terraform command succeeded'',
                        ''Running Terraform command: terraform apply -no-color -auto-approve -var-file=terraform.tfvars.json'',
                        ''Terraform command succeeded''] \<rparr>)"
  by (simp add: Apply_def mkdirAll_def writeFile_def runCommand_def lookup_node_def put_node_def
        dir_files_def set_file_def logf_def stub_terraform_def NewExecutor_def fresh_host_def
        workDir_A provision_vars_demo module_path_eval)

lemma failing_Apply:
  "Apply failing_terraform (NewExecutor ''../provisioning'') 1700000000 ''aws'' (provision_vars demo_env)
     (fresh_host \<lparr> stdlog := lines \<rparr>)
   = (Some ''terraform init failed: terraform command failed: exit status 1, stderr: Error: no credentials'',
      \<lparr> state_dir = Some [(''aws-1700000000'', Dir [(''terraform.tfvars.json'', ''env-3f2b8c1e'')])],
        os_error = (\<lambda>_. None),
        stdlog = lines @
                 [''Running Terraform command: terraform init -no-color ../provisioning/aws'',
                  ''Terraform command failed: exit status 1'',
                  ''Stderr: Error: no credentials''] \<rparr>)"
  by (simp add: Apply_def mkdirAll_def writeFile_def runCommand_def lookup_node_def put_node_def
        dir_files_def set_file_def logf_def failing_terraform_def NewExecutor_def fresh_host_def
        workDir_A provision_vars_demo module_path_eval)

lemma GetOutputs_single:
  assumes "state_dir h2 = Some [(''aws-1700000000'', Dir fs)]" and "os_error h2 = (\<lambda>_. None)"
  shows "GetOutputs tf e ''aws'' h2 =
           (case fst (tf_run tf [''output'', ''-no-color'', ''-json''] fs) of
              Inl (err, stderr) \<Rightarrow> Inl (OutputFailed err stderr)
            | Inr out \<Rightarrow> (case parseOutputs tf out of
                            Inl err \<Rightarrow> Inl (ParseFailed err)
                          | Inr outputs \<Rightarrow> Inr outputs))"
  using assms
  by (simp add: GetOutputs_def readDir_def findLatest_def latest_step_stamp stamp_eval
        dir_files_def lookup_node_def)

lemma world_failed_eval:
  "items world_failed = [marshalMap demo_env]"
  "stdlog (hst world_failed) =
     [''Provisioning environment: dev-env (3f2b8c1e-7a4d-4e9b-9c1a-5d6e7f8091a2)'',
      ''Failed to update environment status: '' @ status_refusal,
      ''Running Terraform command: terraform init -no-color ../provisioning/aws'',
      ''Terraform command failed: exit status 1'',
      ''Stderr: Error: no credentials'',
      ''Failed to provision environment: terraform init failed: terraform command failed: exit status 1, stderr: Error: no credentials'',
      ''Failed to update environment status: '' @ status_refusal]"
proof -
  show "items world_failed = [marshalMap demo_env]"
    by (simp add: world_failed_def provision_writes_nothing world_created_fields)
  show "stdlog (hst world_failed) =
     [''Provisioning environment: dev-env (3f2b8c1e-7a4d-4e9b-9c1a-5d6e7f8091a2)'',
      ''Failed to update environment status: '' @ status_refusal,
      ''Running Terraform command: terraform init -no-color ../provisioning/aws'',
      ''Terraform command failed: exit status 1'',
      ''Stderr: Error: no credentials'',
      ''Failed to provision environment: terraform init failed: terraform command failed: exit status 1, stderr: Error: no credentials'',
      ''Failed to update environment status: '' @ status_refusal]"
    unfolding world_failed_def run_job.simps provisionEnvironment_def Let_def
    by (simp add: updateEnvironmentStatus_refused world_created_fields
          demo_handler_fields failing_Apply logf_def demo_env_fields)
       (simp add: demo_uuid_def fresh_host_def)
qed

lemma world_provisioned_eval:
  "items world_provisioned = [marshalMap demo_env]"
  "state_dir (hst world_provisioned)
     = Some [(''aws-1700000000'', Dir [(''terraform.tfvars.json'', ''env-3f2b8c1e'')])]"
  "os_error (hst world_provisioned) = (\<lambda>_. None)"
  "stdlog (hst world_provisioned) =
     [''Provisioning environment: dev-env (3f2b8c1e-7a4d-4e9b-9c1a-5d6e7f8091a2)'',
      ''Failed to update environment status: '' @ status_refusal,
      ''Running Terraform command: terraform init -no-color ../provisioning/aws'',
      ''Terraform command succeeded'',
      ''Running Terraform command: terraform apply -no-color -auto-approve -var-file=terraform.tfvars.json'',
      ''Terraform command succeeded'',
      ''Failed to update environment: '' @ status_refusal]"
proof -
  have go: "\<And>lines. GetOutputs (stub_terraform good_outputs) (NewExecutor ''../provisioning'') ''aws''
              \<lparr> state_dir = Some [(''aws-1700000000'', Dir [(''terraform.tfvars.json'', ''env-3f2b8c1e'')])],
                os_error = (\<lambda>_. None), stdlog = lines \<rparr> = Inr good_outputs"
    by (simp add: GetOutputs_single stub_terraform_def)
  have kc: "output_string good_outputs ''kubeconfig'' = Some ''apiVersion: v1''"
           "output_string good_outputs ''console_url'' = Some ''https://console.example''"
    by (simp_all add: output_string_def good_outputs_def)
  have run: "world_provisioned =
     wlog (''Failed to update environment: '' @ status_refusal)
       (world_created \<lparr> hst :=
          \<lparr> state_dir = Some [(''aws-1700000000'', Dir [(''terraform.tfvars.json'', ''env-3f2b8c1e'')])],
            os_error = (\<lambda>_. None),
            stdlog = [''Provisioning environment: dev-env (3f2b8c1e-7a4d-4e9b-9c1a-5d6e7f8091a2)'',
                      ''Failed to update environment status: '' @ status_refusal,
                      ''Running Terraform command: terraform init -no-color ../provisioning/aws'',
                      ''Terraform command succeeded'',
                      ''Running Terraform command: terraform apply -no-color -auto-approve -var-file=terraform.tfvars.json'',
                      ''Terraform command succeeded''] \<rparr> \<rparr>)"
    unfolding world_provisioned_def run_job.simps provisionEnvironment_def Let_def
    by (simp add: updateEnvironmentStatus_refused world_created_fields
          demo_handler_fields stub_Apply go kc configureKubernetesResources_def final_write_refused
          demo_env_fields wlog_def logf_def demo_uuid_def)
       (simp add: fresh_host_def)
  show "items world_provisioned = [marshalMap demo_env]"
    by (simp add: run world_created_fields)
  show "state_dir (hst world_provisioned)
     = Some [(''aws-1700000000'', Dir [(''terraform.tfvars.json'', ''env-3f2b8c1e'')])]"
    by (simp add: run logf_def)
  show "os_error (hst world_provisioned) = (\<lambda>_. None)"
    by (simp add: run logf_def)
  show "stdlog (hst world_provisioned) =
     [''Provisioning environment: dev-env (3f2b8c1e-7a4d-4e9b-9c1a-5d6e7f8091a2)'',
      ''Failed to update environment status: '' @ status_refusal,
      ''Running Terraform command: terraform init -no-color ../provisioning/aws'',
      ''Terraform command succeeded'',
      ''Running Terraform command: terraform apply -no-color -auto-approve -var-file=terraform.tfvars.json'',
      ''Terraform command succeeded'',
      ''Failed to update environment: '' @ status_refusal]"
    by (simp add: run logf_def)
qed

section \<open>Claims about creation and the lifecycle workflows\<close>

text \<open>What \<^verbatim>\<open>CreateEnvironment\<close> stores and returns for a request that passes the validator.\<close>

lemma CreateEnvironment_persists:
  assumes "validateRequest h envRequest = None" and "8 \<le> length envID"
      and "marshal_error w (new_environment envRequest envID now) = None"
      and "db_error w (PutItem envID) = None"
      and "e = new_environment envRequest envID now"
  shows "fst (CreateEnvironment h (Some envRequest) envID now w) = Some (Response 201 (EnvBody e))"
    and "snd (snd (CreateEnvironment h (Some envRequest) envID now w)) = Some (ProvisionJob e)"
    and "stored (fst (snd (CreateEnvironment h (Some envRequest) envID now w))) envID = Some e"
    and "k \<noteq> envID \<Longrightarrow> stored_item (fst (snd (CreateEnvironment h (Some envRequest) envID now w))) k = stored_item w k"
    and "env_ID e = envID" and "env_Status e = ''CREATING''" and "env_ClusterName e = ''env-'' @ take 8 envID"
proof -
  have key: "env_ID e = envID" by (simp add: assms(5) new_environment_def)
  have run: "CreateEnvironment h (Some envRequest) envID now w
               = (Some (Response 201 (EnvBody e)),
                  w \<lparr> items := marshalMap e # filter (\<lambda>i. item_key i \<noteq> env_ID e) (items w) \<rparr>,
                  Some (ProvisionJob e))"
    using assms(1-4) key
    by (simp add: CreateEnvironment_def assms(5) [symmetric] putItem_def Let_def)
  have sp: "\<And>k. stored_item (w \<lparr> items := marshalMap e # filter (\<lambda>i. item_key i \<noteq> envID) (items w) \<rparr>) k
                 = (if k = envID then Some (marshalMap e) else stored_item w k)"
    using stored_item_put [where w = w and e = e] key by simp
  show "fst (CreateEnvironment h (Some envRequest) envID now w) = Some (Response 201 (EnvBody e))"
    by (simp add: run)
  show "snd (snd (CreateEnvironment h (Some envRequest) envID now w)) = Some (ProvisionJob e)"
    by (simp add: run)
  show "stored (fst (snd (CreateEnvironment h (Some envRequest) envID now w))) envID = Some e"
    by (simp add: run stored_def sp key)
  show "stored_item (fst (snd (CreateEnvironment h (Some envRequest) envID now w))) k = stored_item w k"
    if "k \<noteq> envID"
    using that by (simp add: run sp key)
  show "env_ID e = envID" by (rule key)
  show "env_Status e = ''CREATING''" by (simp add: assms(5) new_environment_def)
  show "env_ClusterName e = ''env-'' @ take 8 envID" by (simp add: assms(5) new_environment_def)
qed

text \<open>
  C4. The code does not do what the claim says after the workflow. The environment
  "dev-env" of the specification's scenario is created on an empty table: the record
  is stored and returned with its ID, Status "CREATING" and ClusterName
  "env-3f2b8c1e". The provisioning workflow then runs and Terraform succeeds, listing
  a kubeconfig. The last write of the workflow, which would set \<^verbatim>\<open>KubeConfig\<close> and
  Status "ACTIVE", names \<^verbatim>\<open>Status\<close> as it is in its update expression and is refused by
  the store, as the write of "PROVISIONING" before it; the workflow logs the failure
  and ends. The stored record is still the one that was created: Status "CREATING",
  empty \<^verbatim>\<open>KubeConfig\<close>.
\<close>

theorem provision_success_not_recorded:
  "CreateEnvironment demo_handler (Some demo_request) demo_uuid 1700000000 empty_world
     = (Some (Response 201 (EnvBody demo_env)), world_created, Some (ProvisionJob demo_env))
   \<and> stored world_created demo_uuid = Some demo_env
   \<and> env_ID demo_env = demo_uuid
   \<and> env_Status demo_env = ''CREATING''
   \<and> env_ClusterName demo_env = ''env-'' @ take 8 demo_uuid
   \<and> env_KubeConfig demo_env = []
   \<and> GetOutputs (stub_terraform good_outputs) (terraformExecutor demo_handler) ''aws'' (hst world_provisioned)
       = Inr good_outputs
   \<and> output_string good_outputs ''kubeconfig'' = Some ''apiVersion: v1''
   \<and> stored world_provisioned demo_uuid = Some demo_env
   \<and> stdlog (hst world_provisioned) =
       [''Provisioning environment: dev-env (3f2b8c1e-7a4d-4e9b-9c1a-5d6e7f8091a2)'',
        ''Failed to update environment status: '' @ status_refusal,
        ''Running Terraform command: terraform init -no-color ../provisioning/aws'',
        ''Terraform command succeeded'',
        ''Running Terraform command: terraform apply -no-color -auto-approve -var-file=terraform.tfvars.json'',
        ''Terraform command succeeded'',
        ''Failed to update environment: '' @ status_refusal]"
proof -
  have c: "CreateEnvironment demo_handler (Some demo_request) demo_uuid 1700000000 empty_world
     = (Some (Response 201 (EnvBody demo_env)), world_created, Some (ProvisionJob demo_env))"
    by (simp add: create_eval world_created_eval)
  have s: "stored world_created demo_uuid = Some demo_env"
    by (simp add: stored_def world_created_fields)
  have f: "env_ID demo_env = demo_uuid" "env_Status demo_env = ''CREATING''"
          "env_ClusterName demo_env = ''env-'' @ take 8 demo_uuid" "env_KubeConfig demo_env = []"
    by (simp_all add: demo_env_eval demo_uuid_def)
  have g: "GetOutputs (stub_terraform good_outputs) (terraformExecutor demo_handler) ''aws'' (hst world_provisioned)
             = Inr good_outputs"
    using GetOutputs_single [OF world_provisioned_eval(2,3), of "stub_terraform good_outputs"
            "terraformExecutor demo_handler"]
    by (simp add: stub_terraform_def)
  have k: "output_string good_outputs ''kubeconfig'' = Some ''apiVersion: v1''"
    by (simp add: output_string_def good_outputs_def)
  have p: "stored world_provisioned demo_uuid = Some demo_env"
    by (simp add: stored_def stored_item_def world_provisioned_eval(1) demo_env_fields)
  from c s f g k p world_provisioned_eval(4) show ?thesis by simp
qed

text \<open>
  C5. The code does not do what the claim says when a step fails. The environment
  created above is provisioned and Terraform fails at its first command. The workflow
  logs the failure and calls \<^verbatim>\<open>updateEnvironmentStatus\<close> with "ERROR" and the message; the
  update expression names \<^verbatim>\<open>Status\<close> as it is and the store refuses it, which the
  function only logs. The stored record is still the one that was created, with Status
  "CREATING" and the message of the creation. (The workflow does not run Terraform
  again, and the HTTP operation had answered before it started.)
\<close>

theorem provision_failure_not_recorded:
  "stored world_created demo_uuid = Some demo_env
   \<and> env_Status demo_env = ''CREATING''
   \<and> env_StatusMessage demo_env = ''Environment creation initiated''
   \<and> stored world_failed demo_uuid = Some demo_env
   \<and> stdlog (hst world_failed) =
       [''Provisioning environment: dev-env (3f2b8c1e-7a4d-4e9b-9c1a-5d6e7f8091a2)'',
        ''Failed to update environment status: '' @ status_refusal,
        ''Running Terraform command: terraform init -no-color ../provisioning/aws'',
        ''Terraform command failed: exit status 1'',
        ''Stderr: Error: no credentials'',
        ''Failed to provision environment: terraform init failed: terraform command failed: exit status 1, stderr: Error: no credentials'',
        ''Failed to update environment status: '' @ status_refusal]"
proof -
  have s: "stored world_created demo_uuid = Some demo_env"
    by (simp add: stored_def world_created_fields)
  have f: "env_Status demo_env = ''CREATING''" "env_StatusMessage demo_env = ''Environment creation initiated''"
    by (simp_all add: demo_env_eval)
  have p: "stored world_failed demo_uuid = Some demo_env"
    by (simp add: stored_def stored_item_def world_failed_eval(1) demo_env_fields)
  from s f p world_failed_eval(2) show ?thesis by simp
qed

section \<open>Facts about the cluster calls\<close>

lemma klogf_fields [simp]:
  "objects (klogf line cl) = objects cl" "api_fault (klogf line cl) = api_fault cl"
  "calls (klogf line cl) = calls cl" "klog (klogf line cl) = klog cl @ [line]"
  by (simp_all add: klogf_def)

lemma kube_get_state [simp]:
  "objects (snd (kube_get k cl)) = objects cl" "api_fault (snd (kube_get k cl)) = api_fault cl"
  "calls (snd (kube_get k cl)) = calls cl @ [(Get, k)]" "klog (snd (kube_get k cl)) = klog cl"
  by (simp_all add: kube_get_def Let_def split: option.splits)

lemma kube_get_result:
  "fst (kube_get k cl) =
     (case api_fault cl (Get, k) of
        Some m \<Rightarrow> Inl (Failure m)
      | None \<Rightarrow> (case objects cl k of None \<Rightarrow> Inl NotFound | Some ob \<Rightarrow> Inr ob))"
  by (simp add: kube_get_def Let_def split: option.splits)

lemma kube_get_NotFound: "fst (kube_get k cl) = Inl NotFound \<Longrightarrow> objects cl k = None"
  by (simp add: kube_get_result split: option.splits)

lemma kube_get_found: "fst (kube_get k cl) = Inr ob \<Longrightarrow> objects cl k = Some ob"
  by (simp add: kube_get_result split: option.splits)

lemma kube_create_state [simp]:
  "api_fault (snd (kube_create k ob cl)) = api_fault cl"
  "calls (snd (kube_create k ob cl)) = calls cl @ [(Create, k)]"
  "klog (snd (kube_create k ob cl)) = klog cl"
  by (simp_all add: kube_create_def Let_def split: option.splits)

lemma kube_create_objects:
  "objects (snd (kube_create k ob cl)) =
     (if fst (kube_create k ob cl) = None then (objects cl)(k \<mapsto> ob) else objects cl)"
  by (simp add: kube_create_def Let_def split: option.splits)

lemma kube_create_ok: "fst (kube_create k ob cl) = None \<Longrightarrow> objects cl k = None"
  by (simp add: kube_create_def Let_def split: option.splits)

lemma kube_update_state [simp]:
  "api_fault (snd (kube_update k ob cl)) = api_fault cl"
  "calls (snd (kube_update k ob cl)) = calls cl @ [(Update, k)]"
  "klog (snd (kube_update k ob cl)) = klog cl"
  by (simp_all add: kube_update_def Let_def split: option.splits)

lemma kube_update_objects:
  "objects (snd (kube_update k ob cl)) =
     (if fst (kube_update k ob cl) = None then (objects cl)(k \<mapsto> ob) else objects cl)"
  by (simp add: kube_update_def Let_def split: option.splits)

lemma kube_update_ok: "fst (kube_update k ob cl) = None \<Longrightarrow> objects cl k \<noteq> None"
  by (simp add: kube_update_def Let_def split: option.splits)

section \<open>How the controller moves the cluster\<close>

lemma evolves_refl [simp]: "evolves T cl cl"
  by (simp add: evolves_def)

lemma evolves_trans:
  assumes "evolves T1 a b" and "evolves T2 b c"
  shows "evolves (T1 \<union> T2) a c"
proof -
  have "prefix (calls a) (calls c)"
    using assms unfolding evolves_def by (blast intro: prefix_order.trans)
  moreover have "api_fault c = api_fault a"
    using assms unfolding evolves_def by simp
  moreover have "\<forall>k. objects a k \<noteq> None \<longrightarrow> objects c k \<noteq> None"
    using assms unfolding evolves_def by blast
  moreover have "\<forall>k ob. k \<notin> T1 \<union> T2 \<longrightarrow> objects a k = Some ob \<longrightarrow> objects c k = Some ob"
    using assms unfolding evolves_def by blast
  ultimately show ?thesis unfolding evolves_def by blast
qed

lemma evolves_mono: "evolves T a b \<Longrightarrow> T \<subseteq> T' \<Longrightarrow> evolves T' a b"
  unfolding evolves_def by blast

lemma evolves_trans_same:
  "evolves T a b \<Longrightarrow> evolves T b c \<Longrightarrow> evolves T a c"
  using evolves_trans [of T a b T c] by simp

lemma evolves_klogf_right: "evolves T a b \<Longrightarrow> evolves T a (klogf line b)"
  by (simp add: evolves_def)

lemma evolves_get: "evolves T cl (snd (kube_get k cl))"
  by (simp add: evolves_def)

lemma evolves_create: "evolves T cl (snd (kube_create k ob cl))"
proof (cases "api_fault cl (Create, k)")
  case (Some m)
  then show ?thesis by (simp add: evolves_def kube_create_def)
next
  case None
  show ?thesis
  proof (cases "objects cl k = None")
    case False
    with None show ?thesis by (auto simp: evolves_def kube_create_def)
  next
    case True
    then have "\<And>k'. objects cl k' \<noteq> None \<Longrightarrow> k' \<noteq> k" by auto
    with None True show ?thesis
      unfolding evolves_def kube_create_def Let_def by simp
  qed
qed

lemma evolves_update: "k \<in> T \<Longrightarrow> evolves T cl (snd (kube_update k ob cl))"
  unfolding evolves_def by (simp add: kube_update_objects)

text \<open>
  The way the functions chain their steps: the first error is returned (behind a
  prefix or as it is), otherwise the next step runs.
\<close>

lemma evolves_seq:
  assumes "evolves T a (snd p)" and "\<And>x. evolves T x (snd (g x))"
  shows "evolves T a (snd (case p of (Some f, x) \<Rightarrow> (Some (w f), x) | (None, x) \<Rightarrow> g x))"
proof (cases p)
  case (Pair r x)
  show ?thesis
  proof (cases r)
    case None
    with Pair assms(1) assms(2) [of x] show ?thesis by (simp add: evolves_trans_same)
  next
    case (Some f)
    with Pair assms(1) show ?thesis by simp
  qed
qed

lemma evolves_seq_id:
  assumes "evolves T a (snd p)" and "\<And>x. evolves T x (snd (g x))"
  shows "evolves T a (snd (case p of (Some f, x) \<Rightarrow> (Some f, x) | (None, x) \<Rightarrow> g x))"
  using evolves_seq [where w = "\<lambda>f. f", OF assms] by simp

lemma evolves_ensureObject: "evolves T cl (snd (ensureObject key ob what created cl))"
proof -
  obtain r1 cl1 where g: "kube_get key cl = (r1, cl1)" by (cases "kube_get key cl") auto
  obtain r2 cl2 where c: "kube_create key ob cl1 = (r2, cl2)" by (cases "kube_create key ob cl1") auto
  have e1: "evolves T cl cl1" using evolves_get [of T cl key] g by simp
  have e2: "evolves T cl1 cl2" using evolves_create [of T cl1 key ob] c by simp
  have e12: "evolves T cl cl2" using e1 e2 by (rule evolves_trans_same)
  show ?thesis
    unfolding ensureObject_def g
    using c e1 e12
    by (cases r1; cases r2) (simp_all add: evolves_klogf_right)
qed

lemma evolves_ensureCIDRPolicies: "evolves T cl (snd (ensureCIDRPolicies namespace i cidrs cl))"
proof (induction cidrs arbitrary: i cl)
  case Nil
  then show ?case by simp
next
  case (Cons cidr rest)
  show ?case
    unfolding ensureCIDRPolicies.simps
    by (rule evolves_seq_id) (rule evolves_ensureObject, rule Cons.IH)
qed

lemma evolves_when:
  "evolves T cl (snd (if b then ensureObject key ob what created cl else (None, cl)))"
  by (simp add: evolves_ensureObject)

lemma evolves_ensureNetworkPolicies: "evolves T cl (snd (ensureNetworkPolicies namespace policy cl))"
  unfolding ensureNetworkPolicies_def
  by (intro evolves_seq_id evolves_when evolves_ensureCIDRPolicies)

lemma evolves_ensureRBAC: "evolves T cl (snd (ensureRBAC namespace ownerID cl))"
  unfolding ensureRBAC_def by (rule evolves_ensureObject)

lemma evolves_ensureNamespace: "evolves T cl (snd (ensureNamespace c name tenant cl))"
proof -
  let ?k = "(NamespaceKind, [], name)"
  let ?ns = "\<lparr> labels = [''tenant'' \<mapsto> tenant_Name tenant,
                             ''tenant-id'' \<mapsto> tenant_ID tenant,
                             ''owner-id'' \<mapsto> tenant_OwnerID tenant,
                             ''managed-by'' \<mapsto> ''tenant-controller'',
                             ''cluster-name'' \<mapsto> clusterName c],
                spec = NamespaceSpec \<rparr> :: 'a kobject"
  obtain r1 cl1 where g: "kube_get ?k cl = (r1, cl1)" by (cases "kube_get ?k cl") auto
  obtain r2 cl2 where cr: "kube_create ?k ?ns cl1 = (r2, cl2)" by (cases "kube_create ?k ?ns cl1") auto
  have e1: "evolves T cl cl1" using evolves_get [of T cl ?k] g by simp
  have "evolves T cl1 cl2" using evolves_create [of T cl1 ?k ?ns] cr by simp
  with e1 have e2: "evolves T cl cl2" by (rule evolves_trans_same)
  show ?thesis
  proof (cases r1)
    case (Inr ob)
    with g e1 show ?thesis by (simp add: ensureNamespace_def)
  next
    case (Inl err)
    show ?thesis
    proof (cases "err = NotFound")
      case False
      with Inl g e1 show ?thesis by (simp add: ensureNamespace_def)
    next
      case True
      with Inl g cr e2 show ?thesis
        by (cases r2) (simp_all add: ensureNamespace_def evolves_klogf_right)
    qed
  qed
qed

lemma evolves_ensureResourceQuota:
  "evolves {(ResourceQuotaKind, namespace, ''tenant-quota'')} cl (snd (ensureResourceQuota c namespace limits cl))"
proof (cases "quota_hard c limits")
  case (Inl s)
  then show ?thesis by (simp add: ensureResourceQuota_def)
next
  case (Inr hard)
  let ?k = "(ResourceQuotaKind, namespace, ''tenant-quota'')"
  let ?T = "{?k}"
  let ?q = "\<lparr> labels = [''managed-by'' \<mapsto> ''tenant-controller''], spec = QuotaSpec hard \<rparr>"
  obtain r1 cl1 where g: "kube_get ?k cl = (r1, cl1)" by (cases "kube_get ?k cl") auto
  obtain r2 cl2 where cr: "kube_create ?k ?q cl1 = (r2, cl2)" by (cases "kube_create ?k ?q cl1") auto
  obtain r3 cl3 where up: "kube_update ?k ?q cl1 = (r3, cl3)" by (cases "kube_update ?k ?q cl1") auto
  have e1: "evolves ?T cl cl1" using evolves_get [of ?T cl ?k] g by simp
  have "evolves ?T cl1 cl2" using evolves_create [of ?T cl1 ?k ?q] cr by simp
  with e1 have e2: "evolves ?T cl cl2" by (rule evolves_trans_same)
  have "evolves ?T cl1 cl3" using evolves_update [of ?k ?T cl1 ?q] up by simp
  with e1 have e3: "evolves ?T cl cl3" by (rule evolves_trans_same)
  show ?thesis
  proof (cases r1)
    case found: (Inr ob)
    with Inr g up e3 show ?thesis
      by (cases r3) (simp_all add: ensureResourceQuota_def evolves_klogf_right)
  next
    case (Inl err)
    show ?thesis
    proof (cases "err = NotFound")
      case False
      with Inl Inr g e1 show ?thesis by (simp add: ensureResourceQuota_def)
    next
      case True
      with Inl Inr g cr e2 show ?thesis
        by (cases r2) (simp_all add: ensureResourceQuota_def evolves_klogf_right)
    qed
  qed
qed

lemma evolves_ensureServiceMesh:
  "evolves {(NamespaceKind, [], namespace)} cl (snd (ensureServiceMesh namespace cl))"
proof -
  let ?k = "(NamespaceKind, [], namespace)"
  let ?T = "{?k}"
  obtain r1 cl1 where g: "kube_get ?k cl = (r1, cl1)" by (cases "kube_get ?k cl") auto
  have e1: "evolves ?T cl cl1" using evolves_get [of ?T cl ?k] g by simp
  show ?thesis
  proof (cases r1)
    case (Inl err)
    with g e1 show ?thesis by (simp add: ensureServiceMesh_def)
  next
    case (Inr ns)
    let ?ns = "ns \<lparr> labels := (labels ns)(''istio-injection'' \<mapsto> ''enabled'') \<rparr>"
    obtain r3 cl3 where up: "kube_update ?k ?ns cl1 = (r3, cl3)" by (cases "kube_update ?k ?ns cl1") auto
    have "evolves ?T cl1 cl3" using evolves_update [of ?k ?T cl1 ?ns] up by simp
    with e1 have e3: "evolves ?T cl cl3" by (rule evolves_trans_same)
    from Inr g up e3 show ?thesis
      by (cases r3) (simp_all add: ensureServiceMesh_def evolves_klogf_right)
  qed
qed

lemma evolves_processNamespace:
  "evolves (written_keys namespace) cl (snd (processNamespace c tenant namespace cl))"
proof -
  let ?T = "written_keys namespace"
  have q: "\<And>x. evolves ?T x (snd (ensureResourceQuota c namespace (tenant_ResourceLimits tenant) x))"
    by (rule evolves_mono [OF evolves_ensureResourceQuota]) (simp add: written_keys_def)
  have m: "\<And>x. evolves ?T x (snd (if tenant_ServiceMeshEnable tenant then
              (case ensureServiceMesh namespace x of
                 (Some f, cl5) \<Rightarrow> (Some (wrap (''failed to ensure service mesh for namespace '' @ namespace @ '': '') f), cl5)
               | (None, cl5) \<Rightarrow> (None, cl5))
              else (None, x)))"
  proof -
    fix x
    have "evolves ?T x (snd (ensureServiceMesh namespace x))"
      by (rule evolves_mono [OF evolves_ensureServiceMesh]) (simp add: written_keys_def)
    then show "evolves ?T x (snd (if tenant_ServiceMeshEnable tenant then
              (case ensureServiceMesh namespace x of
                 (Some f, cl5) \<Rightarrow> (Some (wrap (''failed to ensure service mesh for namespace '' @ namespace @ '': '') f), cl5)
               | (None, cl5) \<Rightarrow> (None, cl5))
              else (None, x)))"
      by (auto split: prod.splits option.splits)
  qed
  show ?thesis
    unfolding processNamespace_def
    by (intro evolves_seq evolves_ensureNamespace q evolves_ensureNetworkPolicies evolves_ensureRBAC m)
qed

lemma evolves_processNamespaces:
  "evolves (\<Union>n \<in> set nss. written_keys n) cl (snd (processNamespaces c tenant nss cl))"
proof (induction nss arbitrary: cl)
  case Nil
  then show ?case by simp
next
  case (Cons n rest)
  let ?T = "\<Union>m \<in> set (n # rest). written_keys m"
  have a: "\<And>x. evolves ?T x (snd (processNamespace c tenant n x))"
    by (rule evolves_mono [OF evolves_processNamespace]) auto
  have b: "\<And>x. evolves ?T x (snd (processNamespaces c tenant rest x))"
    by (rule evolves_mono [OF Cons.IH]) auto
  show ?case
    unfolding processNamespaces.simps
    by (rule evolves_seq_id) (rule a, rule b)
qed

lemma written_keys_rewritable: "written_keys n \<subseteq> rewritable"
  by (auto simp: written_keys_def rewritable_def)

lemma evolves_processTenant: "evolves rewritable cl (snd (processTenant c tenant cl))"
  unfolding processTenant_def
  by (rule evolves_mono [OF evolves_processNamespaces]) (use written_keys_rewritable in auto)

lemma evolves_tenant_step: "evolves rewritable cl (tenant_step c cl tenant)"
proof -
  obtain r cl1 where p: "processTenant c tenant cl = (r, cl1)" by (cases "processTenant c tenant cl") auto
  have "evolves rewritable cl cl1" using evolves_processTenant [of cl c tenant] p by simp
  with p show ?thesis
    by (auto simp: tenant_step_def evolves_klogf_right split: option.splits failure.splits)
qed




section \<open>The controller on concrete inputs\<close>

lemmas ctl_eval = processTenant_def processNamespaces.simps processNamespace_def ensureNamespace_def
  ensureResourceQuota_def quota_hard_def ensureNetworkPolicies_def ensureObject_def ensureRBAC_def
  ensureServiceMesh_def ensureCIDRPolicies.simps kube_get_def kube_create_def kube_update_def klogf_def Let_def

lemma small_tenant_eval:
  "small_tenant =
     \<lparr> tenant_ID = ''tenant-1'', tenant_Name = ''team-alpha'', tenant_OwnerID = ''user-1'',
       tenant_Namespaces = [''team-alpha-dev''],
       tenant_ResourceLimits = \<lparr> tl_CPU = ''8'', tl_Memory = ''16Gi'', tl_Storage = ''100Gi'',
                                  tl_Pods = 20, tl_Services = 10, tl_Endpoints = 100 \<rparr>,
       tenant_NetworkPolicy = \<lparr> tnp_AllowIngressFromCIDR = [''10.0.0.0/8''],
                                 tnp_AllowEgressToCIDR = [''0.0.0.0/0''],
                                 tnp_DefaultDenyIngress = True, tnp_DefaultDenyEgress = False,
                                 tnp_AllowIntraNamespace = True, tnp_AllowCrossNamespace = False,
                                 tnp_AllowExternalServices = [] \<rparr>,
       tenant_ServiceMeshEnable = True \<rparr>"
  by (simp add: small_tenant_def mock_tenants_def)

lemma first_pass_eval:
  "fst (processTenant demo_controller small_tenant empty_cluster) = None"
  "calls first_pass =
     [(Get, (NamespaceKind, [], ''team-alpha-dev'')), (Create, (NamespaceKind, [], ''team-alpha-dev'')),
      (Get, (ResourceQuotaKind, ''team-alpha-dev'', ''tenant-quota'')),
      (Create, (ResourceQuotaKind, ''team-alpha-dev'', ''tenant-quota'')),
      (Get, (NetworkPolicyKind, ''team-alpha-dev'', ''default-deny-ingress'')),
      (Create, (NetworkPolicyKind, ''team-alpha-dev'', ''default-deny-ingress'')),
      (Get, (NetworkPolicyKind, ''team-alpha-dev'', ''allow-intra-namespace'')),
      (Create, (NetworkPolicyKind, ''team-alpha-dev'', ''allow-intra-namespace'')),
      (Get, (NetworkPolicyKind, ''team-alpha-dev'', ''allow-ingress-cidr-0'')),
      (Create, (NetworkPolicyKind, ''team-alpha-dev'', ''allow-ingress-cidr-0'')),
      (Get, (RoleBindingKind, ''team-alpha-dev'', ''tenant-owner'')),
      (Create, (RoleBindingKind, ''team-alpha-dev'', ''tenant-owner'')),
      (Get, (NamespaceKind, [], ''team-alpha-dev'')), (Update, (NamespaceKind, [], ''team-alpha-dev''))]"
  "map_option spec (objects first_pass (NetworkPolicyKind, ''team-alpha-dev'', ''allow-ingress-cidr-0''))
     = Some (NetworkPolicySpec [] [[IPBlockPeer ''10.0.0.0/8'']])"
  unfolding first_pass_def
  by (simp_all add: ctl_eval small_tenant_eval demo_controller_def empty_cluster_def show_eval)

section \<open>Claims about the tenant controller\<close>





section \<open>Errors, panics and the order of calls\<close>

lemma wrap_Panic: "wrap p f = Panic m \<Longrightarrow> f = Panic m"
  by (cases f) simp_all

lemma no_panic_seq:
  assumes "fst p \<noteq> Some (Panic m)" and "\<And>x. fst (g x) \<noteq> Some (Panic m)"
  shows "fst (case p of (Some f, x) \<Rightarrow> (Some (wrap pre f), x) | (None, x) \<Rightarrow> g x) \<noteq> Some (Panic m)"
proof (cases p)
  case (Pair r x)
  show ?thesis
  proof (cases r)
    case None
    with Pair assms(2) [of x] show ?thesis by simp
  next
    case (Some f)
    with Pair assms(1) show ?thesis by (auto dest: wrap_Panic)
  qed
qed

lemma no_panic_seq_id:
  assumes "fst p \<noteq> Some (Panic m)" and "\<And>x. fst (g x) \<noteq> Some (Panic m)"
  shows "fst (case p of (Some f, x) \<Rightarrow> (Some f, x) | (None, x) \<Rightarrow> g x) \<noteq> Some (Panic m)"
proof (cases p)
  case (Pair r x)
  show ?thesis
  proof (cases r)
    case None
    with Pair assms(2) [of x] show ?thesis by simp
  next
    case (Some f)
    with Pair assms(1) show ?thesis by simp
  qed
qed

lemma ensureObject_no_panic: "fst (ensureObject key ob what created cl) \<noteq> Some (Panic m)"
  by (simp add: ensureObject_def split: prod.splits sum.splits option.splits)

lemma ensureObject_when_no_panic:
  "fst (if b then ensureObject key ob what created cl else (None, cl)) \<noteq> Some (Panic m)"
  by (simp add: ensureObject_no_panic)

lemma ensureCIDRPolicies_no_panic: "fst (ensureCIDRPolicies namespace i cidrs cl) \<noteq> Some (Panic m)"
proof (induction cidrs arbitrary: i cl)
  case Nil
  then show ?case by simp
next
  case (Cons cidr rest)
  show ?case
    unfolding ensureCIDRPolicies.simps
    by (rule no_panic_seq_id) (rule ensureObject_no_panic, rule Cons.IH)
qed

lemma ensureNetworkPolicies_no_panic: "fst (ensureNetworkPolicies namespace policy cl) \<noteq> Some (Panic m)"
  unfolding ensureNetworkPolicies_def
  by (intro no_panic_seq_id ensureObject_when_no_panic ensureCIDRPolicies_no_panic)

lemma ensureNamespace_no_panic: "fst (ensureNamespace c name tenant cl) \<noteq> Some (Panic m)"
  by (simp add: ensureNamespace_def Let_def split: prod.splits sum.splits option.splits)

lemma ensureServiceMesh_no_panic: "fst (ensureServiceMesh namespace cl) \<noteq> Some (Panic m)"
  by (simp add: ensureServiceMesh_def split: prod.splits sum.splits option.splits)

lemma ensureRBAC_no_panic: "fst (ensureRBAC namespace ownerID cl) \<noteq> Some (Panic m)"
  unfolding ensureRBAC_def by (rule ensureObject_no_panic)

lemma ensureResourceQuota_no_panic:
  "parses c limits \<Longrightarrow> fst (ensureResourceQuota c namespace limits cl) \<noteq> Some (Panic m)"
  by (cases "quota_hard c limits")
     (simp_all add: parses_def ensureResourceQuota_def Let_def split: prod.splits sum.splits option.splits)

lemma mesh_step_no_panic:
  "fst (if b then (case ensureServiceMesh namespace x of
                     (Some f, cl5) \<Rightarrow> (Some (wrap pre f), cl5)
                   | (None, cl5) \<Rightarrow> (None, cl5))
        else (None, x)) \<noteq> Some (Panic m)"
proof (cases b)
  case True
  have "fst (case ensureServiceMesh namespace x of
               (Some f, cl5) \<Rightarrow> (Some (wrap pre f), cl5)
             | (None, cl5) \<Rightarrow> (None, cl5)) \<noteq> Some (Panic m)"
    by (rule no_panic_seq) (rule ensureServiceMesh_no_panic, simp)
  with True show ?thesis by simp
next
  case False
  then show ?thesis by simp
qed

lemma processNamespace_no_panic:
  assumes "parses c (tenant_ResourceLimits tenant)"
  shows "fst (processNamespace c tenant namespace cl) \<noteq> Some (Panic m)"
  unfolding processNamespace_def
  by (intro no_panic_seq ensureNamespace_no_panic ensureResourceQuota_no_panic [OF assms]
        ensureNetworkPolicies_no_panic ensureRBAC_no_panic mesh_step_no_panic)

lemma processNamespaces_no_panic:
  assumes "parses c (tenant_ResourceLimits tenant)"
  shows "fst (processNamespaces c tenant nss cl) \<noteq> Some (Panic m)"
proof (induction nss arbitrary: cl)
  case Nil
  then show ?case by simp
next
  case (Cons n rest)
  show ?case
    unfolding processNamespaces.simps
    by (rule no_panic_seq_id) (rule processNamespace_no_panic [OF assms], rule Cons.IH)
qed

lemma processTenant_no_panic:
  "parses c (tenant_ResourceLimits tenant) \<Longrightarrow> fst (processTenant c tenant cl) \<noteq> Some (Panic m)"
  unfolding processTenant_def by (rule processNamespaces_no_panic)

text \<open>Without a panic the loop over the tenants gives every tenant its step, in order.\<close>

lemma reconcileTenants_fold:
  assumes "\<forall>t \<in> set tenants. parses c (tenant_ResourceLimits t)"
  shows "reconcileTenants c tenants cl = (None, foldl (tenant_step c) cl tenants)"
  using assms
proof (induction tenants arbitrary: cl)
  case Nil
  then show ?case by simp
next
  case (Cons t rest)
  obtain r cl1 where p: "processTenant c t cl = (r, cl1)" by (cases "processTenant c t cl") auto
  have "parses c (tenant_ResourceLimits t)" using Cons.prems by simp
  then have np: "\<And>m. r \<noteq> Some (Panic m)"
    using processTenant_no_panic [of c t cl] p by simp
  have rest: "\<forall>t \<in> set rest. parses c (tenant_ResourceLimits t)" using Cons.prems by simp
  show ?case
  proof (cases r)
    case None
    with p Cons.IH [OF rest] show ?thesis by (simp add: tenant_step_def)
  next
    case (Some f)
    with np obtain e where "f = Err e" by (cases f) auto
    with Some p Cons.IH [OF rest] show ?thesis by (simp add: tenant_step_def)
  qed
qed

lemma new_calls_trans:
  assumes "prefix (calls a) (calls b)" and "prefix (calls b) (calls c)"
  shows "new_calls a c = new_calls a b @ new_calls b c"
proof -
  from assms obtain x y where "calls b = calls a @ x" "calls c = calls b @ y"
    by (auto simp: prefix_def)
  then show ?thesis by (simp add: new_calls_def)
qed

lemma evolves_prefix: "evolves T a b \<Longrightarrow> prefix (calls a) (calls b)"
  by (simp add: evolves_def)

lemma evolves_foldl_tenant_step: "evolves rewritable cl (foldl (tenant_step c) cl tenants)"
proof (induction tenants arbitrary: cl)
  case Nil
  then show ?case by simp
next
  case (Cons t rest)
  show ?case
    using evolves_tenant_step [of cl c t] Cons.IH [of "tenant_step c cl t"]
    by (simp add: evolves_trans_same)
qed

text \<open>The first call of a pass over a namespace reads the namespace.\<close>

lemma ensureNamespace_after_get:
  "evolves T (snd (kube_get (NamespaceKind, [], name) cl)) (snd (ensureNamespace c name tenant cl))"
proof -
  let ?k = "(NamespaceKind, [], name)"
  let ?ns = "\<lparr> labels = [''tenant'' \<mapsto> tenant_Name tenant,
                             ''tenant-id'' \<mapsto> tenant_ID tenant,
                             ''owner-id'' \<mapsto> tenant_OwnerID tenant,
                             ''managed-by'' \<mapsto> ''tenant-controller'',
                             ''cluster-name'' \<mapsto> clusterName c],
                spec = NamespaceSpec \<rparr> :: 'a kobject"
  obtain r1 cl1 where g: "kube_get ?k cl = (r1, cl1)" by (cases "kube_get ?k cl") auto
  obtain r2 cl2 where cr: "kube_create ?k ?ns cl1 = (r2, cl2)" by (cases "kube_create ?k ?ns cl1") auto
  have e2: "evolves T cl1 cl2" using evolves_create [of T cl1 ?k ?ns] cr by simp
  show ?thesis
  proof (cases r1)
    case (Inr ob)
    with g show ?thesis by (simp add: ensureNamespace_def)
  next
    case (Inl err)
    show ?thesis
    proof (cases "err = NotFound")
      case False
      with Inl g show ?thesis by (simp add: ensureNamespace_def)
    next
      case True
      with Inl g cr e2 show ?thesis
        by (cases r2) (simp_all add: ensureNamespace_def evolves_klogf_right)
    qed
  qed
qed

lemma ensureNamespace_first_call:
  "prefix (calls cl @ [(Get, (NamespaceKind, [], name))]) (calls (snd (ensureNamespace c name tenant cl)))"
  using evolves_prefix [OF ensureNamespace_after_get [of UNIV name cl c tenant]] by simp

lemma processNamespace_first_call:
  "prefix (calls cl @ [(Get, (NamespaceKind, [], namespace))]) (calls (snd (processNamespace c tenant namespace cl)))"
proof -
  let ?first = "ensureNamespace c namespace tenant cl"
  have a: "prefix (calls cl @ [(Get, (NamespaceKind, [], namespace))]) (calls (snd ?first))"
    by (rule ensureNamespace_first_call)
  have b: "evolves (written_keys namespace) (snd ?first) (snd (processNamespace c tenant namespace (cl)))"
  proof -
    have q: "\<And>x. evolves (written_keys namespace) x (snd (ensureResourceQuota c namespace (tenant_ResourceLimits tenant) x))"
      by (rule evolves_mono [OF evolves_ensureResourceQuota]) (simp add: written_keys_def)
    have m: "\<And>x. evolves (written_keys namespace) x (snd (if tenant_ServiceMeshEnable tenant then
              (case ensureServiceMesh namespace x of
                 (Some f, cl5) \<Rightarrow> (Some (wrap (''failed to ensure service mesh for namespace '' @ namespace @ '': '') f), cl5)
               | (None, cl5) \<Rightarrow> (None, cl5))
              else (None, x)))"
    proof -
      fix x
      have "evolves (written_keys namespace) x (snd (ensureServiceMesh namespace x))"
        by (rule evolves_mono [OF evolves_ensureServiceMesh]) (simp add: written_keys_def)
      then show "evolves (written_keys namespace) x (snd (if tenant_ServiceMeshEnable tenant then
              (case ensureServiceMesh namespace x of
                 (Some f, cl5) \<Rightarrow> (Some (wrap (''failed to ensure service mesh for namespace '' @ namespace @ '': '') f), cl5)
               | (None, cl5) \<Rightarrow> (None, cl5))
              else (None, x)))"
        by (auto split: prod.splits option.splits)
    qed
    show ?thesis
      unfolding processNamespace_def
      by (intro evolves_seq evolves_refl q evolves_ensureNetworkPolicies evolves_ensureRBAC m)
  qed
  from a evolves_prefix [OF b] show ?thesis by (rule prefix_order.trans)
qed

lemma tenant_step_first_call:
  assumes "tenant_Namespaces tenant \<noteq> []"
  shows "(Get, (NamespaceKind, [], hd (tenant_Namespaces tenant))) \<in> set (new_calls cl (tenant_step c cl tenant))"
proof -
  obtain n rest where ns: "tenant_Namespaces tenant = n # rest"
    using assms by (cases "tenant_Namespaces tenant") auto
  let ?one = "snd (processNamespace c tenant n cl)"
  have a: "prefix (calls cl @ [(Get, (NamespaceKind, [], n))]) (calls ?one)"
    by (rule processNamespace_first_call)
  have b: "prefix (calls ?one) (calls (snd (processTenant c tenant cl)))"
  proof -
    have "evolves UNIV ?one (snd (processTenant c tenant cl))"
      unfolding processTenant_def ns processNamespaces.simps
      by (rule evolves_seq_id) (simp, rule evolves_mono [OF evolves_processNamespaces], simp)
    then show ?thesis by (rule evolves_prefix)
  qed
  have c: "prefix (calls (snd (processTenant c tenant cl))) (calls (tenant_step c cl tenant))"
    by (cases "processTenant c tenant cl")
       (auto simp: tenant_step_def split: option.splits failure.splits)
  from a b have "prefix (calls cl @ [(Get, (NamespaceKind, [], n))]) (calls (snd (processTenant c tenant cl)))"
    by (rule prefix_order.trans)
  from this c have "prefix (calls cl @ [(Get, (NamespaceKind, [], n))]) (calls (tenant_step c cl tenant))"
    by (rule prefix_order.trans)
  then obtain more where "calls (tenant_step c cl tenant) = calls cl @ (Get, (NamespaceKind, [], n)) # more"
    by (auto simp: prefix_def)
  then show ?thesis by (simp add: new_calls_def ns)
qed

lemma foldl_tenant_step_first_calls:
  assumes "t \<in> set tenants" and "tenant_Namespaces t \<noteq> []"
  shows "(Get, (NamespaceKind, [], hd (tenant_Namespaces t))) \<in> set (new_calls cl (foldl (tenant_step c) cl tenants))"
  using assms(1)
proof (induction tenants arbitrary: cl)
  case Nil
  then show ?case by simp
next
  case (Cons u rest)
  let ?mid = "tenant_step c cl u"
  let ?fin = "foldl (tenant_step c) ?mid rest"
  have p1: "prefix (calls cl) (calls ?mid)" using evolves_tenant_step by (rule evolves_prefix)
  have p2: "prefix (calls ?mid) (calls ?fin)" using evolves_foldl_tenant_step by (rule evolves_prefix)
  have split: "new_calls cl ?fin = new_calls cl ?mid @ new_calls ?mid ?fin"
    using p1 p2 by (rule new_calls_trans)
  show ?case
  proof (cases "t = u")
    case True
    then show ?thesis using tenant_step_first_call [OF assms(2), of cl c] split by simp
  next
    case False
    with Cons.prems have "t \<in> set rest" by simp
    from Cons.IH [OF this, of ?mid] split show ?thesis by simp
  qed
qed


text \<open>
  C6 as stated fails for namespaces. The first mock tenant has three namespaces; the
  API fails the read of the first one. \<^verbatim>\<open>processTenant\<close> returns that error at once:
  the only call made is this read, and the two other namespaces are not processed.
\<close>

theorem namespace_failure_aborts_tenant_counterexample:
  "tenant_Namespaces (hd mock_tenants) = [''team-alpha-dev'', ''team-alpha-staging'', ''team-alpha-prod'']
   \<and> fst (processTenant demo_controller (hd mock_tenants) faulty_cluster)
       = Some (Err ''failed to ensure namespace team-alpha-dev: failed to check namespace team-alpha-dev: connection refused'')
   \<and> calls (snd (processTenant demo_controller (hd mock_tenants) faulty_cluster))
       = [(Get, (NamespaceKind, [], ''team-alpha-dev''))]"
  by (simp add: ctl_eval mock_tenants_def demo_controller_def faulty_cluster_def empty_cluster_def)

text \<open>
  C6 as amended. A failure while processing one tenant is logged and does not abort the
  tick: as long as no quantity of a tenant makes \<^verbatim>\<open>resource.MustParse\<close> panic, the tick
  gives every tenant of the list its pass, in order, each on the state its predecessors
  left (with the error line of a failed pass added to the log), so the first namespace
  of every tenant is read in the tick. Within one tenant the first failure ends the
  pass: the error is returned and the namespaces after it are not processed.
\<close>

theorem tenant_failure_does_not_abort_tick:
  assumes "\<forall>t \<in> set tenants. parses c (tenant_ResourceLimits t)"
  shows "reconcileTenants c tenants cl = (None, foldl (tenant_step c) cl tenants)
         \<and> (\<forall>t \<in> set tenants. tenant_Namespaces t \<noteq> [] \<longrightarrow>
               (Get, (NamespaceKind, [], hd (tenant_Namespaces t)))
                 \<in> set (new_calls cl (snd (reconcileTenants c tenants cl))))
         \<and> (\<forall>t e cl0 cl1. processTenant c t cl0 = (Some (Err e), cl1) \<longrightarrow>
               tenant_step c cl0 t = klogf (Error (''Failed to process tenant '' @ tenant_ID t @ '': '' @ e)) cl1)
         \<and> (\<forall>t n rest f cl0 cl1. processNamespace c t n cl0 = (Some f, cl1) \<longrightarrow>
               processNamespaces c t (n # rest) cl0 = (Some f, cl1))"
proof -
  note fold = reconcileTenants_fold [OF assms, of cl]
  have first: "\<forall>t \<in> set tenants. tenant_Namespaces t \<noteq> [] \<longrightarrow>
               (Get, (NamespaceKind, [], hd (tenant_Namespaces t)))
                 \<in> set (new_calls cl (snd (reconcileTenants c tenants cl)))"
    using foldl_tenant_step_first_calls [of _ tenants cl c] by (simp add: fold)
  have logged: "\<forall>t e cl0 cl1. processTenant c t cl0 = (Some (Err e), cl1) \<longrightarrow>
               tenant_step c cl0 t = klogf (Error (''Failed to process tenant '' @ tenant_ID t @ '': '' @ e)) cl1"
    by (simp add: tenant_step_def)
  have stop: "\<forall>t n rest f cl0 cl1. processNamespace c t n cl0 = (Some f, cl1) \<longrightarrow>
               processNamespaces c t (n # rest) cl0 = (Some f, cl1)"
    by simp
  from fold first logged stop show ?thesis by blast
qed

theorem tenant_failure_does_not_abort_tick_witness:
  "fst (processTenant demo_controller small_tenant faulty_cluster)
     = Some (Err ''failed to ensure namespace team-alpha-dev: failed to check namespace team-alpha-dev: connection refused'')
   \<and> fst (reconcileTenants demo_controller [small_tenant, second_tenant] faulty_cluster) = None
   \<and> (Get, (NamespaceKind, [], ''team-beta-dev''))
        \<in> set (new_calls faulty_cluster
                  (snd (reconcileTenants demo_controller [small_tenant, second_tenant] faulty_cluster)))"
proof -
  have p: "\<forall>t \<in> set [small_tenant, second_tenant]. parses demo_controller (tenant_ResourceLimits t)"
    by (simp add: parses_def quota_hard_def demo_controller_def second_tenant_def small_tenant_eval)
  have f: "fst (processTenant demo_controller small_tenant faulty_cluster)
     = Some (Err ''failed to ensure namespace team-alpha-dev: failed to check namespace team-alpha-dev: connection refused'')"
    by (simp add: ctl_eval small_tenant_eval demo_controller_def faulty_cluster_def empty_cluster_def)
  have n: "second_tenant \<in> set [small_tenant, second_tenant]" "tenant_Namespaces second_tenant \<noteq> []"
          "hd (tenant_Namespaces second_tenant) = ''team-beta-dev''"
    by (simp_all add: second_tenant_def)
  from tenant_failure_does_not_abort_tick [OF p, of faulty_cluster] n f show ?thesis
    by (metis fst_conv)
qed

section \<open>The resource quota\<close>

lemma quota_hard_Endpoints: "quota_hard c (limits \<lparr> tl_Endpoints := e \<rparr>) = quota_hard c limits"
  by (simp add: quota_hard_def split: option.splits)

lemma quota_hard_value:
  assumes "mustParse c (tl_CPU limits) = Some cpu" and "mustParse c (tl_Memory limits) = Some memory"
      and "mustParse c (tl_Storage limits) = Some storage"
      and "mustParse c (show_int (tl_Pods limits)) = Some pods"
      and "mustParse c (show_int (tl_Services limits)) = Some services"
  shows "quota_hard c limits =
           Inr [(ResourceCPU, cpu), (ResourceMemory, memory), (ResourceEphemeralStorage, storage),
                (ResourcePods, pods), (ResourceServices, services),
                (ResourceRequestsCPU, cpu), (ResourceRequestsMemory, memory),
                (ResourceLimitsCPU, cpu), (ResourceLimitsMemory, memory)]"
  using assms by (simp add: quota_hard_def)

lemma ensureResourceQuota_effect:
  assumes ok: "ensureResourceQuota c namespace limits cl = (None, cl')"
      and hard: "quota_hard c limits = Inr hard"
  shows "objects cl' = (objects cl)((ResourceQuotaKind, namespace, ''tenant-quota'')
            \<mapsto> \<lparr> labels = [''managed-by'' \<mapsto> ''tenant-controller''], spec = QuotaSpec hard \<rparr>)"
    and "new_calls cl cl' =
           [(Get, (ResourceQuotaKind, namespace, ''tenant-quota'')),
            (if objects cl (ResourceQuotaKind, namespace, ''tenant-quota'') = None then Create else Update,
             (ResourceQuotaKind, namespace, ''tenant-quota''))]"
proof -
  let ?k = "(ResourceQuotaKind, namespace, ''tenant-quota'')"
  let ?q = "\<lparr> labels = [''managed-by'' \<mapsto> ''tenant-controller''], spec = QuotaSpec hard \<rparr>"
  obtain r1 cl1 where g: "kube_get ?k cl = (r1, cl1)" by (cases "kube_get ?k cl") auto
  obtain r2 cl2 where cr: "kube_create ?k ?q cl1 = (r2, cl2)" by (cases "kube_create ?k ?q cl1") auto
  obtain r3 cl3 where up: "kube_update ?k ?q cl1 = (r3, cl3)" by (cases "kube_update ?k ?q cl1") auto
  have s1: "objects cl1 = objects cl" "calls cl1 = calls cl @ [(Get, ?k)]" "fst (kube_get ?k cl) = r1"
    using kube_get_state [of ?k cl] g by simp_all
  have s2: "calls cl2 = calls cl1 @ [(Create, ?k)]"
           "objects cl2 = (if r2 = None then (objects cl1)(?k \<mapsto> ?q) else objects cl1)"
    using kube_create_state [of ?k ?q cl1] kube_create_objects [of ?k ?q cl1] cr by simp_all
  have s3: "calls cl3 = calls cl1 @ [(Update, ?k)]"
           "objects cl3 = (if r3 = None then (objects cl1)(?k \<mapsto> ?q) else objects cl1)"
    using kube_update_state [of ?k ?q cl1] kube_update_objects [of ?k ?q cl1] up by simp_all
  have both: "objects cl' = (objects cl)(?k \<mapsto> ?q)
              \<and> new_calls cl cl' = [(Get, ?k), (if objects cl ?k = None then Create else Update, ?k)]"
  proof (cases r1)
    case (Inr ob)
    then have ex: "objects cl ?k = Some ob" using kube_get_found [of ?k cl ob] s1(3) by simp
    from ok hard g Inr up have "r3 = None" "cl' = klogf (Info (''Updated resource quota for namespace '' @ namespace)) cl3"
      by (cases r3; simp add: ensureResourceQuota_def)+
    with s1 s3 ex show ?thesis by (simp add: new_calls_def)
  next
    case (Inl err)
    with ok hard g have nf: "err = NotFound"
      by (cases "err = NotFound") (simp_all add: ensureResourceQuota_def)
    then have ab: "objects cl ?k = None" using kube_get_NotFound [of ?k cl] s1(3) Inl by simp
    from ok hard g Inl nf cr have "r2 = None" "cl' = klogf (Info (''Created resource quota for namespace '' @ namespace)) cl2"
      by (cases r2; simp add: ensureResourceQuota_def)+
    with s1 s2 ab show ?thesis by (simp add: new_calls_def)
  qed
  from both show "objects cl' = (objects cl)(?k \<mapsto> ?q)" by simp
  from both show "new_calls cl cl' = [(Get, ?k), (if objects cl ?k = None then Create else Update, ?k)]" by simp
qed

text \<open>
  C9 as stated fails for one declared limit. The quota that \<^verbatim>\<open>ensureResourceQuota\<close>
  writes for the limits of the mock tenant (which declare Endpoints = 100) has nine
  hard entries, made from CPU, Memory, Storage, Pods and Services; none is made from
  Endpoints, and limits that differ only in Endpoints give the same result.
\<close>

theorem quota_ignores_endpoints_counterexample:
  "tl_Endpoints (tenant_ResourceLimits small_tenant) = 100
   \<and> map_option spec
        (objects (snd (ensureResourceQuota demo_controller ''team-alpha-dev'' (tenant_ResourceLimits small_tenant)
                         empty_cluster))
           (ResourceQuotaKind, ''team-alpha-dev'', ''tenant-quota''))
       = Some (QuotaSpec [(ResourceCPU, ''8''), (ResourceMemory, ''16Gi''), (ResourceEphemeralStorage, ''100Gi''),
                          (ResourcePods, ''20''), (ResourceServices, ''10''),
                          (ResourceRequestsCPU, ''8''), (ResourceRequestsMemory, ''16Gi''),
                          (ResourceLimitsCPU, ''8''), (ResourceLimitsMemory, ''16Gi'')])
   \<and> ensureResourceQuota demo_controller ''team-alpha-dev''
        ((tenant_ResourceLimits small_tenant) \<lparr> tl_Endpoints := 7 \<rparr>) empty_cluster
       = ensureResourceQuota demo_controller ''team-alpha-dev'' (tenant_ResourceLimits small_tenant) empty_cluster"
  by (simp add: ensureResourceQuota_def quota_hard_Endpoints)
     (simp add: quota_hard_def kube_get_def kube_create_def klogf_def Let_def small_tenant_eval
        demo_controller_def empty_cluster_def show_eval)

text \<open>
  C9 as amended. When \<^verbatim>\<open>ensureResourceQuota\<close> returns without error, the namespace holds
  the object \<^verbatim>\<open>tenant-quota\<close> (created when it was absent, updated otherwise, by one
  call after one read) and nothing else has changed; its hard limits are the parsed
  declared values themselves: \<^verbatim>\<open>cpu\<close>, \<^verbatim>\<open>requests.cpu\<close> and \<^verbatim>\<open>limits.cpu\<close> from CPU,
  \<^verbatim>\<open>memory\<close>, \<^verbatim>\<open>requests.memory\<close> and \<^verbatim>\<open>limits.memory\<close> from Memory,
  \<^verbatim>\<open>ephemeral-storage\<close> from Storage, \<^verbatim>\<open>pods\<close> and \<^verbatim>\<open>services\<close> from the decimal
  text of Pods and Services. The declared Endpoints limit is not part of the quota.
\<close>

theorem ensureResourceQuota_sets_declared_limits:
  assumes "ensureResourceQuota c namespace limits cl = (None, cl')"
      and "mustParse c (tl_CPU limits) = Some cpu" and "mustParse c (tl_Memory limits) = Some memory"
      and "mustParse c (tl_Storage limits) = Some storage"
      and "mustParse c (show_int (tl_Pods limits)) = Some pods"
      and "mustParse c (show_int (tl_Services limits)) = Some services"
  shows "objects cl' (ResourceQuotaKind, namespace, ''tenant-quota'')
           = Some \<lparr> labels = [''managed-by'' \<mapsto> ''tenant-controller''],
                    spec = QuotaSpec [(ResourceCPU, cpu), (ResourceMemory, memory),
                                      (ResourceEphemeralStorage, storage),
                                      (ResourcePods, pods), (ResourceServices, services),
                                      (ResourceRequestsCPU, cpu), (ResourceRequestsMemory, memory),
                                      (ResourceLimitsCPU, cpu), (ResourceLimitsMemory, memory)] \<rparr>
         \<and> (\<forall>k. k \<noteq> (ResourceQuotaKind, namespace, ''tenant-quota'') \<longrightarrow> objects cl' k = objects cl k)
         \<and> new_calls cl cl' =
             [(Get, (ResourceQuotaKind, namespace, ''tenant-quota'')),
              (if objects cl (ResourceQuotaKind, namespace, ''tenant-quota'') = None then Create else Update,
               (ResourceQuotaKind, namespace, ''tenant-quota''))]"
  using ensureResourceQuota_effect [OF assms(1) quota_hard_value [OF assms(2-6)]]
  by simp

theorem ensureResourceQuota_sets_declared_limits_witness:
  "map_option spec
     (objects (snd (ensureResourceQuota demo_controller ''team-alpha-dev'' (tenant_ResourceLimits small_tenant)
                      empty_cluster))
        (ResourceQuotaKind, ''team-alpha-dev'', ''tenant-quota''))
     = Some (QuotaSpec [(ResourceCPU, ''8''), (ResourceMemory, ''16Gi''), (ResourceEphemeralStorage, ''100Gi''),
                        (ResourcePods, ''20''), (ResourceServices, ''10''),
                        (ResourceRequestsCPU, ''8''), (ResourceRequestsMemory, ''16Gi''),
                        (ResourceLimitsCPU, ''8''), (ResourceLimitsMemory, ''16Gi'')])
   \<and> new_calls empty_cluster
        (snd (ensureResourceQuota demo_controller ''team-alpha-dev'' (tenant_ResourceLimits small_tenant)
                empty_cluster))
       = [(Get, (ResourceQuotaKind, ''team-alpha-dev'', ''tenant-quota'')),
          (Create, (ResourceQuotaKind, ''team-alpha-dev'', ''tenant-quota''))]"
proof -
  let ?l = "tenant_ResourceLimits small_tenant"
  let ?r = "ensureResourceQuota demo_controller ''team-alpha-dev'' ?l empty_cluster"
  have ok: "?r = (None, snd ?r)"
    by (simp add: prod_eq_iff ensureResourceQuota_def quota_hard_def kube_get_def kube_create_def klogf_def
          Let_def small_tenant_eval demo_controller_def empty_cluster_def)
  have p: "mustParse demo_controller (tl_CPU ?l) = Some ''8''"
          "mustParse demo_controller (tl_Memory ?l) = Some ''16Gi''"
          "mustParse demo_controller (tl_Storage ?l) = Some ''100Gi''"
          "mustParse demo_controller (show_int (tl_Pods ?l)) = Some ''20''"
          "mustParse demo_controller (show_int (tl_Services ?l)) = Some ''10''"
    by (simp_all add: demo_controller_def small_tenant_eval show_eval)
  have e: "objects empty_cluster (ResourceQuotaKind, ''team-alpha-dev'', ''tenant-quota'') = None"
    by (simp add: empty_cluster_def)
  from ensureResourceQuota_sets_declared_limits [OF ok p] e show ?thesis by simp
qed


section \<open>A second pass over a settled tenant\<close>

lemma quiet_refl [simp]: "quiet cl cl"
  by (simp add: quiet_def)

lemma quiet_trans: "quiet a b \<Longrightarrow> quiet b c \<Longrightarrow> quiet a c"
  by (simp add: quiet_def)

lemma quiet_klogf_right: "quiet a b \<Longrightarrow> quiet a (klogf line b)"
  by (simp add: quiet_def creates_def)

lemma quiet_get: "quiet cl (snd (kube_get k cl))"
  by (simp add: quiet_def creates_def)

lemma quiet_update_same:
  assumes "objects cl k = Some ob"
  shows "quiet cl (snd (kube_update k ob cl))"
proof -
  have "(objects cl)(k \<mapsto> ob) = objects cl" using assms by (simp add: fun_upd_idem)
  then show ?thesis by (simp add: quiet_def creates_def kube_update_objects)
qed

lemma quiet_seq:
  assumes "quiet a (snd p)" and "\<And>x. objects x = objects a \<Longrightarrow> quiet x (snd (g x))"
  shows "quiet a (snd (case p of (Some f, x) \<Rightarrow> (Some (w f), x) | (None, x) \<Rightarrow> g x))"
proof (cases p)
  case (Pair r x)
  show ?thesis
  proof (cases r)
    case None
    have "objects x = objects a" using assms(1) Pair by (simp add: quiet_def)
    from assms(2) [OF this] assms(1) Pair None show ?thesis by (auto intro: quiet_trans)
  next
    case (Some f)
    with Pair assms(1) show ?thesis by simp
  qed
qed

lemma quiet_seq_id:
  assumes "quiet a (snd p)" and "\<And>x. objects x = objects a \<Longrightarrow> quiet x (snd (g x))"
  shows "quiet a (snd (case p of (Some f, x) \<Rightarrow> (Some f, x) | (None, x) \<Rightarrow> g x))"
  using quiet_seq [where w = "\<lambda>f. f", OF assms] by simp

text \<open>On an object that exists the get-or-create block only reads.\<close>

lemma quiet_ensureObject:
  assumes "objects cl key \<noteq> None"
  shows "quiet cl (snd (ensureObject key ob what created cl))"
proof -
  obtain r1 cl1 where g: "kube_get key cl = (r1, cl1)" by (cases "kube_get key cl") auto
  have q1: "quiet cl cl1" using quiet_get [of cl key] g by simp
  have r: "fst (kube_get key cl) = r1" using g by simp
  show ?thesis
  proof (cases r1)
    case (Inr found)
    with g q1 show ?thesis by (simp add: ensureObject_def)
  next
    case (Inl err)
    have "err \<noteq> NotFound"
      using kube_get_NotFound [of key cl] r Inl assms by auto
    with Inl g q1 show ?thesis by (simp add: ensureObject_def)
  qed
qed

lemma quiet_ensureObject_when:
  assumes "b \<longrightarrow> objects cl key \<noteq> None"
  shows "quiet cl (snd (if b then ensureObject key ob what created cl else (None, cl)))"
  using assms by (simp add: quiet_ensureObject)

lemma quiet_ensureCIDRPolicies:
  assumes "\<forall>j < length cidrs. objects cl (NetworkPolicyKind, namespace, ''allow-ingress-cidr-'' @ show_nat (i + j)) \<noteq> None"
  shows "quiet cl (snd (ensureCIDRPolicies namespace i cidrs cl))"
  using assms
proof (induction cidrs arbitrary: i cl)
  case Nil
  then show ?case by simp
next
  case (Cons cidr rest)
  have first: "objects cl (NetworkPolicyKind, namespace, ''allow-ingress-cidr-'' @ show_nat i) \<noteq> None"
    using Cons.prems [rule_format, of 0] by simp
  have later: "\<And>x. objects x = objects cl \<Longrightarrow> quiet x (snd (ensureCIDRPolicies namespace (Suc i) rest x))"
  proof -
    fix x :: "'a cluster"
    assume same: "objects x = objects cl"
    have "\<forall>j < length rest. objects x (NetworkPolicyKind, namespace, ''allow-ingress-cidr-'' @ show_nat (Suc i + j)) \<noteq> None"
    proof (intro allI impI)
      fix j
      assume "j < length rest"
      then have "Suc j < length (cidr # rest)" by simp
      from Cons.prems [rule_format, OF this] same
      show "objects x (NetworkPolicyKind, namespace, ''allow-ingress-cidr-'' @ show_nat (Suc i + j)) \<noteq> None"
        by simp
    qed
    then show "quiet x (snd (ensureCIDRPolicies namespace (Suc i) rest x))" by (rule Cons.IH)
  qed
  show ?case
    unfolding ensureCIDRPolicies.simps
    by (rule quiet_seq_id) (rule quiet_ensureObject [OF first], rule later)
qed

lemma quiet_ensureNetworkPolicies:
  assumes "tnp_DefaultDenyIngress policy \<longrightarrow> objects cl (NetworkPolicyKind, namespace, ''default-deny-ingress'') \<noteq> None"
      and "tnp_DefaultDenyEgress policy \<longrightarrow> objects cl (NetworkPolicyKind, namespace, ''default-deny-egress'') \<noteq> None"
      and "tnp_AllowIntraNamespace policy \<longrightarrow> objects cl (NetworkPolicyKind, namespace, ''allow-intra-namespace'') \<noteq> None"
      and "\<forall>i < length (tnp_AllowIngressFromCIDR policy).
             objects cl (NetworkPolicyKind, namespace, ''allow-ingress-cidr-'' @ show_nat i) \<noteq> None"
  shows "quiet cl (snd (ensureNetworkPolicies namespace policy cl))"
  unfolding ensureNetworkPolicies_def
proof (intro quiet_seq_id quiet_ensureObject_when quiet_ensureCIDRPolicies)
  show "tnp_DefaultDenyIngress policy \<longrightarrow> objects cl (NetworkPolicyKind, namespace, ''default-deny-ingress'') \<noteq> None"
    by (rule assms(1))
next
  fix x :: "'a cluster"
  assume "objects x = objects cl"
  then show "tnp_DefaultDenyEgress policy \<longrightarrow> objects x (NetworkPolicyKind, namespace, ''default-deny-egress'') \<noteq> None"
    using assms(2) by simp
next
  fix x xa :: "'a cluster"
  assume "objects x = objects cl" "objects xa = objects x"
  then show "tnp_AllowIntraNamespace policy \<longrightarrow> objects xa (NetworkPolicyKind, namespace, ''allow-intra-namespace'') \<noteq> None"
    using assms(3) by simp
next
  fix x xa xb :: "'a cluster"
  assume "objects x = objects cl" "objects xa = objects x" "objects xb = objects xa"
  then show "\<forall>j<length (tnp_AllowIngressFromCIDR policy).
       objects xb (NetworkPolicyKind, namespace, ''allow-ingress-cidr-'' @ show_nat (0 + j)) \<noteq> None"
    using assms(4) by simp
qed

lemma quiet_ensureNamespace:
  assumes "objects cl (NamespaceKind, [], name) \<noteq> None"
  shows "quiet cl (snd (ensureNamespace c name tenant cl))"
proof -
  let ?k = "(NamespaceKind, [], name)"
  obtain r1 cl1 where g: "kube_get ?k cl = (r1, cl1)" by (cases "kube_get ?k cl") auto
  have q1: "quiet cl cl1" using quiet_get [of cl ?k] g by simp
  have r: "fst (kube_get ?k cl) = r1" using g by simp
  show ?thesis
  proof (cases r1)
    case (Inr found)
    with g q1 show ?thesis by (simp add: ensureNamespace_def)
  next
    case (Inl err)
    have "err \<noteq> NotFound"
      using kube_get_NotFound [of ?k cl] r Inl assms by auto
    with Inl g q1 show ?thesis by (simp add: ensureNamespace_def)
  qed
qed

lemma quiet_ensureResourceQuota:
  assumes "quota_hard c limits = Inr hard"
      and "objects cl (ResourceQuotaKind, namespace, ''tenant-quota'')
             = Some \<lparr> labels = [''managed-by'' \<mapsto> ''tenant-controller''], spec = QuotaSpec hard \<rparr>"
  shows "quiet cl (snd (ensureResourceQuota c namespace limits cl))"
proof -
  let ?k = "(ResourceQuotaKind, namespace, ''tenant-quota'')"
  let ?q = "\<lparr> labels = [''managed-by'' \<mapsto> ''tenant-controller''], spec = QuotaSpec hard \<rparr>"
  obtain r1 cl1 where g: "kube_get ?k cl = (r1, cl1)" by (cases "kube_get ?k cl") auto
  obtain r3 cl3 where up: "kube_update ?k ?q cl1 = (r3, cl3)" by (cases "kube_update ?k ?q cl1") auto
  have q1: "quiet cl cl1" using quiet_get [of cl ?k] g by simp
  have r: "fst (kube_get ?k cl) = r1" using g by simp
  have "objects cl1 ?k = Some ?q" using q1 assms(2) by (simp add: quiet_def)
  then have "quiet cl1 cl3" using quiet_update_same [of cl1 ?k ?q] up by simp
  with q1 have q3: "quiet cl cl3" by (rule quiet_trans)
  show ?thesis
  proof (cases r1)
    case (Inr found)
    with assms(1) g up q3 show ?thesis
      by (cases r3) (simp_all add: ensureResourceQuota_def quiet_klogf_right)
  next
    case (Inl err)
    have "err \<noteq> NotFound"
      using kube_get_NotFound [of ?k cl] r Inl assms(2) by auto
    with Inl assms(1) g q1 show ?thesis by (simp add: ensureResourceQuota_def)
  qed
qed

lemma quiet_ensureServiceMesh:
  assumes "objects cl (NamespaceKind, [], namespace) = Some ns"
      and "labels ns ''istio-injection'' = Some ''enabled''"
  shows "quiet cl (snd (ensureServiceMesh namespace cl))"
proof -
  let ?k = "(NamespaceKind, [], namespace)"
  let ?ns = "ns \<lparr> labels := (labels ns)(''istio-injection'' \<mapsto> ''enabled'') \<rparr>"
  have same: "?ns = ns" using assms(2) by (simp add: fun_upd_idem)
  obtain r1 cl1 where g: "kube_get ?k cl = (r1, cl1)" by (cases "kube_get ?k cl") auto
  obtain r3 cl3 where up: "kube_update ?k ?ns cl1 = (r3, cl3)" by (cases "kube_update ?k ?ns cl1") auto
  have q1: "quiet cl cl1" using quiet_get [of cl ?k] g by simp
  have r: "fst (kube_get ?k cl) = r1" using g by simp
  have "objects cl1 ?k = Some ?ns" using q1 assms(1) same by (simp add: quiet_def)
  then have "quiet cl1 cl3" using quiet_update_same [of cl1 ?k ?ns] up by simp
  with q1 have q3: "quiet cl cl3" by (rule quiet_trans)
  show ?thesis
  proof (cases r1)
    case (Inl err)
    with g q1 show ?thesis by (simp add: ensureServiceMesh_def)
  next
    case (Inr found)
    then have "found = ns" using kube_get_found [of ?k cl found] r assms(1) by simp
    with Inr g up q3 show ?thesis
      by (cases r3) (simp_all add: ensureServiceMesh_def quiet_klogf_right)
  qed
qed

lemma settled_same_objects: "objects x = objects cl \<Longrightarrow> settled c tenant n x = settled c tenant n cl"
  by (simp add: settled_def)

lemma quiet_processNamespace:
  assumes "settled c tenant namespace cl"
  shows "quiet cl (snd (processNamespace c tenant namespace cl))"
proof -
  from assms obtain ns hard where
        ns: "objects cl (NamespaceKind, [], namespace) = Some ns"
    and mesh: "tenant_ServiceMeshEnable tenant \<longrightarrow> labels ns ''istio-injection'' = Some ''enabled''"
    and hard: "quota_hard c (tenant_ResourceLimits tenant) = Inr hard"
    and quota: "objects cl (ResourceQuotaKind, namespace, ''tenant-quota'')
                  = Some \<lparr> labels = [''managed-by'' \<mapsto> ''tenant-controller''], spec = QuotaSpec hard \<rparr>"
    and p1: "tnp_DefaultDenyIngress (tenant_NetworkPolicy tenant) \<longrightarrow>
               objects cl (NetworkPolicyKind, namespace, ''default-deny-ingress'') \<noteq> None"
    and p2: "tnp_DefaultDenyEgress (tenant_NetworkPolicy tenant) \<longrightarrow>
               objects cl (NetworkPolicyKind, namespace, ''default-deny-egress'') \<noteq> None"
    and p3: "tnp_AllowIntraNamespace (tenant_NetworkPolicy tenant) \<longrightarrow>
               objects cl (NetworkPolicyKind, namespace, ''allow-intra-namespace'') \<noteq> None"
    and p4: "\<forall>i < length (tnp_AllowIngressFromCIDR (tenant_NetworkPolicy tenant)).
               objects cl (NetworkPolicyKind, namespace, ''allow-ingress-cidr-'' @ show_nat i) \<noteq> None"
    and rb: "objects cl (RoleBindingKind, namespace, ''tenant-owner'') \<noteq> None"
    unfolding settled_def by blast
  have s1: "quiet cl (snd (ensureNamespace c namespace tenant cl))"
    using ns by (intro quiet_ensureNamespace) simp
  have s2: "\<And>x. objects x = objects cl \<Longrightarrow>
              quiet x (snd (ensureResourceQuota c namespace (tenant_ResourceLimits tenant) x))"
    using hard quota by (intro quiet_ensureResourceQuota) simp_all
  have s3: "\<And>x. objects x = objects cl \<Longrightarrow>
              quiet x (snd (ensureNetworkPolicies namespace (tenant_NetworkPolicy tenant) x))"
    using p1 p2 p3 p4 by (intro quiet_ensureNetworkPolicies) simp_all
  have s4: "\<And>x. objects x = objects cl \<Longrightarrow> quiet x (snd (ensureRBAC namespace (tenant_OwnerID tenant) x))"
    unfolding ensureRBAC_def using rb by (intro quiet_ensureObject) simp
  have s5: "\<And>x pre. objects x = objects cl \<Longrightarrow>
              quiet x (snd (if tenant_ServiceMeshEnable tenant then
                (case ensureServiceMesh namespace x of
                   (Some f, cl5) \<Rightarrow> (Some (wrap pre f), cl5)
                 | (None, cl5) \<Rightarrow> (None, cl5))
                else (None, x)))"
  proof -
    fix x :: "'a cluster" and pre
    assume same: "objects x = objects cl"
    show "quiet x (snd (if tenant_ServiceMeshEnable tenant then
                (case ensureServiceMesh namespace x of
                   (Some f, cl5) \<Rightarrow> (Some (wrap pre f), cl5)
                 | (None, cl5) \<Rightarrow> (None, cl5))
                else (None, x)))"
    proof (cases "tenant_ServiceMeshEnable tenant")
      case False
      then show ?thesis by simp
    next
      case True
      have "quiet x (snd (ensureServiceMesh namespace x))"
        using ns mesh True same by (intro quiet_ensureServiceMesh [of x namespace ns]) simp_all
      then have "quiet x (snd (case ensureServiceMesh namespace x of
                   (Some f, cl5) \<Rightarrow> (Some (wrap pre f), cl5)
                 | (None, cl5) \<Rightarrow> (None, cl5)))"
        by (rule quiet_seq) simp
      with True show ?thesis by simp
    qed
  qed
  show ?thesis
    unfolding processNamespace_def
    by (intro quiet_seq s1) (intro s2 s3 s4 s5 quiet_seq; simp)+
qed

lemma quiet_processNamespaces:
  assumes "\<forall>n \<in> set nss. settled c tenant n cl"
  shows "quiet cl (snd (processNamespaces c tenant nss cl))"
  using assms
proof (induction nss arbitrary: cl)
  case Nil
  then show ?case by simp
next
  case (Cons n rest)
  have first: "quiet cl (snd (processNamespace c tenant n cl))"
    using Cons.prems by (intro quiet_processNamespace) simp
  have later: "\<And>x. objects x = objects cl \<Longrightarrow> quiet x (snd (processNamespaces c tenant rest x))"
  proof -
    fix x :: "'a cluster"
    assume same: "objects x = objects cl"
    have "\<forall>m \<in> set rest. settled c tenant m x"
      using Cons.prems settled_same_objects [OF same] by simp
    then show "quiet x (snd (processNamespaces c tenant rest x))" by (rule Cons.IH)
  qed
  show ?case
    unfolding processNamespaces.simps
    by (rule quiet_seq_id) (rule first, rule later)
qed


section \<open>What a successful pass leaves behind\<close>

lemma seq_None:
  assumes "(case p of (Some f, x) \<Rightarrow> (Some (w f), x) | (None, x) \<Rightarrow> g x) = (None, y)"
  obtains x where "p = (None, x)" and "g x = (None, y)"
proof (cases p)
  case (Pair r x)
  show ?thesis
  proof (cases r)
    case None
    with Pair assms that show ?thesis by simp
  next
    case (Some f)
    with Pair assms show ?thesis by simp
  qed
qed

lemma seq_id_None:
  assumes "(case p of (Some f, x) \<Rightarrow> (Some f, x) | (None, x) \<Rightarrow> g x) = (None, y)"
  obtains x where "p = (None, x)" and "g x = (None, y)"
  using seq_None [where w = "\<lambda>f. f", OF assms] by blast

lemma evolves_keeps: "evolves T cl cl' \<Longrightarrow> objects cl k \<noteq> None \<Longrightarrow> objects cl' k \<noteq> None"
  unfolding evolves_def by blast

lemma evolves_keeps_value: "evolves T cl cl' \<Longrightarrow> k \<notin> T \<Longrightarrow> objects cl k = Some ob \<Longrightarrow> objects cl' k = Some ob"
  unfolding evolves_def by blast

lemma ensureObject_success:
  assumes "ensureObject key ob what created cl = (None, cl')"
  shows "objects cl' key \<noteq> None"
proof -
  obtain r1 cl1 where g: "kube_get key cl = (r1, cl1)" by (cases "kube_get key cl") auto
  obtain r2 cl2 where cr: "kube_create key ob cl1 = (r2, cl2)" by (cases "kube_create key ob cl1") auto
  have o1: "objects cl1 = objects cl" using kube_get_state(1) [of key cl] g by simp
  have r: "fst (kube_get key cl) = r1" using g by simp
  show ?thesis
  proof (cases r1)
    case (Inr found)
    then have "objects cl key = Some found" using kube_get_found [of key cl found] r by simp
    moreover have "cl' = cl1" using assms g Inr by (simp add: ensureObject_def)
    ultimately show ?thesis using o1 by simp
  next
    case (Inl err)
    show ?thesis
    proof (cases r2)
      case None
      have "objects cl2 = (objects cl1)(key \<mapsto> ob)"
        using kube_create_objects [of key ob cl1] cr None by simp
      moreover have "objects cl' = objects cl2"
        using assms g cr Inl None by (auto simp: ensureObject_def split: if_splits)
      ultimately show ?thesis by simp
    next
      case (Some e)
      with assms g cr Inl show ?thesis by (auto simp: ensureObject_def split: if_splits)
    qed
  qed
qed

lemma ensureObject_when_success:
  assumes "(if b then ensureObject key ob what created cl else (None, cl)) = (None, cl')"
  shows "b \<longrightarrow> objects cl' key \<noteq> None"
  using assms ensureObject_success [of key ob what created cl cl'] by (simp split: if_splits)

lemma evolves_when_eq:
  assumes "(if b then ensureObject key ob what created cl else (None, cl)) = (None, cl')"
  shows "evolves T cl cl'"
  using evolves_when [of T cl b key ob what created] assms by simp

lemma ensureCIDRPolicies_success:
  assumes "ensureCIDRPolicies namespace i cidrs cl = (None, cl')"
  shows "\<forall>j < length cidrs. objects cl' (NetworkPolicyKind, namespace, ''allow-ingress-cidr-'' @ show_nat (i + j)) \<noteq> None"
  using assms
proof (induction cidrs arbitrary: i cl)
  case Nil
  then show ?case by simp
next
  case (Cons cidr rest)
  from Cons.prems obtain cl1 where
        first: "ensureObject (NetworkPolicyKind, namespace, ''allow-ingress-cidr-'' @ show_nat i)
             \<lparr> labels = [''managed-by'' \<mapsto> ''tenant-controller'', ''cidr'' \<mapsto> cidr],
               spec = NetworkPolicySpec [] [[IPBlockPeer cidr]] \<rparr>
             ''allow ingress CIDR policy''
             (''Created allow ingress CIDR policy for namespace '' @ namespace @ '': '' @ cidr) cl = (None, cl1)"
    and later: "ensureCIDRPolicies namespace (Suc i) rest cl1 = (None, cl')"
    unfolding ensureCIDRPolicies.simps by (rule seq_id_None)
  have here: "objects cl1 (NetworkPolicyKind, namespace, ''allow-ingress-cidr-'' @ show_nat i) \<noteq> None"
    using first by (rule ensureObject_success)
  have "evolves {} cl1 cl'"
    using evolves_ensureCIDRPolicies [of "{}" cl1 namespace "Suc i" rest] later by simp
  then have zero: "objects cl' (NetworkPolicyKind, namespace, ''allow-ingress-cidr-'' @ show_nat i) \<noteq> None"
    using here by (rule evolves_keeps)
  note rest = Cons.IH [OF later]
  show ?case
  proof (intro allI impI)
    fix j
    assume j: "j < length (cidr # rest)"
    show "objects cl' (NetworkPolicyKind, namespace, ''allow-ingress-cidr-'' @ show_nat (i + j)) \<noteq> None"
    proof (cases j)
      case 0
      with zero show ?thesis by simp
    next
      case (Suc m)
      with j have "m < length rest" by simp
      from rest [rule_format, OF this] Suc show ?thesis by simp
    qed
  qed
qed

lemma ensureNetworkPolicies_success:
  assumes "ensureNetworkPolicies namespace policy cl = (None, cl')"
  shows "tnp_DefaultDenyIngress policy \<longrightarrow> objects cl' (NetworkPolicyKind, namespace, ''default-deny-ingress'') \<noteq> None"
    and "tnp_DefaultDenyEgress policy \<longrightarrow> objects cl' (NetworkPolicyKind, namespace, ''default-deny-egress'') \<noteq> None"
    and "tnp_AllowIntraNamespace policy \<longrightarrow> objects cl' (NetworkPolicyKind, namespace, ''allow-intra-namespace'') \<noteq> None"
    and "\<forall>i < length (tnp_AllowIngressFromCIDR policy).
           objects cl' (NetworkPolicyKind, namespace, ''allow-ingress-cidr-'' @ show_nat i) \<noteq> None"
proof -
  let ?e1 = "\<lambda>x. if tnp_DefaultDenyEgress policy then
              ensureObject (NetworkPolicyKind, namespace, ''default-deny-egress'')
                \<lparr> labels = [''managed-by'' \<mapsto> ''tenant-controller''],
                  spec = NetworkPolicySpec [PolicyTypeEgress] [] \<rparr>
                ''default deny egress policy''
                (''Created default deny egress policy for namespace '' @ namespace) x
            else (None, x)"
  let ?e2 = "\<lambda>x. if tnp_AllowIntraNamespace policy then
              ensureObject (NetworkPolicyKind, namespace, ''allow-intra-namespace'')
                \<lparr> labels = [''managed-by'' \<mapsto> ''tenant-controller''],
                  spec = NetworkPolicySpec [] [[PodSelectorPeer]] \<rparr>
                ''allow intra-namespace policy''
                (''Created allow intra-namespace policy for namespace '' @ namespace) x
            else (None, x)"
  from assms obtain cl1 where
        s1: "(if tnp_DefaultDenyIngress policy then
              ensureObject (NetworkPolicyKind, namespace, ''default-deny-ingress'')
                \<lparr> labels = [''managed-by'' \<mapsto> ''tenant-controller''],
                  spec = NetworkPolicySpec [PolicyTypeIngress] [] \<rparr>
                ''default deny ingress policy''
                (''Created default deny ingress policy for namespace '' @ namespace) cl
            else (None, cl)) = (None, cl1)"
    and r1: "(case ?e1 cl1 of
        (Some f, cl2) \<Rightarrow> (Some f, cl2)
      | (None, cl2) \<Rightarrow>
     (case ?e2 cl2 of
        (Some f, cl3) \<Rightarrow> (Some f, cl3)
      | (None, cl3) \<Rightarrow>
          ensureCIDRPolicies namespace 0 (tnp_AllowIngressFromCIDR policy) cl3)) = (None, cl')"
    unfolding ensureNetworkPolicies_def by (rule seq_id_None)
  from r1 obtain cl2 where
        s2: "?e1 cl1 = (None, cl2)"
    and r2: "(case ?e2 cl2 of
        (Some f, cl3) \<Rightarrow> (Some f, cl3)
      | (None, cl3) \<Rightarrow>
          ensureCIDRPolicies namespace 0 (tnp_AllowIngressFromCIDR policy) cl3) = (None, cl')"
    by (rule seq_id_None)
  from r2 obtain cl3 where
        s3: "?e2 cl2 = (None, cl3)"
    and s4: "ensureCIDRPolicies namespace 0 (tnp_AllowIngressFromCIDR policy) cl3 = (None, cl')"
    by (rule seq_id_None)
  have e2: "evolves {} cl1 cl2" using s2 by (rule evolves_when_eq)
  have e3: "evolves {} cl2 cl3" using s3 by (rule evolves_when_eq)
  have e4: "evolves {} cl3 cl'"
    using evolves_ensureCIDRPolicies [of "{}" cl3 namespace 0 "tnp_AllowIngressFromCIDR policy"] s4 by simp
  have e34: "evolves {} cl2 cl'" using e3 e4 by (rule evolves_trans_same)
  have e24: "evolves {} cl1 cl'" using e2 e34 by (rule evolves_trans_same)
  show "tnp_DefaultDenyIngress policy \<longrightarrow> objects cl' (NetworkPolicyKind, namespace, ''default-deny-ingress'') \<noteq> None"
    using ensureObject_when_success [OF s1] evolves_keeps [OF e24] by blast
  show "tnp_DefaultDenyEgress policy \<longrightarrow> objects cl' (NetworkPolicyKind, namespace, ''default-deny-egress'') \<noteq> None"
    using ensureObject_when_success [OF s2] evolves_keeps [OF e34] by blast
  show "tnp_AllowIntraNamespace policy \<longrightarrow> objects cl' (NetworkPolicyKind, namespace, ''allow-intra-namespace'') \<noteq> None"
    using ensureObject_when_success [OF s3] evolves_keeps [OF e4] by blast
  show "\<forall>i < length (tnp_AllowIngressFromCIDR policy).
           objects cl' (NetworkPolicyKind, namespace, ''allow-ingress-cidr-'' @ show_nat i) \<noteq> None"
    using ensureCIDRPolicies_success [OF s4] by simp
qed

lemma ensureNamespace_success:
  assumes "ensureNamespace c name tenant cl = (None, cl')"
  shows "objects cl' (NamespaceKind, [], name) \<noteq> None"
proof -
  let ?k = "(NamespaceKind, [], name)"
  let ?ns = "\<lparr> labels = [''tenant'' \<mapsto> tenant_Name tenant,
                          ''tenant-id'' \<mapsto> tenant_ID tenant,
                          ''owner-id'' \<mapsto> tenant_OwnerID tenant,
                          ''managed-by'' \<mapsto> ''tenant-controller'',
                          ''cluster-name'' \<mapsto> clusterName c],
               spec = NamespaceSpec \<rparr> :: 'a kobject"
  obtain r1 cl1 where g: "kube_get ?k cl = (r1, cl1)" by (cases "kube_get ?k cl") auto
  obtain r2 cl2 where cr: "kube_create ?k ?ns cl1 = (r2, cl2)" by (cases "kube_create ?k ?ns cl1") auto
  have o1: "objects cl1 = objects cl" using kube_get_state(1) [of ?k cl] g by simp
  have r: "fst (kube_get ?k cl) = r1" using g by simp
  show ?thesis
  proof (cases r1)
    case (Inr found)
    then have "objects cl ?k = Some found" using kube_get_found [of ?k cl found] r by simp
    moreover have "cl' = cl1" using assms g Inr by (simp add: ensureNamespace_def)
    ultimately show ?thesis using o1 by simp
  next
    case (Inl err)
    show ?thesis
    proof (cases r2)
      case None
      have "objects cl2 = (objects cl1)(?k \<mapsto> ?ns)"
        using kube_create_objects [of ?k ?ns cl1] cr None by simp
      moreover have "objects cl' = objects cl2"
        using assms g cr Inl None by (auto simp: ensureNamespace_def split: if_splits)
      ultimately show ?thesis by simp
    next
      case (Some e)
      with assms g cr Inl show ?thesis by (auto simp: ensureNamespace_def split: if_splits)
    qed
  qed
qed

lemma ensureServiceMesh_success:
  assumes "ensureServiceMesh namespace cl = (None, cl')"
  shows "\<exists>ns. objects cl' (NamespaceKind, [], namespace) = Some ns
              \<and> labels ns ''istio-injection'' = Some ''enabled''"
proof -
  let ?k = "(NamespaceKind, [], namespace)"
  obtain r1 cl1 where g: "kube_get ?k cl = (r1, cl1)" by (cases "kube_get ?k cl") auto
  show ?thesis
  proof (cases r1)
    case (Inl err)
    with assms g show ?thesis by (simp add: ensureServiceMesh_def)
  next
    case (Inr ns)
    let ?ns = "ns \<lparr> labels := (labels ns)(''istio-injection'' \<mapsto> ''enabled'') \<rparr>"
    obtain r2 cl2 where up: "kube_update ?k ?ns cl1 = (r2, cl2)" by (cases "kube_update ?k ?ns cl1") auto
    show ?thesis
    proof (cases r2)
      case (Some e)
      with assms g up Inr show ?thesis by (simp add: ensureServiceMesh_def)
    next
      case None
      have "objects cl2 = (objects cl1)(?k \<mapsto> ?ns)"
        using kube_update_objects [of ?k ?ns cl1] up None by simp
      moreover have "objects cl' = objects cl2"
        using assms g up Inr None by (auto simp: ensureServiceMesh_def)
      ultimately have "objects cl' ?k = Some ?ns" by simp
      moreover have "labels ?ns ''istio-injection'' = Some ''enabled''" by simp
      ultimately show ?thesis by blast
    qed
  qed
qed

lemma ensureResourceQuota_success:
  assumes "ensureResourceQuota c namespace limits cl = (None, cl')"
  shows "\<exists>hard. quota_hard c limits = Inr hard
            \<and> objects cl' (ResourceQuotaKind, namespace, ''tenant-quota'')
                = Some \<lparr> labels = [''managed-by'' \<mapsto> ''tenant-controller''], spec = QuotaSpec hard \<rparr>"
proof (cases "quota_hard c limits")
  case (Inl s)
  with assms show ?thesis by (simp add: ensureResourceQuota_def)
next
  case (Inr hard)
  from ensureResourceQuota_effect(1) [OF assms Inr] Inr show ?thesis by simp
qed

lemma processNamespace_settles:
  assumes "processNamespace c tenant namespace cl = (None, cl')"
  shows "settled c tenant namespace cl'"
proof -
  let ?mesh = "\<lambda>x. if tenant_ServiceMeshEnable tenant then
             (case ensureServiceMesh namespace x of
                (Some f, cl5) \<Rightarrow>
                  (Some (wrap (''failed to ensure service mesh for namespace '' @ namespace @ '': '') f), cl5)
              | (None, cl5) \<Rightarrow> (None, cl5))
           else (None, x)"
  from assms obtain cl1 where
        s1: "ensureNamespace c namespace tenant cl = (None, cl1)"
    and r1: "(case ensureResourceQuota c namespace (tenant_ResourceLimits tenant) cl1 of
        (Some f, cl2) \<Rightarrow>
          (Some (wrap (''failed to ensure resource quota for namespace '' @ namespace @ '': '') f), cl2)
      | (None, cl2) \<Rightarrow>
     (case ensureNetworkPolicies namespace (tenant_NetworkPolicy tenant) cl2 of
        (Some f, cl3) \<Rightarrow>
          (Some (wrap (''failed to ensure network policies for namespace '' @ namespace @ '': '') f), cl3)
      | (None, cl3) \<Rightarrow>
     (case ensureRBAC namespace (tenant_OwnerID tenant) cl3 of
        (Some f, cl4) \<Rightarrow>
          (Some (wrap (''failed to ensure RBAC for namespace '' @ namespace @ '': '') f), cl4)
      | (None, cl4) \<Rightarrow> ?mesh cl4))) = (None, cl')"
    unfolding processNamespace_def by (rule seq_None)
  from r1 obtain cl2 where
        s2: "ensureResourceQuota c namespace (tenant_ResourceLimits tenant) cl1 = (None, cl2)"
    and r2: "(case ensureNetworkPolicies namespace (tenant_NetworkPolicy tenant) cl2 of
        (Some f, cl3) \<Rightarrow>
          (Some (wrap (''failed to ensure network policies for namespace '' @ namespace @ '': '') f), cl3)
      | (None, cl3) \<Rightarrow>
     (case ensureRBAC namespace (tenant_OwnerID tenant) cl3 of
        (Some f, cl4) \<Rightarrow>
          (Some (wrap (''failed to ensure RBAC for namespace '' @ namespace @ '': '') f), cl4)
      | (None, cl4) \<Rightarrow> ?mesh cl4)) = (None, cl')"
    by (rule seq_None)
  from r2 obtain cl3 where
        s3: "ensureNetworkPolicies namespace (tenant_NetworkPolicy tenant) cl2 = (None, cl3)"
    and r3: "(case ensureRBAC namespace (tenant_OwnerID tenant) cl3 of
        (Some f, cl4) \<Rightarrow>
          (Some (wrap (''failed to ensure RBAC for namespace '' @ namespace @ '': '') f), cl4)
      | (None, cl4) \<Rightarrow> ?mesh cl4) = (None, cl')"
    by (rule seq_None)
  from r3 obtain cl4 where
        s4: "ensureRBAC namespace (tenant_OwnerID tenant) cl3 = (None, cl4)"
    and s5: "?mesh cl4 = (None, cl')"
    by (rule seq_None)
  let ?nk = "(NamespaceKind, [], namespace)"
  let ?qk = "(ResourceQuotaKind, namespace, ''tenant-quota'')"
  let ?M = "{?nk}"
  have e2: "evolves {?qk} cl1 cl2"
    using evolves_ensureResourceQuota [of namespace cl1 c "tenant_ResourceLimits tenant"] s2 by simp
  have e3: "evolves ?M cl2 cl3"
    using evolves_ensureNetworkPolicies [of ?M cl2 namespace "tenant_NetworkPolicy tenant"] s3 by simp
  have e4: "evolves ?M cl3 cl4"
    using evolves_ensureRBAC [of ?M cl3 namespace "tenant_OwnerID tenant"] s4 by simp
  have e5: "evolves ?M cl4 cl'"
  proof (cases "tenant_ServiceMeshEnable tenant")
    case False
    with s5 show ?thesis by simp
  next
    case True
    with s5 obtain x where "ensureServiceMesh namespace cl4 = (None, x)" and "(None, x) = (None, cl')"
      by (auto elim: seq_None)
    then show ?thesis using evolves_ensureServiceMesh [of namespace cl4] by simp
  qed
  have e45: "evolves ?M cl3 cl'" using e4 e5 by (rule evolves_trans_same)
  have e35: "evolves ?M cl2 cl'" using e3 e45 by (rule evolves_trans_same)
  have e25: "evolves ({?qk} \<union> ?M) cl1 cl'" using e2 e35 by (rule evolves_trans)
  have n1: "objects cl1 ?nk \<noteq> None" using s1 by (rule ensureNamespace_success)
  have n5: "objects cl' ?nk \<noteq> None" using e25 n1 by (rule evolves_keeps)
  have ns: "\<exists>ns. objects cl' ?nk = Some ns
                 \<and> (tenant_ServiceMeshEnable tenant \<longrightarrow> labels ns ''istio-injection'' = Some ''enabled'')"
  proof (cases "tenant_ServiceMeshEnable tenant")
    case False
    with n5 show ?thesis by auto
  next
    case True
    with s5 obtain x where "ensureServiceMesh namespace cl4 = (None, x)" and "(None, x) = (None, cl')"
      by (auto elim: seq_None)
    then have "ensureServiceMesh namespace cl4 = (None, cl')" by simp
    from ensureServiceMesh_success [OF this] show ?thesis by blast
  qed
  from ensureResourceQuota_success [OF s2] obtain hard where
        hard: "quota_hard c (tenant_ResourceLimits tenant) = Inr hard"
    and q2: "objects cl2 ?qk = Some \<lparr> labels = [''managed-by'' \<mapsto> ''tenant-controller''], spec = QuotaSpec hard \<rparr>"
    by blast
  have "?qk \<notin> ?M" by simp
  with e35 have q5: "objects cl' ?qk = Some \<lparr> labels = [''managed-by'' \<mapsto> ''tenant-controller''], spec = QuotaSpec hard \<rparr>"
    using q2 by (rule evolves_keeps_value)
  note p3 = ensureNetworkPolicies_success [OF s3]
  have p1: "tnp_DefaultDenyIngress (tenant_NetworkPolicy tenant) \<longrightarrow>
               objects cl' (NetworkPolicyKind, namespace, ''default-deny-ingress'') \<noteq> None"
    using p3(1) evolves_keeps [OF e45] by blast
  have p2: "tnp_DefaultDenyEgress (tenant_NetworkPolicy tenant) \<longrightarrow>
               objects cl' (NetworkPolicyKind, namespace, ''default-deny-egress'') \<noteq> None"
    using p3(2) evolves_keeps [OF e45] by blast
  have p3': "tnp_AllowIntraNamespace (tenant_NetworkPolicy tenant) \<longrightarrow>
               objects cl' (NetworkPolicyKind, namespace, ''allow-intra-namespace'') \<noteq> None"
    using p3(3) evolves_keeps [OF e45] by blast
  have p4: "\<forall>i < length (tnp_AllowIngressFromCIDR (tenant_NetworkPolicy tenant)).
               objects cl' (NetworkPolicyKind, namespace, ''allow-ingress-cidr-'' @ show_nat i) \<noteq> None"
    using p3(4) evolves_keeps [OF e45] by blast
  have rb4: "objects cl4 (RoleBindingKind, namespace, ''tenant-owner'') \<noteq> None"
    using s4 unfolding ensureRBAC_def by (rule ensureObject_success)
  have rb: "objects cl' (RoleBindingKind, namespace, ''tenant-owner'') \<noteq> None"
    using e5 rb4 by (rule evolves_keeps)
  from ns hard q5 p1 p2 p3' p4 rb show ?thesis
    unfolding settled_def by blast
qed

text \<open>Being settled survives every step that overwrites neither the namespace nor its quota.\<close>

lemma settled_evolves:
  assumes "settled c tenant namespace cl" and "evolves T cl cl'"
      and "(NamespaceKind, [], namespace) \<notin> T" and "(ResourceQuotaKind, namespace, ''tenant-quota'') \<notin> T"
  shows "settled c tenant namespace cl'"
proof -
  from assms(1) obtain ns hard where
        ns: "objects cl (NamespaceKind, [], namespace) = Some ns"
    and mesh: "tenant_ServiceMeshEnable tenant \<longrightarrow> labels ns ''istio-injection'' = Some ''enabled''"
    and hard: "quota_hard c (tenant_ResourceLimits tenant) = Inr hard"
    and quota: "objects cl (ResourceQuotaKind, namespace, ''tenant-quota'')
                  = Some \<lparr> labels = [''managed-by'' \<mapsto> ''tenant-controller''], spec = QuotaSpec hard \<rparr>"
    and p1: "tnp_DefaultDenyIngress (tenant_NetworkPolicy tenant) \<longrightarrow>
               objects cl (NetworkPolicyKind, namespace, ''default-deny-ingress'') \<noteq> None"
    and p2: "tnp_DefaultDenyEgress (tenant_NetworkPolicy tenant) \<longrightarrow>
               objects cl (NetworkPolicyKind, namespace, ''default-deny-egress'') \<noteq> None"
    and p3: "tnp_AllowIntraNamespace (tenant_NetworkPolicy tenant) \<longrightarrow>
               objects cl (NetworkPolicyKind, namespace, ''allow-intra-namespace'') \<noteq> None"
    and p4: "\<forall>i < length (tnp_AllowIngressFromCIDR (tenant_NetworkPolicy tenant)).
               objects cl (NetworkPolicyKind, namespace, ''allow-ingress-cidr-'' @ show_nat i) \<noteq> None"
    and rb: "objects cl (RoleBindingKind, namespace, ''tenant-owner'') \<noteq> None"
    unfolding settled_def by blast
  note keep = evolves_keeps [OF assms(2)]
  have ns': "objects cl' (NamespaceKind, [], namespace) = Some ns"
    using assms(2) assms(3) ns by (rule evolves_keeps_value)
  have quota': "objects cl' (ResourceQuotaKind, namespace, ''tenant-quota'')
                  = Some \<lparr> labels = [''managed-by'' \<mapsto> ''tenant-controller''], spec = QuotaSpec hard \<rparr>"
    using assms(2) assms(4) quota by (rule evolves_keeps_value)
  have p1': "tnp_DefaultDenyIngress (tenant_NetworkPolicy tenant) \<longrightarrow>
               objects cl' (NetworkPolicyKind, namespace, ''default-deny-ingress'') \<noteq> None"
    using p1 keep by blast
  have p2': "tnp_DefaultDenyEgress (tenant_NetworkPolicy tenant) \<longrightarrow>
               objects cl' (NetworkPolicyKind, namespace, ''default-deny-egress'') \<noteq> None"
    using p2 keep by blast
  have p3': "tnp_AllowIntraNamespace (tenant_NetworkPolicy tenant) \<longrightarrow>
               objects cl' (NetworkPolicyKind, namespace, ''allow-intra-namespace'') \<noteq> None"
    using p3 keep by blast
  have p4': "\<forall>i < length (tnp_AllowIngressFromCIDR (tenant_NetworkPolicy tenant)).
               objects cl' (NetworkPolicyKind, namespace, ''allow-ingress-cidr-'' @ show_nat i) \<noteq> None"
    using p4 keep by blast
  have rb': "objects cl' (RoleBindingKind, namespace, ''tenant-owner'') \<noteq> None"
    using rb by (rule keep)
  from ns' mesh hard quota' p1' p2' p3' p4' rb' show ?thesis
    unfolding settled_def by blast
qed

lemma processNamespaces_settles:
  assumes "processNamespaces c tenant nss cl = (None, cl')"
  shows "\<forall>n \<in> set nss. settled c tenant n cl'"
  using assms
proof (induction nss arbitrary: cl)
  case Nil
  then show ?case by simp
next
  case (Cons m rest)
  from Cons.prems obtain cl1 where
        first: "processNamespace c tenant m cl = (None, cl1)"
    and later: "processNamespaces c tenant rest cl1 = (None, cl')"
    unfolding processNamespaces.simps by (rule seq_id_None)
  note ih = Cons.IH [OF later]
  have e: "evolves (\<Union>n \<in> set rest. written_keys n) cl1 cl'"
    using evolves_processNamespaces [of rest cl1 c tenant] later by simp
  have head: "settled c tenant m cl'"
  proof (cases "m \<in> set rest")
    case True
    with ih show ?thesis by simp
  next
    case False
    have s1: "settled c tenant m cl1" using first by (rule processNamespace_settles)
    have a: "(NamespaceKind, [], m) \<notin> (\<Union>n \<in> set rest. written_keys n)"
      using False by (auto simp: written_keys_def)
    have b: "(ResourceQuotaKind, m, ''tenant-quota'') \<notin> (\<Union>n \<in> set rest. written_keys n)"
      using False by (auto simp: written_keys_def)
    from s1 e a b show ?thesis by (rule settled_evolves)
  qed
  with ih show ?case by simp
qed

lemma quiet_no_create:
  assumes "quiet a b" and "prefix (calls a) (calls b)"
  shows "filter (\<lambda>call. fst call = Create) (new_calls a b) = []"
proof -
  from assms(2) obtain zs where zs: "calls b = calls a @ zs" by (auto simp: prefix_def)
  then have "new_calls a b = zs" by (simp add: new_calls_def)
  moreover have "creates b = creates a @ filter (\<lambda>call. fst call = Create) zs"
    using zs by (simp add: creates_def)
  moreover have "creates b = creates a" using assms(1) by (simp add: quiet_def)
  ultimately show ?thesis by simp
qed


section \<open>Running the pass twice\<close>

lemma second_pass_eval:
  "fst (processTenant demo_controller small_tenant first_pass) = None"
  "new_calls first_pass (snd (processTenant demo_controller small_tenant first_pass)) =
     [(Get, (NamespaceKind, [], ''team-alpha-dev'')),
      (Get, (ResourceQuotaKind, ''team-alpha-dev'', ''tenant-quota'')),
      (Update, (ResourceQuotaKind, ''team-alpha-dev'', ''tenant-quota'')),
      (Get, (NetworkPolicyKind, ''team-alpha-dev'', ''default-deny-ingress'')),
      (Get, (NetworkPolicyKind, ''team-alpha-dev'', ''allow-intra-namespace'')),
      (Get, (NetworkPolicyKind, ''team-alpha-dev'', ''allow-ingress-cidr-0'')),
      (Get, (RoleBindingKind, ''team-alpha-dev'', ''tenant-owner'')),
      (Get, (NamespaceKind, [], ''team-alpha-dev'')),
      (Update, (NamespaceKind, [], ''team-alpha-dev''))]"
  unfolding first_pass_def new_calls_def
  by (simp_all add: ctl_eval small_tenant_eval demo_controller_def empty_cluster_def show_eval)

text \<open>The calls made in a part of a run are among the calls of the whole run.\<close>

lemma new_calls_mid:
  assumes "prefix (calls a) (calls b)" and "prefix (calls b) (calls c)" and "prefix (calls c) (calls d)"
      and "x \<in> set (new_calls b c)"
  shows "x \<in> set (new_calls a d)"
proof -
  from assms(1-3) obtain u v w where "calls b = calls a @ u" "calls c = calls b @ v" "calls d = calls c @ w"
    by (auto simp: prefix_def)
  then have "new_calls b c = v" "new_calls a d = u @ v @ w" by (simp_all add: new_calls_def)
  with assms(4) show ?thesis by simp
qed

lemma processNamespace_steps:
  assumes "processNamespace c tenant namespace cl = (None, cl')"
  obtains cl1 cl2 cl3 cl4 where
        "ensureNamespace c namespace tenant cl = (None, cl1)"
    and "ensureResourceQuota c namespace (tenant_ResourceLimits tenant) cl1 = (None, cl2)"
    and "ensureNetworkPolicies namespace (tenant_NetworkPolicy tenant) cl2 = (None, cl3)"
    and "ensureRBAC namespace (tenant_OwnerID tenant) cl3 = (None, cl4)"
    and "if tenant_ServiceMeshEnable tenant then ensureServiceMesh namespace cl4 = (None, cl') else cl' = cl4"
proof -
  let ?mesh = "\<lambda>x. if tenant_ServiceMeshEnable tenant then
             (case ensureServiceMesh namespace x of
                (Some f, cl5) \<Rightarrow>
                  (Some (wrap (''failed to ensure service mesh for namespace '' @ namespace @ '': '') f), cl5)
              | (None, cl5) \<Rightarrow> (None, cl5))
           else (None, x)"
  from assms obtain cl1 where
        s1: "ensureNamespace c namespace tenant cl = (None, cl1)"
    and r1: "(case ensureResourceQuota c namespace (tenant_ResourceLimits tenant) cl1 of
        (Some f, cl2) \<Rightarrow>
          (Some (wrap (''failed to ensure resource quota for namespace '' @ namespace @ '': '') f), cl2)
      | (None, cl2) \<Rightarrow>
     (case ensureNetworkPolicies namespace (tenant_NetworkPolicy tenant) cl2 of
        (Some f, cl3) \<Rightarrow>
          (Some (wrap (''failed to ensure network policies for namespace '' @ namespace @ '': '') f), cl3)
      | (None, cl3) \<Rightarrow>
     (case ensureRBAC namespace (tenant_OwnerID tenant) cl3 of
        (Some f, cl4) \<Rightarrow>
          (Some (wrap (''failed to ensure RBAC for namespace '' @ namespace @ '': '') f), cl4)
      | (None, cl4) \<Rightarrow> ?mesh cl4))) = (None, cl')"
    unfolding processNamespace_def by (rule seq_None)
  from r1 obtain cl2 where
        s2: "ensureResourceQuota c namespace (tenant_ResourceLimits tenant) cl1 = (None, cl2)"
    and r2: "(case ensureNetworkPolicies namespace (tenant_NetworkPolicy tenant) cl2 of
        (Some f, cl3) \<Rightarrow>
          (Some (wrap (''failed to ensure network policies for namespace '' @ namespace @ '': '') f), cl3)
      | (None, cl3) \<Rightarrow>
     (case ensureRBAC namespace (tenant_OwnerID tenant) cl3 of
        (Some f, cl4) \<Rightarrow>
          (Some (wrap (''failed to ensure RBAC for namespace '' @ namespace @ '': '') f), cl4)
      | (None, cl4) \<Rightarrow> ?mesh cl4)) = (None, cl')"
    by (rule seq_None)
  from r2 obtain cl3 where
        s3: "ensureNetworkPolicies namespace (tenant_NetworkPolicy tenant) cl2 = (None, cl3)"
    and r3: "(case ensureRBAC namespace (tenant_OwnerID tenant) cl3 of
        (Some f, cl4) \<Rightarrow>
          (Some (wrap (''failed to ensure RBAC for namespace '' @ namespace @ '': '') f), cl4)
      | (None, cl4) \<Rightarrow> ?mesh cl4) = (None, cl')"
    by (rule seq_None)
  from r3 obtain cl4 where
        s4: "ensureRBAC namespace (tenant_OwnerID tenant) cl3 = (None, cl4)"
    and s5: "?mesh cl4 = (None, cl')"
    by (rule seq_None)
  have m: "if tenant_ServiceMeshEnable tenant then ensureServiceMesh namespace cl4 = (None, cl') else cl' = cl4"
  proof (cases "tenant_ServiceMeshEnable tenant")
    case False
    with s5 show ?thesis by simp
  next
    case True
    with s5 obtain x where "ensureServiceMesh namespace cl4 = (None, x)" and "(None, x) = (None, cl')"
      by (auto elim: seq_None)
    with True show ?thesis by simp
  qed
  from s1 s2 s3 s4 m show ?thesis by (rule that)
qed

text \<open>A pass that succeeds has updated the quota that was there, and the namespace.\<close>

lemma ensureResourceQuota_update_call:
  assumes "ensureResourceQuota c namespace limits cl = (None, cl')"
      and "objects cl (ResourceQuotaKind, namespace, ''tenant-quota'') \<noteq> None"
  shows "(Update, (ResourceQuotaKind, namespace, ''tenant-quota'')) \<in> set (new_calls cl cl')"
proof -
  from ensureResourceQuota_success [OF assms(1)] obtain hard where "quota_hard c limits = Inr hard"
    by blast
  from ensureResourceQuota_effect(2) [OF assms(1) this] assms(2) show ?thesis by simp
qed

lemma ensureServiceMesh_update_call:
  assumes "ensureServiceMesh namespace cl = (None, cl')"
  shows "(Update, (NamespaceKind, [], namespace)) \<in> set (new_calls cl cl')"
proof -
  let ?k = "(NamespaceKind, [], namespace)"
  obtain r1 cl1 where g: "kube_get ?k cl = (r1, cl1)" by (cases "kube_get ?k cl") auto
  have c1: "calls cl1 = calls cl @ [(Get, ?k)]" using kube_get_state(3) [of ?k cl] g by simp
  show ?thesis
  proof (cases r1)
    case (Inl err)
    with assms g show ?thesis by (simp add: ensureServiceMesh_def)
  next
    case (Inr ns)
    let ?ns = "ns \<lparr> labels := (labels ns)(''istio-injection'' \<mapsto> ''enabled'') \<rparr>"
    obtain r2 cl2 where up: "kube_update ?k ?ns cl1 = (r2, cl2)" by (cases "kube_update ?k ?ns cl1") auto
    have c2: "calls cl2 = calls cl1 @ [(Update, ?k)]" using kube_update_state(2) [of ?k ?ns cl1] up by simp
    show ?thesis
    proof (cases r2)
      case (Some e)
      with assms g up Inr show ?thesis by (simp add: ensureServiceMesh_def)
    next
      case None
      have "calls cl' = calls cl2"
        using assms g up Inr None by (auto simp: ensureServiceMesh_def)
      then show ?thesis by (simp add: new_calls_def c1 c2)
    qed
  qed
qed

lemma processNamespace_update_calls:
  assumes "processNamespace c tenant namespace cl = (None, cl')"
      and "objects cl (ResourceQuotaKind, namespace, ''tenant-quota'') \<noteq> None"
  shows "(Update, (ResourceQuotaKind, namespace, ''tenant-quota'')) \<in> set (new_calls cl cl')"
    and "tenant_ServiceMeshEnable tenant \<Longrightarrow> (Update, (NamespaceKind, [], namespace)) \<in> set (new_calls cl cl')"
proof -
  from assms(1) obtain cl1 cl2 cl3 cl4 where
        s1: "ensureNamespace c namespace tenant cl = (None, cl1)"
    and s2: "ensureResourceQuota c namespace (tenant_ResourceLimits tenant) cl1 = (None, cl2)"
    and s3: "ensureNetworkPolicies namespace (tenant_NetworkPolicy tenant) cl2 = (None, cl3)"
    and s4: "ensureRBAC namespace (tenant_OwnerID tenant) cl3 = (None, cl4)"
    and s5: "if tenant_ServiceMeshEnable tenant then ensureServiceMesh namespace cl4 = (None, cl') else cl' = cl4"
    by (rule processNamespace_steps)
  let ?M = "{(NamespaceKind, [], namespace)}"
  have e1: "evolves {} cl cl1"
    using evolves_ensureNamespace [of "{}" cl c namespace tenant] s1 by simp
  have e2: "evolves {(ResourceQuotaKind, namespace, ''tenant-quota'')} cl1 cl2"
    using evolves_ensureResourceQuota [of namespace cl1 c "tenant_ResourceLimits tenant"] s2 by simp
  have e3: "evolves {} cl2 cl3"
    using evolves_ensureNetworkPolicies [of "{}" cl2 namespace "tenant_NetworkPolicy tenant"] s3 by simp
  have e4: "evolves {} cl3 cl4"
    using evolves_ensureRBAC [of "{}" cl3 namespace "tenant_OwnerID tenant"] s4 by simp
  have e5: "evolves ?M cl4 cl'"
  proof (cases "tenant_ServiceMeshEnable tenant")
    case False
    with s5 show ?thesis by simp
  next
    case True
    with s5 show ?thesis using evolves_ensureServiceMesh [of namespace cl4] by simp
  qed
  note p1 = evolves_prefix [OF e1] and p2 = evolves_prefix [OF e2] and p3 = evolves_prefix [OF e3]
    and p4 = evolves_prefix [OF e4] and p5 = evolves_prefix [OF e5]
  have p04: "prefix (calls cl) (calls cl4)"
    by (rule prefix_order.trans [OF p1]) (rule prefix_order.trans [OF p2], rule prefix_order.trans [OF p3], rule p4)
  have p25: "prefix (calls cl2) (calls cl')"
    by (rule prefix_order.trans [OF p3]) (rule prefix_order.trans [OF p4], rule p5)
  have q1: "objects cl1 (ResourceQuotaKind, namespace, ''tenant-quota'') \<noteq> None"
    using e1 assms(2) by (rule evolves_keeps)
  have "(Update, (ResourceQuotaKind, namespace, ''tenant-quota'')) \<in> set (new_calls cl1 cl2)"
    using s2 q1 by (rule ensureResourceQuota_update_call)
  with p1 p2 p25 show "(Update, (ResourceQuotaKind, namespace, ''tenant-quota'')) \<in> set (new_calls cl cl')"
    by (rule new_calls_mid)
  show "(Update, (NamespaceKind, [], namespace)) \<in> set (new_calls cl cl')" if "tenant_ServiceMeshEnable tenant"
  proof -
    have "ensureServiceMesh namespace cl4 = (None, cl')" using s5 that by simp
    then have "(Update, (NamespaceKind, [], namespace)) \<in> set (new_calls cl4 cl')"
      by (rule ensureServiceMesh_update_call)
    with p04 p5 show ?thesis by (rule new_calls_mid [OF _ _ prefix_order.refl])
  qed
qed

lemma processNamespaces_update_calls:
  assumes "processNamespaces c tenant nss cl = (None, cl')"
      and "\<forall>n \<in> set nss. objects cl (ResourceQuotaKind, n, ''tenant-quota'') \<noteq> None"
  shows "\<forall>n \<in> set nss.
           (Update, (ResourceQuotaKind, n, ''tenant-quota'')) \<in> set (new_calls cl cl')
           \<and> (tenant_ServiceMeshEnable tenant \<longrightarrow> (Update, (NamespaceKind, [], n)) \<in> set (new_calls cl cl'))"
  using assms
proof (induction nss arbitrary: cl)
  case Nil
  then show ?case by simp
next
  case (Cons m rest)
  from Cons.prems(1) obtain cl1 where
        first: "processNamespace c tenant m cl = (None, cl1)"
    and later: "processNamespaces c tenant rest cl1 = (None, cl')"
    unfolding processNamespaces.simps by (rule seq_id_None)
  have e1: "evolves (written_keys m) cl cl1"
    using evolves_processNamespace [of m cl c tenant] first by simp
  have e2: "evolves (\<Union>n \<in> set rest. written_keys n) cl1 cl'"
    using evolves_processNamespaces [of rest cl1 c tenant] later by simp
  note p1 = evolves_prefix [OF e1] and p2 = evolves_prefix [OF e2]
  have there: "\<forall>n \<in> set rest. objects cl1 (ResourceQuotaKind, n, ''tenant-quota'') \<noteq> None"
    using Cons.prems(2) evolves_keeps [OF e1] by simp
  note ih = Cons.IH [OF later there]
  have qm: "objects cl (ResourceQuotaKind, m, ''tenant-quota'') \<noteq> None"
    using Cons.prems(2) by simp
  note um = processNamespace_update_calls [OF first qm]
  have head: "(Update, (ResourceQuotaKind, m, ''tenant-quota'')) \<in> set (new_calls cl cl')
              \<and> (tenant_ServiceMeshEnable tenant \<longrightarrow> (Update, (NamespaceKind, [], m)) \<in> set (new_calls cl cl'))"
    using um new_calls_mid [OF prefix_order.refl p1 p2] by blast
  have tail: "\<forall>n \<in> set rest.
           (Update, (ResourceQuotaKind, n, ''tenant-quota'')) \<in> set (new_calls cl cl')
           \<and> (tenant_ServiceMeshEnable tenant \<longrightarrow> (Update, (NamespaceKind, [], n)) \<in> set (new_calls cl cl'))"
    using ih new_calls_mid [OF p1 p2 prefix_order.refl] by blast
  from head tail show ?case by simp
qed

text \<open>
  C2 as stated fails. The one-namespace mock tenant is reconciled on an empty cluster,
  without error; nothing else touches the cluster and the same tenant is reconciled
  again, without error. The second pass issues two update calls: one for the quota and
  one for the namespace (the mesh label).
\<close>

theorem second_pass_updates_counterexample:
  "fst (processTenant demo_controller small_tenant empty_cluster) = None
   \<and> fst (processTenant demo_controller small_tenant first_pass) = None
   \<and> filter (\<lambda>call. fst call = Update)
        (new_calls first_pass (snd (processTenant demo_controller small_tenant first_pass)))
       = [(Update, (ResourceQuotaKind, ''team-alpha-dev'', ''tenant-quota'')),
          (Update, (NamespaceKind, [], ''team-alpha-dev''))]"
  by (simp add: first_pass_eval(1) second_pass_eval)

text \<open>
  C2 as amended. When the pass over a tenant has succeeded and nothing else has modified
  the cluster, a second pass with the same declaration issues no create call and leaves
  every object of the cluster as it is. It is not free of update calls: a second pass
  that itself returns without error has issued an update of the quota of every
  namespace of the tenant and, when the service mesh is enabled, an update of every
  namespace of the tenant; they rewrite these objects with the content they have.
\<close>

theorem second_pass_changes_nothing:
  assumes "processTenant c tenant cl = (None, cl1)"
  shows "objects (snd (processTenant c tenant cl1)) = objects cl1
         \<and> filter (\<lambda>call. fst call = Create) (new_calls cl1 (snd (processTenant c tenant cl1))) = []
         \<and> (fst (processTenant c tenant cl1) = None \<longrightarrow>
              (\<forall>n \<in> set (tenant_Namespaces tenant).
                 (Update, (ResourceQuotaKind, n, ''tenant-quota''))
                   \<in> set (new_calls cl1 (snd (processTenant c tenant cl1)))
                 \<and> (tenant_ServiceMeshEnable tenant \<longrightarrow>
                      (Update, (NamespaceKind, [], n))
                        \<in> set (new_calls cl1 (snd (processTenant c tenant cl1))))))"
proof -
  have st: "\<forall>n \<in> set (tenant_Namespaces tenant). settled c tenant n cl1"
    using assms unfolding processTenant_def by (rule processNamespaces_settles)
  then have q: "quiet cl1 (snd (processTenant c tenant cl1))"
    unfolding processTenant_def by (rule quiet_processNamespaces)
  have "prefix (calls cl1) (calls (snd (processTenant c tenant cl1)))"
    using evolves_processTenant [of cl1 c tenant] by (simp add: evolves_def)
  with q have nc: "filter (\<lambda>call. fst call = Create) (new_calls cl1 (snd (processTenant c tenant cl1))) = []"
    by (rule quiet_no_create)
  have quotas: "\<forall>n \<in> set (tenant_Namespaces tenant). objects cl1 (ResourceQuotaKind, n, ''tenant-quota'') \<noteq> None"
    using st unfolding settled_def by auto
  have up: "fst (processTenant c tenant cl1) = None \<longrightarrow>
              (\<forall>n \<in> set (tenant_Namespaces tenant).
                 (Update, (ResourceQuotaKind, n, ''tenant-quota''))
                   \<in> set (new_calls cl1 (snd (processTenant c tenant cl1)))
                 \<and> (tenant_ServiceMeshEnable tenant \<longrightarrow>
                      (Update, (NamespaceKind, [], n))
                        \<in> set (new_calls cl1 (snd (processTenant c tenant cl1)))))"
  proof
    assume "fst (processTenant c tenant cl1) = None"
    then have "processNamespaces c tenant (tenant_Namespaces tenant) cl1
                 = (None, snd (processTenant c tenant cl1))"
      by (simp add: processTenant_def prod_eq_iff)
    from processNamespaces_update_calls [OF this quotas]
    show "\<forall>n \<in> set (tenant_Namespaces tenant).
                 (Update, (ResourceQuotaKind, n, ''tenant-quota''))
                   \<in> set (new_calls cl1 (snd (processTenant c tenant cl1)))
                 \<and> (tenant_ServiceMeshEnable tenant \<longrightarrow>
                      (Update, (NamespaceKind, [], n))
                        \<in> set (new_calls cl1 (snd (processTenant c tenant cl1))))" .
  qed
  from q nc up show ?thesis by (simp add: quiet_def)
qed

theorem second_pass_changes_nothing_witness:
  "objects (snd (processTenant demo_controller small_tenant first_pass)) = objects first_pass
   \<and> filter (\<lambda>call. fst call = Create)
        (new_calls first_pass (snd (processTenant demo_controller small_tenant first_pass))) = []
   \<and> (Update, (ResourceQuotaKind, ''team-alpha-dev'', ''tenant-quota''))
        \<in> set (new_calls first_pass (snd (processTenant demo_controller small_tenant first_pass)))
   \<and> (Update, (NamespaceKind, [], ''team-alpha-dev''))
        \<in> set (new_calls first_pass (snd (processTenant demo_controller small_tenant first_pass)))"
proof -
  have "processTenant demo_controller small_tenant empty_cluster = (None, first_pass)"
    using first_pass_eval(1) by (simp add: first_pass_def prod_eq_iff)
  from second_pass_changes_nothing [OF this] second_pass_eval(1)
  show ?thesis by (simp add: small_tenant_eval)
qed

end
